(* ===== verification/Prelude.thy ===== *)
theory Prelude
  imports Complex_Main "HOL-Library.Word" "HOL-Library.Signed_Division"
begin

section \<open>Prelude: machine integers, results, shared lemmas\<close>

text \<open>
  What every component uses: the names of the machine types, the errors the code can end with,
  sequencing of fallible computations, the conversion of a floating-point value to a 64-bit
  integer, and lemmas on words and lists that the components share.

  The C++ types \<open>int64_t\<close>, \<open>uint64_t\<close> and \<open>size_t\<close> are 64-bit words; a signed value is read with
  \<open>sint\<close> and an unsigned one with \<open>uint\<close> or \<open>unat\<close>. Addition, subtraction and multiplication wrap
  (for signed operands C++ leaves overflow undefined; the model has the two's complement result
  of the machine). \<open>double\<close> and \<open>long double\<close> are \<open>real\<close>: rounding is not modelled.
\<close>

type_synonym int64 = "64 word"
type_synonym uint64 = "64 word"
type_synonym int32 = "32 word"

text \<open>
  Errors as values. \<open>Logic_error\<close> and \<open>Invalid_tag_error\<close> are the exceptions the code throws;
  the others stand for behaviour C++ leaves undefined or for a result that is not a finite number:
  an access past the end of a vector or through a null pointer, an integer division that traps, a
  value read with the wrong type out of an untyped word, a member asked of a JSON value that is not
  an object (an assertion of RapidJSON), and a floating-point division by zero or root of a negative
  number.
\<close>

datatype exn =
    Logic_error
  | Invalid_tag_error
  | Out_of_bounds
  | Division_trap
  | Wrong_payload
  | Not_an_object
  | Not_finite
  | Null_pointer

type_synonym 'a result = "exn + 'a"

fun bind_result :: "'a result \<Rightarrow> ('a \<Rightarrow> 'b result) \<Rightarrow> 'b result" where
  "bind_result (Inl x) f = Inl x"
| "bind_result (Inr a) f = f a"

fun is_ok :: "'a result \<Rightarrow> bool" where
  "is_ok (Inl x) = False"
| "is_ok (Inr a) = True"

lemma is_ok_iff: "is_ok r \<longleftrightarrow> (\<exists>a. r = Inr a)"
  by (cases r) auto

lemma bind_result_assoc:
  "bind_result (bind_result r f) g = bind_result r (\<lambda>a. bind_result (f a) g)"
  by (cases r) simp_all

lemma bind_result_Inr_iff: "bind_result r f = Inr b \<longleftrightarrow> (\<exists>a. r = Inr a \<and> f a = Inr b)"
  by (cases r) auto

lemma bind_result_Inl_iff:
  "bind_result r f = Inl x \<longleftrightarrow> r = Inl x \<or> (\<exists>a. r = Inr a \<and> f a = Inl x)"
  by (cases r) auto

text \<open>Contracts of fallible computations: every value satisfies \<open>Q\<close> and every error \<open>E\<close>. The rules
  follow the structure of the code.\<close>

definition returns :: "'a result \<Rightarrow> ('a \<Rightarrow> bool) \<Rightarrow> (exn \<Rightarrow> bool) \<Rightarrow> bool" where
  "returns r Q E \<longleftrightarrow> (case r of Inr a \<Rightarrow> Q a | Inl x \<Rightarrow> E x)"

lemma returns_Inr: "Q a \<Longrightarrow> returns (Inr a) Q E"
  by (simp add: returns_def)

lemma returns_Inl: "E x \<Longrightarrow> returns (Inl x) Q E"
  by (simp add: returns_def)

lemma returns_bind:
  "returns r R E \<Longrightarrow> (\<And>a. R a \<Longrightarrow> returns (f a) Q E) \<Longrightarrow> returns (bind_result r f) Q E"
  by (cases r) (simp_all add: returns_def)

lemma returns_if:
  "(P \<Longrightarrow> returns a Q E) \<Longrightarrow> (\<not> P \<Longrightarrow> returns b Q E) \<Longrightarrow> returns (if P then a else b) Q E"
  by simp

lemma returns_let: "R a \<Longrightarrow> (\<And>x. R x \<Longrightarrow> returns (f x) Q E) \<Longrightarrow> returns (let x = a in f x) Q E"
  by simp

lemma returns_also: "returns r Q E \<Longrightarrow> (\<And>a. r = Inr a \<Longrightarrow> R a) \<Longrightarrow> returns r (\<lambda>a. Q a \<and> R a) E"
  by (cases r) (simp_all add: returns_def)

lemma returns_ex: "returns r Q (\<lambda>x. False) \<Longrightarrow> \<exists>a. r = Inr a \<and> Q a"
  by (cases r) (simp_all add: returns_def)

lemma returns_InrD: "returns (Inr a) Q E \<Longrightarrow> Q a"
  by (simp add: returns_def)

lemma returns_InlD: "returns (Inl x) Q E \<Longrightarrow> E x"
  by (simp add: returns_def)

subsection \<open>Strings\<close>

text \<open>What is read through the pointer \<open>c_str()\<close>: the characters before the first null.\<close>

definition c_str :: "string \<Rightarrow> string" where
  "c_str s = takeWhile (\<lambda>c. c \<noteq> CHR 0x00) s"

subsection \<open>Signed readings of words\<close>

definition fits64 :: "int \<Rightarrow> bool" where
  "fits64 k \<longleftrightarrow> - (2 ^ 63) \<le> k \<and> k < 2 ^ 63"

lemma word_of_sint [simp]: "word_of_int (sint w) = (w :: int64)"
  by simp

lemma word_of_uint [simp]: "word_of_int (uint w) = (w :: int64)"
  by simp

text \<open>Keep the integer reading of a word visible under a coercion to the reals.\<close>

declare of_int_sint [simp del]
declare of_int_uint [simp del]
declare of_nat_unat [simp del]

named_theorems no_wrap \<open>signed word arithmetic that does not overflow\<close>

lemma fits64_sint [simp, intro]: "fits64 (sint (w :: int64))"
  using sint_ge [of w] sint_lt [of w] by (simp add: fits64_def)

lemma sint_of_int_fits: "fits64 k \<Longrightarrow> sint (word_of_int k :: int64) = k"
  by (simp add: fits64_def sint_sbintrunc' signed_take_bit_int_eq_self)

lemma sint_add_fits [no_wrap]:
  "fits64 (sint a + sint b) \<Longrightarrow> sint (a + b) = sint a + sint (b :: int64)"
  by (simp add: fits64_def sint_word_ariths signed_take_bit_int_eq_self)

lemma sint_sub_fits [no_wrap]:
  "fits64 (sint a - sint b) \<Longrightarrow> sint (a - b) = sint a - sint (b :: int64)"
  by (simp add: fits64_def sint_word_ariths signed_take_bit_int_eq_self)

lemma sint_mult_fits [no_wrap]:
  "fits64 (sint a * sint b) \<Longrightarrow> sint (a * b) = sint a * sint (b :: int64)"
  by (simp add: fits64_def sint_word_ariths signed_take_bit_int_eq_self)

lemma uint_eq_sint: "0 \<le> sint w \<Longrightarrow> uint (w :: int64) = sint w"
proof -
  assume "0 \<le> sint w"
  have "uint w = sint w mod 2 ^ 64"
    using uint_word_of_int [of "sint w", where ?'a = 64] by simp
  also have "\<dots> = sint w"
    using \<open>0 \<le> sint w\<close> fits64_sint [of w] by (simp add: fits64_def)
  finally show ?thesis .
qed

subsection \<open>From floating point to 64-bit integers\<close>

text \<open>
  The conversion \<open>int64_t(x)\<close> cuts the fraction off. Out of range C++ leaves it undefined; the
  conversion instruction of the machine the library is written for (x86-64) stores the
  smallest integer, and so does the model.
\<close>

definition trunc :: "real \<Rightarrow> int" where
  "trunc x = (if x < 0 then \<lceil>x\<rceil> else \<lfloor>x\<rfloor>)"

definition real_to_int64 :: "real \<Rightarrow> int64" where
  "real_to_int64 x = (if fits64 (trunc x) then word_of_int (trunc x) else push_bit 63 1)"

lemma trunc_of_int [simp]: "trunc (of_int k) = k"
  by (simp add: trunc_def)

lemma trunc_nonneg: "0 \<le> x \<Longrightarrow> trunc x = \<lfloor>x\<rfloor>"
  by (simp add: trunc_def)

lemma sint_real_to_int64: "fits64 (trunc x) \<Longrightarrow> sint (real_to_int64 x) = trunc x"
  by (simp add: real_to_int64_def sint_of_int_fits)

end
