(* ===== verification/Chrono.thy ===== *)
theory Chrono
  imports Prelude
begin

section \<open>Time units, durations and time points\<close>

text \<open>
  The types of \<open>include/handystats/chrono.hpp\<close> and the conversions of \<open>src/chrono.cpp\<close>: a duration
  is a 64-bit count of a unit, a time point is a duration since the epoch of one of two clocks.
  Conversions between nanosecond-based units are unsigned 64-bit arithmetic; conversions from and
  to processor ticks go through floating point and the measured number of cycles per nanosecond.
\<close>

subsection \<open>Units\<close>

datatype time_unit = TICK | NSEC | USEC | MSEC | SEC | MINS | HOUR | DAY

datatype clock_type = TSC | SYSTEM

fun precision_class :: "time_unit \<Rightarrow> 32 word" where
  "precision_class TICK = push_bit 0 1"
| "precision_class NSEC = push_bit 1 1"
| "precision_class USEC = push_bit 2 1"
| "precision_class MSEC = push_bit 3 1"
| "precision_class SEC = push_bit 4 1"
| "precision_class MINS = push_bit 5 1"
| "precision_class HOUR = push_bit 6 1"
| "precision_class DAY = push_bit 7 1"

definition unit_less :: "time_unit \<Rightarrow> time_unit \<Rightarrow> bool" where
  "unit_less x y \<longleftrightarrow> precision_class x < precision_class y"

text \<open>\<open>std::min\<close> with a comparison: the second argument only when it is strictly smaller.\<close>

definition min_unit :: "time_unit \<Rightarrow> time_unit \<Rightarrow> time_unit" where
  "min_unit a b = (if unit_less b a then b else a)"

text \<open>The order of \<open>std::less<time_unit>\<close> is the library's linear order on units.\<close>

lemma precision_class_inj: "precision_class x = precision_class y \<Longrightarrow> x = y"
  by (cases x; cases y) simp_all

instantiation time_unit :: linorder
begin

definition less_time_unit :: "time_unit \<Rightarrow> time_unit \<Rightarrow> bool" where
  "less_time_unit = unit_less"

definition less_eq_time_unit :: "time_unit \<Rightarrow> time_unit \<Rightarrow> bool" where
  "less_eq_time_unit x y \<longleftrightarrow> precision_class x \<le> precision_class y"

instance
  by standard
    (auto simp: less_time_unit_def less_eq_time_unit_def unit_less_def intro: precision_class_inj)

end

lemma min_unit_eq_min: "min_unit a b = min a b"
  by (auto simp: min_unit_def min_def less_eq_time_unit_def unit_less_def intro: precision_class_inj)

fun nsec_factor :: "time_unit \<Rightarrow> uint64" where
  "nsec_factor TICK = 0"
| "nsec_factor NSEC = 1"
| "nsec_factor USEC = 1000"
| "nsec_factor MSEC = 1000 * 1000"
| "nsec_factor SEC = 1000 * 1000 * 1000"
| "nsec_factor MINS = 60 * 1000 * 1000 * 1000"
| "nsec_factor HOUR = 60 * 60 * 1000 * 1000 * 1000"
| "nsec_factor DAY = 24 * 60 * 60 * 1000 * 1000 * 1000"

subsection \<open>Durations\<close>

record duration =
  m_rep :: int64
  m_unit :: time_unit

abbreviation dur :: "int64 \<Rightarrow> time_unit \<Rightarrow> duration" where
  "dur d u \<equiv> \<lparr>m_rep = d, m_unit = u\<rparr>"

definition duration_default :: duration where
  "duration_default = dur 0 TICK"

text \<open>
  The process-wide state the conversions read: the measured frequency of the time stamp counter
  and the offset from it to the system clock (\<open>cycles_per_nanosec\<close>, and \<open>ns_offset\<close> of
  \<open>to_system_time\<close>).
\<close>

record chrono_env =
  cycles_per_nanosec :: real
  ns_offset :: int64

definition dur_convert_to :: "chrono_env \<Rightarrow> time_unit \<Rightarrow> duration \<Rightarrow> duration" where
  "dur_convert_to e to_unit d =
     (if m_unit d = to_unit then d
      else if to_unit = TICK then
        dur (real_to_int64 (cycles_per_nanosec e * real_of_int (uint (nsec_factor (m_unit d)))
               * real_of_int (sint (m_rep d)))) to_unit
      else if m_unit d = TICK then
        dur (real_to_int64 (real_of_int (sint (m_rep d)) / real_of_int (uint (nsec_factor to_unit))
               / cycles_per_nanosec e)) to_unit
      else dur (nsec_factor (m_unit d) * m_rep d div nsec_factor to_unit) to_unit)"

definition dur_neg :: "duration \<Rightarrow> duration" where
  "dur_neg d = dur (- m_rep d) (m_unit d)"

definition dur_pos :: "duration \<Rightarrow> duration" where
  "dur_pos d = d"

text \<open>Pre- and post-increment and decrement: the value of the expression and the new object.\<close>

definition dur_pre_inc :: "duration \<Rightarrow> duration \<times> duration" where
  "dur_pre_inc d = (let d' = d\<lparr>m_rep := m_rep d + 1\<rparr> in (d', d'))"

definition dur_post_inc :: "duration \<Rightarrow> duration \<times> duration" where
  "dur_post_inc d = (dur (m_rep d) (m_unit d), d\<lparr>m_rep := m_rep d + 1\<rparr>)"

definition dur_pre_dec :: "duration \<Rightarrow> duration \<times> duration" where
  "dur_pre_dec d = (let d' = d\<lparr>m_rep := m_rep d - 1\<rparr> in (d', d'))"

definition dur_post_dec :: "duration \<Rightarrow> duration \<times> duration" where
  "dur_post_dec d = (dur (m_rep d) (m_unit d), d\<lparr>m_rep := m_rep d - 1\<rparr>)"

text \<open>
  Signed division and remainder trap when the divisor is zero and when the quotient does not fit
  (the smallest integer divided by minus one).
\<close>

definition int64_div :: "int64 \<Rightarrow> int64 \<Rightarrow> int64 result" where
  "int64_div a b =
     (if b = 0 \<or> (a = push_bit 63 1 \<and> b = -1) then Inl Division_trap else Inr (word_of_int (sint a sdiv sint b)))"

definition int64_mod :: "int64 \<Rightarrow> int64 \<Rightarrow> int64 result" where
  "int64_mod a b =
     (if b = 0 \<or> (a = push_bit 63 1 \<and> b = -1) then Inl Division_trap else Inr (word_of_int (sint a smod sint b)))"

text \<open>Compound assignment with a duration: the right operand is converted to the left one's unit.\<close>

definition dur_add_assign :: "chrono_env \<Rightarrow> duration \<Rightarrow> duration \<Rightarrow> duration" where
  "dur_add_assign e x d =
     (if m_unit x = m_unit d then x\<lparr>m_rep := m_rep x + m_rep d\<rparr>
      else x\<lparr>m_rep := m_rep x + m_rep (dur_convert_to e (m_unit x) d)\<rparr>)"

definition dur_sub_assign :: "chrono_env \<Rightarrow> duration \<Rightarrow> duration \<Rightarrow> duration" where
  "dur_sub_assign e x d =
     (if m_unit x = m_unit d then x\<lparr>m_rep := m_rep x - m_rep d\<rparr>
      else x\<lparr>m_rep := m_rep x - m_rep (dur_convert_to e (m_unit x) d)\<rparr>)"

definition dur_mod_assign :: "chrono_env \<Rightarrow> duration \<Rightarrow> duration \<Rightarrow> duration result" where
  "dur_mod_assign e x d =
     (if m_unit x = m_unit d
      then bind_result (int64_mod (m_rep x) (m_rep d)) (\<lambda>r. Inr (x\<lparr>m_rep := r\<rparr>))
      else bind_result (int64_mod (m_rep x) (m_rep (dur_convert_to e (m_unit x) d)))
             (\<lambda>r. Inr (x\<lparr>m_rep := r\<rparr>)))"

text \<open>Compound assignment with an integer.\<close>

definition dur_add_assign_int :: "duration \<Rightarrow> int64 \<Rightarrow> duration" where
  "dur_add_assign_int x d = x\<lparr>m_rep := m_rep x + d\<rparr>"

definition dur_sub_assign_int :: "duration \<Rightarrow> int64 \<Rightarrow> duration" where
  "dur_sub_assign_int x d = x\<lparr>m_rep := m_rep x - d\<rparr>"

definition dur_mult_assign_int :: "duration \<Rightarrow> int64 \<Rightarrow> duration" where
  "dur_mult_assign_int x d = x\<lparr>m_rep := m_rep x * d\<rparr>"

definition dur_div_assign_int :: "duration \<Rightarrow> int64 \<Rightarrow> duration result" where
  "dur_div_assign_int x d = bind_result (int64_div (m_rep x) d) (\<lambda>r. Inr (x\<lparr>m_rep := r\<rparr>))"

definition dur_mod_assign_int :: "duration \<Rightarrow> int64 \<Rightarrow> duration result" where
  "dur_mod_assign_int x d = bind_result (int64_mod (m_rep x) d) (\<lambda>r. Inr (x\<lparr>m_rep := r\<rparr>))"

text \<open>Binary arithmetic: operands of different units meet in the more precise one.\<close>

definition dur_add :: "chrono_env \<Rightarrow> duration \<Rightarrow> duration \<Rightarrow> duration" where
  "dur_add e x d =
     (if m_unit x = m_unit d then dur (m_rep x + m_rep d) (m_unit x)
      else let common_unit = min_unit (m_unit x) (m_unit d) in
        dur (m_rep (dur_convert_to e common_unit x) + m_rep (dur_convert_to e common_unit d))
          common_unit)"

definition dur_sub :: "chrono_env \<Rightarrow> duration \<Rightarrow> duration \<Rightarrow> duration" where
  "dur_sub e x d =
     (if m_unit x = m_unit d then dur (m_rep x - m_rep d) (m_unit x)
      else let common_unit = min_unit (m_unit x) (m_unit d) in
        dur (m_rep (dur_convert_to e common_unit x) - m_rep (dur_convert_to e common_unit d))
          common_unit)"

definition dur_add_int :: "duration \<Rightarrow> int64 \<Rightarrow> duration" where
  "dur_add_int x d = dur (m_rep x + d) (m_unit x)"

definition dur_sub_int :: "duration \<Rightarrow> int64 \<Rightarrow> duration" where
  "dur_sub_int x d = dur (m_rep x - d) (m_unit x)"

definition dur_mult_int :: "duration \<Rightarrow> int64 \<Rightarrow> duration" where
  "dur_mult_int x d = dur (m_rep x * d) (m_unit x)"

definition dur_div_int :: "duration \<Rightarrow> int64 \<Rightarrow> duration result" where
  "dur_div_int x d = bind_result (int64_div (m_rep x) d) (\<lambda>r. Inr (dur r (m_unit x)))"

definition dur_mod_int :: "duration \<Rightarrow> int64 \<Rightarrow> duration result" where
  "dur_mod_int x d = bind_result (int64_mod (m_rep x) d) (\<lambda>r. Inr (dur r (m_unit x)))"

text \<open>Comparisons, one definition per operator as in the code.\<close>

definition dur_eq :: "chrono_env \<Rightarrow> duration \<Rightarrow> duration \<Rightarrow> bool" where
  "dur_eq e x d =
     (if m_unit x = m_unit d then sint (m_rep x) = sint (m_rep d)
      else let common_unit = min_unit (m_unit x) (m_unit d) in
        sint (m_rep (dur_convert_to e common_unit x)) = sint (m_rep (dur_convert_to e common_unit d)))"

definition dur_ne :: "chrono_env \<Rightarrow> duration \<Rightarrow> duration \<Rightarrow> bool" where
  "dur_ne e x d =
     (if m_unit x = m_unit d then sint (m_rep x) \<noteq> sint (m_rep d)
      else let common_unit = min_unit (m_unit x) (m_unit d) in
        sint (m_rep (dur_convert_to e common_unit x)) \<noteq> sint (m_rep (dur_convert_to e common_unit d)))"

definition dur_lt :: "chrono_env \<Rightarrow> duration \<Rightarrow> duration \<Rightarrow> bool" where
  "dur_lt e x d =
     (if m_unit x = m_unit d then sint (m_rep x) < sint (m_rep d)
      else let common_unit = min_unit (m_unit x) (m_unit d) in
        sint (m_rep (dur_convert_to e common_unit x)) < sint (m_rep (dur_convert_to e common_unit d)))"

definition dur_le :: "chrono_env \<Rightarrow> duration \<Rightarrow> duration \<Rightarrow> bool" where
  "dur_le e x d =
     (if m_unit x = m_unit d then sint (m_rep x) \<le> sint (m_rep d)
      else let common_unit = min_unit (m_unit x) (m_unit d) in
        sint (m_rep (dur_convert_to e common_unit x)) \<le> sint (m_rep (dur_convert_to e common_unit d)))"

definition dur_gt :: "chrono_env \<Rightarrow> duration \<Rightarrow> duration \<Rightarrow> bool" where
  "dur_gt e x d =
     (if m_unit x = m_unit d then sint (m_rep x) > sint (m_rep d)
      else let common_unit = min_unit (m_unit x) (m_unit d) in
        sint (m_rep (dur_convert_to e common_unit x)) > sint (m_rep (dur_convert_to e common_unit d)))"

definition dur_ge :: "chrono_env \<Rightarrow> duration \<Rightarrow> duration \<Rightarrow> bool" where
  "dur_ge e x d =
     (if m_unit x = m_unit d then sint (m_rep x) \<ge> sint (m_rep d)
      else let common_unit = min_unit (m_unit x) (m_unit d) in
        sint (m_rep (dur_convert_to e common_unit x)) \<ge> sint (m_rep (dur_convert_to e common_unit d)))"

subsection \<open>Time points\<close>

record time_point =
  m_since_epoch :: duration
  m_clock :: clock_type

abbreviation tpt :: "duration \<Rightarrow> clock_type \<Rightarrow> time_point" where
  "tpt d c \<equiv> \<lparr>m_since_epoch = d, m_clock = c\<rparr>"

definition time_point_default :: time_point where
  "time_point_default = tpt duration_default TSC"

text \<open>
  The conversion to system time with a given offset: the last statement of \<open>to_system_time\<close>. The
  refresh of the offset that may come before it is \<open>to_system_time\<close> below.
\<close>

definition system_time_of :: "chrono_env \<Rightarrow> time_point \<Rightarrow> time_point" where
  "system_time_of e t =
     tpt (dur_convert_to e NSEC (dur_add e (m_since_epoch t) (dur (ns_offset e) NSEC))) SYSTEM"

definition tp_convert_to :: "chrono_env \<Rightarrow> clock_type \<Rightarrow> time_point \<Rightarrow> time_point result" where
  "tp_convert_to e to_clock t =
     (if m_clock t = to_clock then Inr t
      else if to_clock = SYSTEM then Inr (system_time_of e t)
      else Inl Logic_error)"

definition tp_add_assign :: "chrono_env \<Rightarrow> time_point \<Rightarrow> duration \<Rightarrow> time_point" where
  "tp_add_assign e t d =
     (if m_clock t = TSC then t\<lparr>m_since_epoch := dur_add_assign e (m_since_epoch t) d\<rparr>
      else if m_unit d = TICK then
        t\<lparr>m_since_epoch := dur_add_assign e (m_since_epoch t)
            (dur_convert_to e (m_unit (m_since_epoch t)) d)\<rparr>
      else t\<lparr>m_since_epoch := dur_add_assign e (m_since_epoch t) d\<rparr>)"

definition tp_sub_assign :: "chrono_env \<Rightarrow> time_point \<Rightarrow> duration \<Rightarrow> time_point" where
  "tp_sub_assign e t d =
     (if m_clock t = TSC then t\<lparr>m_since_epoch := dur_sub_assign e (m_since_epoch t) d\<rparr>
      else if m_unit d = TICK then
        t\<lparr>m_since_epoch := dur_sub_assign e (m_since_epoch t)
            (dur_convert_to e (m_unit (m_since_epoch t)) d)\<rparr>
      else t\<lparr>m_since_epoch := dur_sub_assign e (m_since_epoch t) d\<rparr>)"

definition tp_add :: "chrono_env \<Rightarrow> time_point \<Rightarrow> duration \<Rightarrow> time_point" where
  "tp_add e t d = tp_add_assign e t d"

definition tp_sub :: "chrono_env \<Rightarrow> time_point \<Rightarrow> duration \<Rightarrow> time_point" where
  "tp_sub e t d = tp_sub_assign e t d"

definition tp_diff :: "chrono_env \<Rightarrow> time_point \<Rightarrow> time_point \<Rightarrow> duration" where
  "tp_diff e x t =
     (if m_clock x = m_clock t then dur_sub e (m_since_epoch x) (m_since_epoch t)
      else if m_clock x = TSC then dur_sub e (m_since_epoch (system_time_of e x)) (m_since_epoch t)
      else dur_sub e (m_since_epoch x) (m_since_epoch (system_time_of e t)))"

text \<open>
  Comparisons of different clocks convert the operand of the time stamp counter to system time
  and compare again, now on one clock.
\<close>

definition tp_eq :: "chrono_env \<Rightarrow> time_point \<Rightarrow> time_point \<Rightarrow> bool" where
  "tp_eq e x t =
     (if m_clock x = m_clock t then dur_eq e (m_since_epoch x) (m_since_epoch t)
      else if m_clock x = TSC then dur_eq e (m_since_epoch (system_time_of e x)) (m_since_epoch t)
      else dur_eq e (m_since_epoch x) (m_since_epoch (system_time_of e t)))"

definition tp_ne :: "chrono_env \<Rightarrow> time_point \<Rightarrow> time_point \<Rightarrow> bool" where
  "tp_ne e x t =
     (if m_clock x = m_clock t then dur_ne e (m_since_epoch x) (m_since_epoch t)
      else if m_clock x = TSC then dur_ne e (m_since_epoch (system_time_of e x)) (m_since_epoch t)
      else dur_ne e (m_since_epoch x) (m_since_epoch (system_time_of e t)))"

definition tp_lt :: "chrono_env \<Rightarrow> time_point \<Rightarrow> time_point \<Rightarrow> bool" where
  "tp_lt e x t =
     (if m_clock x = m_clock t then dur_lt e (m_since_epoch x) (m_since_epoch t)
      else if m_clock x = TSC then dur_lt e (m_since_epoch (system_time_of e x)) (m_since_epoch t)
      else dur_lt e (m_since_epoch x) (m_since_epoch (system_time_of e t)))"

definition tp_le :: "chrono_env \<Rightarrow> time_point \<Rightarrow> time_point \<Rightarrow> bool" where
  "tp_le e x t =
     (if m_clock x = m_clock t then dur_le e (m_since_epoch x) (m_since_epoch t)
      else if m_clock x = TSC then dur_le e (m_since_epoch (system_time_of e x)) (m_since_epoch t)
      else dur_le e (m_since_epoch x) (m_since_epoch (system_time_of e t)))"

definition tp_gt :: "chrono_env \<Rightarrow> time_point \<Rightarrow> time_point \<Rightarrow> bool" where
  "tp_gt e x t =
     (if m_clock x = m_clock t then dur_gt e (m_since_epoch x) (m_since_epoch t)
      else if m_clock x = TSC then dur_gt e (m_since_epoch (system_time_of e x)) (m_since_epoch t)
      else dur_gt e (m_since_epoch x) (m_since_epoch (system_time_of e t)))"

definition tp_ge :: "chrono_env \<Rightarrow> time_point \<Rightarrow> time_point \<Rightarrow> bool" where
  "tp_ge e x t =
     (if m_clock x = m_clock t then dur_ge e (m_since_epoch x) (m_since_epoch t)
      else if m_clock x = TSC then dur_ge e (m_since_epoch (system_time_of e x)) (m_since_epoch t)
      else dur_ge e (m_since_epoch x) (m_since_epoch (system_time_of e t)))"

text \<open>\<open>std::max\<close>: the second argument only when the first is strictly smaller.\<close>

definition tp_max :: "chrono_env \<Rightarrow> time_point \<Rightarrow> time_point \<Rightarrow> time_point" where
  "tp_max e a b = (if tp_lt e a b then b else a)"

subsection \<open>The offset to the system clock\<close>

text \<open>
  The static variables of \<open>to_system_time\<close>. A call reads the time stamp counter once; when the
  offset is unset or older than fifteen seconds and no other thread refreshes it, the call looks
  for a pair of close readings around one of the system clock, at most a hundred times. The
  readings of the \<open>i\<close>-th try are an argument.
\<close>

record offset_state =
  os_ns_offset :: int64
  os_offset_timestamp :: int64
  os_lock :: bool

definition offset_timeout :: duration where
  "offset_timeout = dur (15 * 10 ^ 9) NSEC"

definition close_distance :: duration where
  "close_distance = dur (15 * 10 ^ 3) NSEC"

definition max_update_tries :: nat where
  "max_update_tries = 100"

definition env_of :: "real \<Rightarrow> offset_state \<Rightarrow> chrono_env" where
  "env_of cpn st = \<lparr>cycles_per_nanosec = cpn, ns_offset = os_ns_offset st\<rparr>"

fun find_close_pair ::
  "chrono_env \<Rightarrow> (nat \<Rightarrow> time_point \<times> time_point \<times> time_point) \<Rightarrow> nat \<Rightarrow> nat
     \<Rightarrow> (time_point \<times> time_point \<times> time_point) option" where
  "find_close_pair e readings 0 update_try = None"
| "find_close_pair e readings (Suc left) update_try =
     (case readings update_try of (cycles_start, current_system_time, cycles_end) \<Rightarrow>
        if dur_lt e (tp_diff e cycles_end cycles_start) close_distance
        then Some (cycles_start, current_system_time, cycles_end)
        else find_close_pair e readings left (Suc update_try))"

definition needs_refresh :: "chrono_env \<Rightarrow> offset_state \<Rightarrow> time_point \<Rightarrow> bool" where
  "needs_refresh e st now \<longleftrightarrow>
     os_offset_timestamp st = 0 \<or>
     dur_gt e (dur_sub e (m_since_epoch now)
                 (dur (os_offset_timestamp st) (m_unit (m_since_epoch now)))) offset_timeout"

definition refresh_offset ::
  "chrono_env \<Rightarrow> (nat \<Rightarrow> time_point \<times> time_point \<times> time_point) \<Rightarrow> offset_state
     \<Rightarrow> offset_state result" where
  "refresh_offset e readings st =
     (case find_close_pair e readings max_update_tries 0 of
        None \<Rightarrow> Inr (st\<lparr>os_lock := False\<rparr>)
      | Some (cycles_start, current_system_time, cycles_end) \<Rightarrow>
          bind_result (dur_div_int (tp_diff e cycles_end cycles_start) 2) (\<lambda>half.
            let cycles_middle = tp_add e cycles_start half;
                new_offset = m_rep (dur_convert_to e NSEC
                  (dur_sub e (m_since_epoch current_system_time) (m_since_epoch cycles_middle)))
            in Inr (st\<lparr>os_ns_offset := new_offset,
                       os_offset_timestamp := m_rep (m_since_epoch cycles_middle),
                       os_lock := False\<rparr>)))"

definition to_system_time ::
  "real \<Rightarrow> offset_state \<Rightarrow> time_point \<Rightarrow> (nat \<Rightarrow> time_point \<times> time_point \<times> time_point)
     \<Rightarrow> time_point \<Rightarrow> (offset_state \<times> time_point) result" where
  "to_system_time cpn st current_tsc_time readings t =
     (let e = env_of cpn st in
      bind_result
        (if needs_refresh e st current_tsc_time \<and> \<not> os_lock st
         then refresh_offset e readings (st\<lparr>os_lock := True\<rparr>)
         else Inr st)
        (\<lambda>st'. Inr (st', system_time_of (env_of cpn st') t)))"

text \<open>The C interface: the count of the tick clock, and a difference of counts in seconds.\<close>

definition handystats_now :: "time_point \<Rightarrow> int64" where
  "handystats_now tsc_now = m_rep (m_since_epoch tsc_now)"

definition handystats_difftime :: "chrono_env \<Rightarrow> time_point \<Rightarrow> int64 \<Rightarrow> int64 \<Rightarrow> real" where
  "handystats_difftime e tsc_now end_count start_count =
     real_of_int (sint (m_rep (dur_convert_to e NSEC
       (dur (end_count - start_count) (m_unit (m_since_epoch tsc_now)))))) / 10 ^ 9"

subsection \<open>Lemmas: units and conversions\<close>

definition factor :: "time_unit \<Rightarrow> int" where
  "factor u = uint (nsec_factor u)"

lemma factor_simps [simp]:
  "factor TICK = 0" "factor NSEC = 1" "factor USEC = 1000" "factor MSEC = 1000000"
  "factor SEC = 1000000000" "factor MINS = 60000000000" "factor HOUR = 3600000000000"
  "factor DAY = 86400000000000"
  by (simp_all add: factor_def)

lemma factor_pos: "u \<noteq> TICK \<Longrightarrow> 0 < factor u"
  by (cases u) simp_all

lemma factor_gt_1: "u \<noteq> TICK \<Longrightarrow> u \<noteq> NSEC \<Longrightarrow> 1000 \<le> factor u"
  by (cases u) simp_all

lemma factor_le_max: "factor u \<le> 86400000000000"
  by (cases u) simp_all

lemma unit_le_iff: "u \<le> v \<longleftrightarrow> precision_class u \<le> precision_class v"
  by (simp add: less_eq_time_unit_def)

lemma factor_dvd: "v \<le> u \<Longrightarrow> v \<noteq> TICK \<Longrightarrow> factor v dvd factor u"
  by (cases u; cases v) (simp_all add: unit_le_iff)

lemma convert_same [simp]: "dur_convert_to e (m_unit d) d = d"
  by (simp add: dur_convert_to_def)

lemma unit_convert [simp]: "m_unit (dur_convert_to e u d) = u"
  by (simp add: dur_convert_to_def)

lemma uint_nsec_factor_mult:
  assumes "0 \<le> k" "factor u * k < 2 ^ 64" "uint w = k"
  shows "uint (nsec_factor u * w) = factor u * k"
  using assms by (simp add: uint_word_ariths factor_def)

lemma convert_nonneg_uint:
  assumes "m_unit d \<noteq> TICK" "u \<noteq> TICK" "m_unit d \<noteq> u"
    and "0 \<le> sint (m_rep d)" "factor (m_unit d) * sint (m_rep d) < 2 ^ 63"
  shows "uint (m_rep (dur_convert_to e u d)) = factor (m_unit d) * sint (m_rep d) div factor u"
  using assms
  by (simp add: dur_convert_to_def uint_div uint_eq_sint uint_nsec_factor_mult flip: factor_def)

lemma int_div_le_self: "0 \<le> (a :: int) \<Longrightarrow> 0 \<le> b \<Longrightarrow> a div b \<le> a"
  by (metis div_by_0 div_by_1 int_one_le_iff_zero_less le_less zdiv_mono2 zero_less_one)

lemma sint_eq_uint_small: "uint (w :: int64) < 2 ^ 63 \<Longrightarrow> sint w = uint w"
proof -
  assume a: "uint w < 2 ^ 63"
  have "- (2 ^ 63) \<le> uint w" by (rule order_trans [OF _ uint_ge_0]) simp
  from this a have "signed_take_bit 63 (uint w) = uint w" by (rule signed_take_bit_int_eq_self)
  then show "sint w = uint w" by (simp add: sint_uint)
qed

lemma convert_nonneg_sint:
  assumes "m_unit d \<noteq> TICK" "u \<noteq> TICK"
    and "0 \<le> sint (m_rep d)" "factor (m_unit d) * sint (m_rep d) < 2 ^ 63"
  shows "sint (m_rep (dur_convert_to e u d)) = factor (m_unit d) * sint (m_rep d) div factor u"
proof (cases "m_unit d = u")
  case True
  then show ?thesis using assms factor_pos [of u] by auto
next
  case False
  let ?q = "factor (m_unit d) * sint (m_rep d) div factor u"
  have u: "uint (m_rep (dur_convert_to e u d)) = ?q"
    using assms False by (intro convert_nonneg_uint) auto
  have "?q \<le> factor (m_unit d) * sint (m_rep d)"
    using assms factor_pos [of u] factor_pos [of "m_unit d"] by (intro int_div_le_self) auto
  with assms(4) have "?q < 2 ^ 63" by linarith
  with u show ?thesis by (simp add: sint_eq_uint_small)
qed

lemma uint_nsec_factor_mult_mod: "uint (nsec_factor u * w) = factor u * sint w mod 2 ^ 64"
proof -
  have "uint w = sint w mod 2 ^ 64"
    using uint_word_of_int [of "sint w", where ?'a = 64] by simp
  then show ?thesis
    by (simp add: uint_word_ariths factor_def mod_mult_right_eq)
qed

lemma sint_nsec_factor: "sint (nsec_factor u) = factor u"
  using factor_le_max [of u] sint_eq_uint_small [of "nsec_factor u"] by (simp add: factor_def)

lemma convert_to_nsec_sint:
  assumes "m_unit d \<noteq> TICK" "fits64 (factor (m_unit d) * sint (m_rep d))"
  shows "sint (m_rep (dur_convert_to e NSEC d)) = factor (m_unit d) * sint (m_rep d)"
  using assms by (auto simp: dur_convert_to_def no_wrap sint_nsec_factor)

lemma convert_negative_uint:
  assumes "m_unit d \<noteq> TICK" "u \<noteq> TICK" "m_unit d \<noteq> u"
    and "sint (m_rep d) < 0" "- (2 ^ 63) \<le> factor (m_unit d) * sint (m_rep d)"
  shows "uint (m_rep (dur_convert_to e u d))
    = (2 ^ 64 + factor (m_unit d) * sint (m_rep d)) div factor u"
proof -
  let ?k = "factor (m_unit d) * sint (m_rep d)"
  have "?k < 0" using assms factor_pos [of "m_unit d"] by (simp add: mult_pos_neg)
  then have "?k mod 2 ^ 64 = ?k + 2 ^ 64"
    using assms(5) mod_pos_pos_trivial [of "?k + 2 ^ 64" "2 ^ 64"] by simp
  with assms show ?thesis
    by (simp add: dur_convert_to_def uint_div uint_nsec_factor_mult_mod add.commute
        flip: factor_def)
qed

lemma convert_negative_sint_pos:
  assumes "m_unit d \<noteq> TICK" "u \<noteq> TICK" "u \<noteq> NSEC" "m_unit d \<noteq> u"
    and "sint (m_rep d) < 0" "- (2 ^ 63) \<le> factor (m_unit d) * sint (m_rep d)"
  shows "100000 < sint (m_rep (dur_convert_to e u d))"
proof -
  let ?k = "2 ^ 64 + factor (m_unit d) * sint (m_rep d)"
  have k: "2 ^ 63 \<le> ?k" using assms(6) by simp
  have "factor (m_unit d) * sint (m_rep d) < 0"
    using assms factor_pos [of "m_unit d"] by (simp add: mult_pos_neg)
  then have k2: "?k < 2 ^ 64" by simp
  have f: "1000 \<le> factor u" "factor u \<le> 86400000000000"
    using assms factor_gt_1 factor_le_max by auto
  have "2 ^ 63 div 86400000000000 \<le> ?k div 86400000000000" using k by (intro zdiv_mono1) auto
  also have "\<dots> \<le> ?k div factor u" using k f by (intro zdiv_mono2) auto
  finally have lo: "100000 < ?k div factor u" by simp
  have "?k div factor u \<le> ?k div 1000" using k f by (intro zdiv_mono2) auto
  also have "\<dots> < 2 ^ 63" using k2 by simp
  finally have "uint (m_rep (dur_convert_to e u d)) < 2 ^ 63"
    using assms by (simp add: convert_negative_uint)
  then show ?thesis
    using lo assms by (simp add: sint_eq_uint_small convert_negative_uint)
qed

lemma min_unit_commute: "min_unit a b = min_unit b a"
  by (simp add: min_unit_eq_min min.commute)

lemma min_unit_le [simp]: "u \<le> v \<Longrightarrow> min_unit u v = u" "u \<le> v \<Longrightarrow> min_unit v u = u"
  by (auto simp: min_unit_eq_min min_def)

subsection \<open>Lemmas: comparisons and arithmetic on time points\<close>

lemmas dur_cmp_defs = dur_eq_def dur_ne_def dur_lt_def dur_le_def dur_gt_def dur_ge_def
lemmas tp_cmp_defs = tp_eq_def tp_ne_def tp_lt_def tp_le_def tp_gt_def tp_ge_def

lemma dur_cmp_agree:
  "dur_ge e a b = (\<not> dur_lt e a b)" "dur_gt e a b = dur_lt e b a"
  "dur_le e a b = (\<not> dur_lt e b a)" "dur_ne e a b = (\<not> dur_eq e a b)"
  "dur_eq e a b = (\<not> dur_lt e a b \<and> \<not> dur_lt e b a)"
  by (auto simp: dur_cmp_defs Let_def min_unit_commute)

lemma tp_cmp_agree:
  "tp_ge e a b = (\<not> tp_lt e a b)" "tp_gt e a b = tp_lt e b a"
  "tp_le e a b = (\<not> tp_lt e b a)" "tp_ne e a b = (\<not> tp_eq e a b)"
  "tp_eq e a b = (\<not> tp_lt e a b \<and> \<not> tp_lt e b a)"
  by (cases "m_clock a"; cases "m_clock b"; simp add: tp_cmp_defs dur_cmp_agree; blast)+

lemma tp_lt_irrefl [simp]: "\<not> tp_lt e t t"
  by (simp add: tp_lt_def dur_lt_def)

lemma tp_max_idem [simp]: "tp_max e t t = t"
  by (simp add: tp_max_def)

subsection \<open>Nanoseconds\<close>

text \<open>What a duration in a nanosecond-based unit means, as a mathematical integer.\<close>

definition duration_ns :: "duration \<Rightarrow> int" where
  "duration_ns d = factor (m_unit d) * sint (m_rep d)"

lemma duration_ns_finer:
  assumes "u \<le> m_unit d" "u \<noteq> TICK" "m_unit d \<noteq> TICK"
    and "0 \<le> sint (m_rep d)" "duration_ns d < 2 ^ 63"
  shows "duration_ns (dur_convert_to e u d) = duration_ns d"
  using assms factor_dvd [of u "m_unit d"]
  by (simp add: duration_ns_def convert_nonneg_sint dvd_mult2)

lemma min_unit_cases: "min_unit a b = a \<or> min_unit a b = b"
  by (simp add: min_unit_def)

lemma min_unit_lower: "min_unit a b \<le> a" "min_unit a b \<le> b"
  by (simp_all add: min_unit_eq_min)

lemma dur_lt_ns:
  assumes "m_unit a \<noteq> TICK" "m_unit b \<noteq> TICK"
    and "0 \<le> sint (m_rep a)" "duration_ns a < 2 ^ 63"
    and "0 \<le> sint (m_rep b)" "duration_ns b < 2 ^ 63"
  shows "dur_lt e a b \<longleftrightarrow> duration_ns a < duration_ns b"
proof (cases "m_unit a = m_unit b")
  case True
  then show ?thesis using assms factor_pos [of "m_unit b"]
    by (simp add: dur_lt_def duration_ns_def)
next
  case False
  define u where "u = min_unit (m_unit a) (m_unit b)"
  have u: "u \<noteq> TICK" using assms min_unit_cases [of "m_unit a" "m_unit b"] by (auto simp: u_def)
  have a: "duration_ns (dur_convert_to e u a) = duration_ns a"
    and b: "duration_ns (dur_convert_to e u b) = duration_ns b"
    using assms u by (auto intro!: duration_ns_finer simp: u_def min_unit_lower)
  have "dur_lt e a b \<longleftrightarrow>
    sint (m_rep (dur_convert_to e u a)) < sint (m_rep (dur_convert_to e u b))"
    using False by (simp add: dur_lt_def u_def Let_def)
  also have "\<dots> \<longleftrightarrow> duration_ns (dur_convert_to e u a) < duration_ns (dur_convert_to e u b)"
    using factor_pos [OF u] by (simp add: duration_ns_def)
  finally show ?thesis unfolding a b .
qed

subsection \<open>Lemmas: the refresh of the system clock offset\<close>

lemma int64_div_2: "int64_div a 2 = Inr (word_of_int (sint a sdiv 2))"
  by (simp add: int64_div_def)

lemma tp_diff_same_clock:
  "m_clock a = m_clock b \<Longrightarrow> tp_diff e a b = dur_sub e (m_since_epoch a) (m_since_epoch b)"
  by (simp add: tp_diff_def)

lemma refresh_offset_ok:
  "\<exists>st'. refresh_offset e readings st = Inr st' \<and> \<not> os_lock st'"
  by (auto simp: refresh_offset_def dur_div_int_def int64_div_2 Let_def split: option.split)

lemma to_system_time_total:
  "\<exists>st'. to_system_time cpn st now readings t = Inr (st', system_time_of (env_of cpn st') t)
     \<and> os_lock st' = os_lock st"
proof (cases "needs_refresh (env_of cpn st) st now \<and> \<not> os_lock st")
  case True
  obtain st' where "refresh_offset (env_of cpn st) readings (st\<lparr>os_lock := True\<rparr>) = Inr st'"
    "\<not> os_lock st'" using refresh_offset_ok by blast
  with True show ?thesis by (simp add: to_system_time_def Let_def)
qed (auto simp: to_system_time_def Let_def)

lemma refresh_offset_calibrates:
  assumes "find_close_pair e readings max_update_tries 0 = Some (cs, sys, ce)"
    and "m_clock cs = TSC" "m_clock ce = TSC" "m_clock sys = SYSTEM"
    and "m_unit (m_since_epoch cs) = NSEC" "m_unit (m_since_epoch ce) = NSEC"
    and "m_unit (m_since_epoch sys) = NSEC"
    and "refresh_offset e readings st = Inr st'"
  shows "system_time_of (env_of cpn st') (tpt (dur (os_offset_timestamp st') NSEC) TSC) = sys"
  using assms
  by (auto simp: refresh_offset_def dur_div_int_def int64_div_2 Let_def tp_diff_def dur_sub_def
      tp_add_def tp_add_assign_def dur_add_assign_def dur_convert_to_def system_time_of_def
      dur_add_def env_of_def)

text \<open>With readings in ticks the way from the system clock to the offset and back truncates four times:
  when the system time is turned into ticks, the difference into nanoseconds, the offset into ticks
  and the sum into nanoseconds.\<close>

lemma nsec_to_tick:
  assumes "0 \<le> cycles_per_nanosec e * real_of_int (sint s)" "\<lfloor>cycles_per_nanosec e * real_of_int (sint s)\<rfloor> < 2 ^ 63"
  shows "sint (m_rep (dur_convert_to e TICK (dur s NSEC))) = \<lfloor>cycles_per_nanosec e * real_of_int (sint s)\<rfloor>"
  using assms by (simp add: dur_convert_to_def sint_real_to_int64 fits64_def trunc_nonneg)

lemma tick_to_nsec:
  assumes "0 \<le> real_of_int (sint s) / cycles_per_nanosec e" "\<lfloor>real_of_int (sint s) / cycles_per_nanosec e\<rfloor> < 2 ^ 63"
  shows "sint (m_rep (dur_convert_to e NSEC (dur s TICK))) = \<lfloor>real_of_int (sint s) / cycles_per_nanosec e\<rfloor>"
  using assms by (simp add: dur_convert_to_def sint_real_to_int64 fits64_def trunc_nonneg)

lemma tick_offset_bounds:
  fixes c :: real and S M :: int
  assumes "0 < c" "M \<le> \<lfloor>c * S\<rfloor>"
  defines "off \<equiv> \<lfloor>(\<lfloor>c * S\<rfloor> - M) / c\<rfloor>"
  shows "0 \<le> off" "off \<le> S - M / c" "0 \<le> \<lfloor>c * off\<rfloor>" "\<lfloor>c * off\<rfloor> \<le> \<lfloor>c * S\<rfloor> - M"
    "(M + \<lfloor>c * off\<rfloor>) / c \<le> S" "S - (1 + 2 / c) < (M + \<lfloor>c * off\<rfloor>) / c"
proof -
  let ?D = "\<lfloor>c * S\<rfloor> - M"
  show off: "0 \<le> off" using assms by (simp add: off_def)
  have below: "off \<le> ?D / c" "?D / c < off + 1" unfolding off_def by linarith+
  then have D: "c * off \<le> ?D" "?D < c * off + c"
    using assms(1) by (simp_all add: field_simps)
  have s: "\<lfloor>c * S\<rfloor> \<le> c * S" "c * S < \<lfloor>c * S\<rfloor> + 1" by linarith+
  have "?D / c \<le> (c * S - M) / c" using assms(1) s(1) by (simp add: divide_right_mono)
  also have "\<dots> = S - M / c" using assms(1) by (simp add: field_simps)
  finally show "off \<le> S - M / c" using below(1) by linarith
  show "0 \<le> \<lfloor>c * off\<rfloor>" using assms(1) off by simp
  have o: "\<lfloor>c * off\<rfloor> \<le> c * off" "c * off < \<lfloor>c * off\<rfloor> + 1" by linarith+
  show up: "\<lfloor>c * off\<rfloor> \<le> ?D" using o(1) D(1) by linarith
  show "(M + \<lfloor>c * off\<rfloor>) / c \<le> S"
    using up s(1) assms(1) by (simp add: pos_divide_le_eq mult.commute) linarith
  have "c * S - c - 2 < M + \<lfloor>c * off\<rfloor>" using o(2) D(2) s(2) by linarith
  then have "(c * S - c - 2) / c < (M + \<lfloor>c * off\<rfloor>) / c" using assms(1) by (simp add: divide_strict_right_mono)
  then show "S - (1 + 2 / c) < (M + \<lfloor>c * off\<rfloor>) / c" using assms(1) by (simp add: field_simps)
qed

lemma middle_of_readings:
  assumes "0 \<le> sint a" "sint a \<le> sint (b :: int64)"
  shows "sint (a + word_of_int (sint (b - a) sdiv 2)) = (sint a + sint b) div 2"
proof -
  have b: "sint b < 2 ^ 63" using sint_lt [of b] by simp
  have "sint (b - a) = sint b - sint a"
    using assms b by (intro sint_sub_fits) (simp add: fits64_def)
  then have "a + word_of_int (sint (b - a) sdiv 2) = word_of_int (sint a + (sint b - sint a) div 2)"
    using assms by (simp add: signed_divide_int_def sgn_if)
  moreover have "sint a + (sint b - sint a) div 2 = (sint a + sint b) div 2" by linarith
  moreover have "fits64 ((sint a + sint b) div 2)" using assms b by (simp add: fits64_def) linarith
  ultimately show ?thesis by (simp only: sint_of_int_fits)
qed

lemma refresh_offset_ticks:
  assumes "find_close_pair e readings max_update_tries 0 = Some (cs, sys, ce)"
    and "m_clock cs = TSC" "m_clock ce = TSC" "m_clock sys = SYSTEM"
    and "m_since_epoch cs = dur a TICK" "m_since_epoch ce = dur b TICK" "m_since_epoch sys = dur s NSEC"
    and "0 < cycles_per_nanosec e" "0 \<le> sint a" "sint a \<le> sint b"
    and "sint b \<le> \<lfloor>cycles_per_nanosec e * real_of_int (sint s)\<rfloor>"
    and "\<lfloor>cycles_per_nanosec e * real_of_int (sint s)\<rfloor> < 2 ^ 63"
    and "refresh_offset e readings st = Inr st'"
  shows "sint (os_offset_timestamp st') = (sint a + sint b) div 2
    \<and> (\<exists>r. system_time_of (env_of (cycles_per_nanosec e) st') (tpt (dur (os_offset_timestamp st') TICK) TSC)
        = tpt (dur r NSEC) SYSTEM
      \<and> sint r \<le> sint s \<and> real_of_int (sint s) - (2 + 2 / cycles_per_nanosec e) < real_of_int (sint r))"
proof -
  let ?c = "cycles_per_nanosec e"
  let ?S = "\<lfloor>?c * real_of_int (sint s)\<rfloor>"
  define m where "m = a + word_of_int (sint (b - a) sdiv 2)"
  define M where "M = (sint a + sint b) div 2"
  have M: "sint m = M" using middle_of_readings [OF assms(9,10)] by (simp add: m_def M_def)
  have range: "0 \<le> M" "M \<le> ?S" using assms(9-11) by (simp_all add: M_def)
  have s0: "0 \<le> ?c * real_of_int (sint s)" using range by linarith
  define off where "off = \<lfloor>(?S - M) / ?c\<rfloor>"
  note bounds = tick_offset_bounds [OF assms(8) range(2), folded off_def]
  have S: "sint s < 2 ^ 63" using sint_lt [of s] by simp
  have off_le: "off \<le> sint s"
    using bounds(2) divide_nonneg_pos [of "real_of_int M" ?c] range(1) assms(8) by linarith
  define d where "d = m_rep (dur_convert_to e TICK (dur s NSEC)) - m"
  have d: "sint d = ?S - M"
  proof -
    have "fits64 (?S - M)" using range assms(12) unfolding fits64_def by linarith
    then show ?thesis unfolding d_def by (simp only: sint_sub_fits nsec_to_tick [OF s0 assms(12)] M)
  qed
  define o' where "o' = m_rep (dur_convert_to e NSEC (dur d TICK))"
  have o': "sint o' = off"
  proof -
    have "off = \<lfloor>real_of_int (sint d) / ?c\<rfloor>" by (simp add: off_def d)
    moreover have "0 \<le> real_of_int (sint d) / ?c" using range assms(8) by (simp add: d)
    ultimately show ?thesis
      using tick_to_nsec [of d e] off_le S unfolding o'_def by linarith
  qed
  define t where "t = m + m_rep (dur_convert_to e TICK (dur o' NSEC))"
  have oc: "sint (m_rep (dur_convert_to e TICK (dur o' NSEC))) = \<lfloor>?c * off\<rfloor>"
  proof -
    have "0 \<le> ?c * real_of_int (sint o')" using bounds(1) assms(8) by (simp add: o')
    moreover have "\<lfloor>?c * real_of_int (sint o')\<rfloor> < 2 ^ 63"
      using bounds(4) range(1) assms(12) unfolding o' by linarith
    ultimately show ?thesis using nsec_to_tick [of e o'] unfolding o' by blast
  qed
  have t: "sint t = M + \<lfloor>?c * off\<rfloor>"
  proof -
    have "fits64 (M + \<lfloor>?c * off\<rfloor>)" using bounds(3,4) range assms(12) unfolding fits64_def by linarith
    then show ?thesis unfolding t_def by (simp only: sint_add_fits oc M)
  qed
  define r where "r = m_rep (dur_convert_to e NSEC (dur t TICK))"
  have r: "sint r = \<lfloor>(M + \<lfloor>?c * off\<rfloor>) / ?c\<rfloor>"
  proof -
    have "0 \<le> real_of_int (sint t) / ?c"
      unfolding t using bounds(3) range(1) assms(8) by (intro divide_nonneg_pos) simp_all
    moreover have "\<lfloor>real_of_int (sint t) / ?c\<rfloor> < 2 ^ 63" using bounds(5) S unfolding t by linarith
    ultimately show ?thesis using tick_to_nsec [of t e] unfolding t r_def by simp
  qed
  have st': "os_offset_timestamp st' = m \<and> os_ns_offset st' = o'"
    using assms(1-7,13)
    by (auto simp: refresh_offset_def dur_div_int_def int64_div_2 Let_def tp_diff_def dur_sub_def
        tp_add_def tp_add_assign_def dur_add_assign_def min_unit_def unit_less_def
        m_def d_def o'_def dur_convert_to_def)
  have "system_time_of (env_of ?c st') (tpt (dur m TICK) TSC) = tpt (dur r NSEC) SYSTEM"
    using st' by (simp add: system_time_of_def env_of_def dur_add_def min_unit_def unit_less_def
        t_def r_def dur_convert_to_def)
  moreover have "sint r \<le> sint s" using bounds(5) unfolding r by linarith
  moreover have "real_of_int (sint s) - (2 + 2 / ?c) < real_of_int (sint r)"
    using bounds(6) unfolding r by linarith
  ultimately show ?thesis using st' M unfolding M_def by metis
qed

subsection \<open>Properties\<close>

text \<open>Converting a non-negative duration between nanosecond-based units, when its length in
  nanoseconds fits in 63 bits, never makes it longer, loses less than one target unit, and loses
  nothing when the target is at least as precise.\<close>

lemma convert_loses_less_than_a_unit:
  assumes "m_unit d \<noteq> TICK" "u \<noteq> TICK" "0 \<le> sint (m_rep d)" "duration_ns d < 2 ^ 63"
  shows "duration_ns (dur_convert_to e u d) \<le> duration_ns d
    \<and> duration_ns d < duration_ns (dur_convert_to e u d) + factor u
    \<and> (u \<le> m_unit d \<longrightarrow> duration_ns (dur_convert_to e u d) = duration_ns d)"
proof -
  let ?k = "factor (m_unit d) * sint (m_rep d)"
  have c: "duration_ns (dur_convert_to e u d) = factor u * (?k div factor u)"
    using assms by (simp add: duration_ns_def convert_nonneg_sint)
  have "0 \<le> ?k mod factor u" "?k mod factor u < factor u"
    using factor_pos [OF assms(2)] by simp_all
  moreover have "factor u * (?k div factor u) + ?k mod factor u = ?k" by simp
  ultimately have "factor u * (?k div factor u) \<le> ?k" "?k < factor u * (?k div factor u) + factor u"
    by linarith+
  then have "duration_ns (dur_convert_to e u d) \<le> duration_ns d"
    "duration_ns d < duration_ns (dur_convert_to e u d) + factor u"
    unfolding c by (simp_all add: duration_ns_def)
  then show ?thesis using assms duration_ns_finer by blast
qed

text \<open>Comparing two non-negative durations of any two nanosecond-based units compares their
  lengths in nanoseconds.\<close>

lemma duration_order_is_nanosecond_order:
  assumes "m_unit a \<noteq> TICK" "m_unit b \<noteq> TICK"
    and "0 \<le> sint (m_rep a)" "duration_ns a < 2 ^ 63"
    and "0 \<le> sint (m_rep b)" "duration_ns b < 2 ^ 63"
  shows "dur_lt e a b = (duration_ns a < duration_ns b)
    \<and> dur_le e a b = (duration_ns a \<le> duration_ns b)
    \<and> dur_eq e a b = (duration_ns a = duration_ns b)"
  using assms by (auto simp: dur_cmp_agree dur_lt_ns)

text \<open>C37: A negative duration of at most \<open>2 ^ 63\<close> nanoseconds, in nanoseconds or a longer unit (not in
  ticks), that is converted to another unit longer than a nanosecond comes out as a large positive
  one, because the conversion multiplies and divides unsigned.\<close>

theorem convert_of_negative_is_positive:
  assumes "m_unit d \<noteq> TICK" "u \<noteq> TICK" "u \<noteq> NSEC" "m_unit d \<noteq> u"
    and "sint (m_rep d) < 0" "- (2 ^ 63) \<le> duration_ns d"
  shows "100000 < sint (m_rep (dur_convert_to e u d))"
  using assms by (intro convert_negative_sint_pos) (simp_all add: duration_ns_def)

theorem convert_of_negative_is_positive_witness:
  "100000 < sint (m_rep (dur_convert_to \<lparr>cycles_per_nanosec = 3, ns_offset = 0\<rparr> MSEC (dur (-1) SEC)))"
  using convert_of_negative_is_positive [of "dur (-1) SEC" MSEC "\<lparr>cycles_per_nanosec = 3, ns_offset = 0\<rparr>"]
  by (simp add: duration_ns_def)

text \<open>Moving a time point by a duration and back gives the time point again, whatever the clock
  and the units.\<close>

lemma tp_add_sub_cancel: "tp_sub e (tp_add e t d) d = t \<and> tp_add e (tp_sub e t d) d = t"
  by (simp add: tp_add_def tp_sub_def tp_add_assign_def tp_sub_assign_def dur_add_assign_def
      dur_sub_assign_def)

text \<open>The six comparison operators on time points agree with one another, for any mix of clocks
  and units.\<close>

lemma tp_comparisons_agree:
  "tp_ge e a b = (\<not> tp_lt e a b) \<and> tp_le e a b = (\<not> tp_gt e a b) \<and> tp_gt e a b = tp_lt e b a
    \<and> tp_ne e a b = (\<not> tp_eq e a b) \<and> tp_eq e a b = (tp_le e a b \<and> tp_ge e a b)"
  by (auto simp: tp_cmp_agree)

text \<open>C38: The conversion to system time always returns and releases the lock it took. When it refreshes
  the offset from a close pair of readings of the time stamp counter, the middle of the pair converts
  to the system time read between them: exactly when the counter is read in nanoseconds, and for the
  ticks that RDTSC gives never to a later time and short of it by less than two nanoseconds and two
  ticks. For ticks the readings are in order and not negative, the counter started after the epoch of
  the system clock, and the system time fits into 63 bits of ticks.\<close>

theorem to_system_time_calibrates:
  assumes "needs_refresh (env_of cpn st) st now" "\<not> os_lock st"
    and "find_close_pair (env_of cpn st) readings max_update_tries 0 = Some (cs, sys, ce)"
    and "cs = tpt (dur a u) TSC" "ce = tpt (dur b u) TSC" "sys = tpt (dur s NSEC) SYSTEM"
    and "u = NSEC \<or> u = TICK \<and> 0 < cpn \<and> 0 \<le> sint a \<and> sint a \<le> sint b
      \<and> sint b \<le> \<lfloor>cpn * real_of_int (sint s)\<rfloor> \<and> \<lfloor>cpn * real_of_int (sint s)\<rfloor> < 2 ^ 63"
  shows "\<exists>st' r. to_system_time cpn st now readings t = Inr (st', system_time_of (env_of cpn st') t)
    \<and> \<not> os_lock st'
    \<and> system_time_of (env_of cpn st') (tpt (dur (os_offset_timestamp st') u) TSC) = tpt (dur r NSEC) SYSTEM
    \<and> (u = NSEC \<longrightarrow> r = s)
    \<and> (u = TICK \<longrightarrow> sint (os_offset_timestamp st') = (sint a + sint b) div 2
         \<and> sint r \<le> sint s \<and> real_of_int (sint s) - (2 + 2 / cpn) < real_of_int (sint r))"
proof -
  obtain st' where st': "to_system_time cpn st now readings t = Inr (st', system_time_of (env_of cpn st') t)"
    "os_lock st' = os_lock st"
    using to_system_time_total by blast
  then have refresh: "refresh_offset (env_of cpn st) readings (st\<lparr>os_lock := True\<rparr>) = Inr st'"
    using assms(1,2) by (auto simp: to_system_time_def Let_def bind_result_Inr_iff)
  have cpn: "cycles_per_nanosec (env_of cpn st) = cpn" by (simp add: env_of_def)
  show ?thesis
  proof (cases "u = NSEC")
    case True
    have "system_time_of (env_of cpn st') (tpt (dur (os_offset_timestamp st') NSEC) TSC) = sys"
      by (rule refresh_offset_calibrates [OF assms(3) _ _ _ _ _ _ refresh]) (simp_all add: assms(4-6) True)
    then show ?thesis using st' assms(2,6) True by auto
  next
    case False
    then have u: "u = TICK" "0 < cpn" "0 \<le> sint a" "sint a \<le> sint b"
      "sint b \<le> \<lfloor>cpn * real_of_int (sint s)\<rfloor>" "\<lfloor>cpn * real_of_int (sint s)\<rfloor> < 2 ^ 63"
      using assms(7) by blast+
    have "sint (os_offset_timestamp st') = (sint a + sint b) div 2
      \<and> (\<exists>r. system_time_of (env_of cpn st') (tpt (dur (os_offset_timestamp st') TICK) TSC)
          = tpt (dur r NSEC) SYSTEM
        \<and> sint r \<le> sint s \<and> real_of_int (sint s) - (2 + 2 / cpn) < real_of_int (sint r))"
      using refresh_offset_ticks [OF assms(3) _ _ _ _ _ _ _ u(3,4) _ _ refresh, of s] u(1,2,5,6) assms(4-6)
      unfolding cpn by simp
    then show ?thesis using st' assms(2) u(1) by auto
  qed
qed

theorem to_system_time_calibrates_witness:
  "\<exists>st' r. to_system_time 3 \<lparr>os_ns_offset = 0, os_offset_timestamp = 0, os_lock = False\<rparr>
      (tpt (dur 100 TICK) TSC)
      (\<lambda>i. (tpt (dur 100 TICK) TSC, tpt (dur 5000 NSEC) SYSTEM, tpt (dur 120 TICK) TSC))
      (tpt (dur 200 TICK) TSC) = Inr (st', system_time_of (env_of 3 st') (tpt (dur 200 TICK) TSC))
    \<and> \<not> os_lock st' \<and> sint (os_offset_timestamp st') = 110
    \<and> system_time_of (env_of 3 st') (tpt (dur (os_offset_timestamp st') TICK) TSC) = tpt (dur r NSEC) SYSTEM
    \<and> sint r \<le> 5000 \<and> 5000 - (2 + 2 / 3) < real_of_int (sint r)"
proof -
  let ?st = "\<lparr>os_ns_offset = 0, os_offset_timestamp = 0, os_lock = False\<rparr>"
  let ?r = "\<lambda>i :: nat. (tpt (dur 100 TICK) TSC, tpt (dur 5000 NSEC) SYSTEM, tpt (dur 120 TICK) TSC)"
  have "dur_lt (env_of 3 ?st) (dur 20 TICK) (dur 15000 NSEC)"
    by (simp add: dur_lt_def min_unit_def unit_less_def dur_convert_to_def real_to_int64_def trunc_def
        fits64_def env_of_def)
  then have "find_close_pair (env_of 3 ?st) ?r max_update_tries 0
      = Some (tpt (dur 100 TICK) TSC, tpt (dur 5000 NSEC) SYSTEM, tpt (dur 120 TICK) TSC)"
    by (simp add: max_update_tries_def numeral_eq_Suc tp_diff_def dur_sub_def close_distance_def)
  from to_system_time_calibrates [OF _ _ this refl refl refl, of "tpt (dur 100 TICK) TSC"
      "tpt (dur 200 TICK) TSC"]
  show ?thesis by (auto simp: needs_refresh_def)
qed

end
