(* ===== verification/Timeline.thy ===== *)
theory Timeline
  imports Chrono
begin

section \<open>The interface between time and the statistics\<close>

text \<open>
  Moving statistics compare time points, subtract them and subtract the moving interval. What they
  rely on is stated as a locale: on a set of time points of one unit, comparisons and
  differences are those of integer positions, and the interval has a positive length in that
  unit. The locale is interpreted on the time points of the tick clock whose counts stay below
  \<open>2 ^ 62\<close> (more than a century of nanoseconds).
\<close>

locale timeline =
  fixes on_line :: "time_unit \<Rightarrow> time_point \<Rightarrow> bool"
    and usable :: "chrono_env \<Rightarrow> time_unit \<Rightarrow> duration \<Rightarrow> bool"
    and pos :: "time_point \<Rightarrow> int"
    and len :: "chrono_env \<Rightarrow> time_unit \<Rightarrow> duration \<Rightarrow> int"
  assumes lt_pos: "on_line u a \<Longrightarrow> on_line u b \<Longrightarrow> tp_lt e a b \<longleftrightarrow> pos a < pos b"
    and le_pos: "on_line u a \<Longrightarrow> on_line u b \<Longrightarrow> tp_le e a b \<longleftrightarrow> pos a \<le> pos b"
    and inj_pos: "on_line u a \<Longrightarrow> on_line u b \<Longrightarrow> pos a = pos b \<Longrightarrow> a = b"
    and len_pos: "usable e u I \<Longrightarrow> 0 < len e u I"
    and before_window: "usable e u I \<Longrightarrow> on_line u t \<Longrightarrow> on_line u m \<Longrightarrow>
      tp_lt e t (tp_sub e m I) \<longleftrightarrow> pos t < pos m - len e u I"
    and stale_count: "usable e u I \<Longrightarrow> on_line u d \<Longrightarrow> on_line u t \<Longrightarrow>
      sint (m_rep (tp_diff e d (tp_sub e t I))) = pos d - pos t + len e u I"
    and remaining_count: "usable e u I \<Longrightarrow> on_line u d \<Longrightarrow> on_line u m \<Longrightarrow>
      sint (m_rep (dur_sub e I (tp_diff e m d))) = len e u I - (pos m - pos d)"
begin

lemma max_on_line: "on_line u a \<Longrightarrow> on_line u b \<Longrightarrow> on_line u (tp_max e a b)"
  by (simp add: tp_max_def)

lemma max_pos: "on_line u a \<Longrightarrow> on_line u b \<Longrightarrow> pos (tp_max e a b) = max (pos a) (pos b)"
  by (auto simp: tp_max_def lt_pos)

lemma max_absorb: "on_line u a \<Longrightarrow> on_line u b \<Longrightarrow> pos a \<le> pos b \<Longrightarrow> tp_max e a b = b"
  by (auto simp: tp_max_def lt_pos intro: inj_pos)

lemma max_absorb1: "on_line u a \<Longrightarrow> on_line u b \<Longrightarrow> pos b \<le> pos a \<Longrightarrow> tp_max e a b = a"
  by (auto simp: tp_max_def lt_pos)

end

subsection \<open>The tick clock\<close>

definition tick_pos :: "time_point \<Rightarrow> int" where
  "tick_pos t = sint (m_rep (m_since_epoch t))"

definition on_tick_line :: "time_unit \<Rightarrow> time_point \<Rightarrow> bool" where
  "on_tick_line u t \<longleftrightarrow> m_clock t = TSC \<and> m_unit (m_since_epoch t) = u
     \<and> 0 \<le> tick_pos t \<and> tick_pos t < 2 ^ 62"

definition interval_len :: "chrono_env \<Rightarrow> time_unit \<Rightarrow> duration \<Rightarrow> int" where
  "interval_len e u I = sint (m_rep (dur_convert_to e u I))"

definition usable_interval :: "chrono_env \<Rightarrow> time_unit \<Rightarrow> duration \<Rightarrow> bool" where
  "usable_interval e u I \<longleftrightarrow> u \<le> m_unit I \<and> 0 < interval_len e u I \<and> interval_len e u I < 2 ^ 62"

lemma tick_cmp:
  assumes "on_tick_line u a" "on_tick_line u b"
  shows "tp_lt e a b \<longleftrightarrow> tick_pos a < tick_pos b" "tp_le e a b \<longleftrightarrow> tick_pos a \<le> tick_pos b"
  using assms by (simp_all add: on_tick_line_def tp_lt_def tp_le_def dur_lt_def dur_le_def tick_pos_def)

lemma tick_inj:
  assumes "on_tick_line u a" "on_tick_line u b" "tick_pos a = tick_pos b"
  shows "a = b"
  using assms by (auto simp: on_tick_line_def tick_pos_def intro!: time_point.equality duration.equality signed_word_eqI)

lemma tp_sub_tick:
  assumes "on_tick_line u t" "usable_interval e u I"
  shows "m_clock (tp_sub e t I) = TSC" "m_unit (m_since_epoch (tp_sub e t I)) = u"
    and "sint (m_rep (m_since_epoch (tp_sub e t I))) = tick_pos t - interval_len e u I"
proof -
  have rep: "m_rep (m_since_epoch (tp_sub e t I)) = m_rep (m_since_epoch t) - m_rep (dur_convert_to e u I)"
    using assms
    by (auto simp: tp_sub_def tp_sub_assign_def dur_sub_assign_def on_tick_line_def)
  show "m_clock (tp_sub e t I) = TSC" "m_unit (m_since_epoch (tp_sub e t I)) = u"
    using assms by (auto simp: tp_sub_def tp_sub_assign_def dur_sub_assign_def on_tick_line_def)
  show "sint (m_rep (m_since_epoch (tp_sub e t I))) = tick_pos t - interval_len e u I"
    using assms unfolding rep
    by (simp add: no_wrap fits64_def on_tick_line_def usable_interval_def tick_pos_def interval_len_def)
qed

lemma dur_sub_same: "m_unit a = m_unit b \<Longrightarrow> dur_sub e a b = dur (m_rep a - m_rep b) (m_unit a)"
  by (simp add: dur_sub_def)

lemma tick_stale:
  assumes "usable_interval e u I" "on_tick_line u d" "on_tick_line u t"
  shows "sint (m_rep (tp_diff e d (tp_sub e t I))) = tick_pos d - tick_pos t + interval_len e u I"
proof -
  have "m_rep (tp_diff e d (tp_sub e t I))
    = m_rep (m_since_epoch d) - m_rep (m_since_epoch (tp_sub e t I))"
    using assms tp_sub_tick [OF assms(3,1)] by (simp add: tp_diff_def dur_sub_same on_tick_line_def)
  then show ?thesis
    using assms tp_sub_tick [OF assms(3,1)]
    by (simp add: no_wrap fits64_def on_tick_line_def usable_interval_def tick_pos_def)
qed

lemma tick_remaining:
  assumes "usable_interval e u I" "on_tick_line u d" "on_tick_line u m"
  shows "sint (m_rep (dur_sub e I (tp_diff e m d))) = interval_len e u I - (tick_pos m - tick_pos d)"
proof -
  have diff: "tp_diff e m d = dur (m_rep (m_since_epoch m) - m_rep (m_since_epoch d)) u"
    using assms by (simp add: tp_diff_def dur_sub_same on_tick_line_def)
  have sdiff: "sint (m_rep (m_since_epoch m) - m_rep (m_since_epoch d)) = tick_pos m - tick_pos d"
    using assms by (simp add: no_wrap fits64_def on_tick_line_def tick_pos_def)
  have "m_rep (dur_sub e I (tp_diff e m d))
    = m_rep (dur_convert_to e u I) - (m_rep (m_since_epoch m) - m_rep (m_since_epoch d))"
    using assms convert_same [of e "tp_diff e m d"]
    by (auto simp: dur_sub_def diff usable_interval_def Let_def)
  then show ?thesis
    using assms sdiff
    by (simp add: no_wrap fits64_def on_tick_line_def usable_interval_def tick_pos_def interval_len_def)
qed

lemma tick_before_window:
  assumes "usable_interval e u I" "on_tick_line u t" "on_tick_line u m"
  shows "tp_lt e t (tp_sub e m I) \<longleftrightarrow> tick_pos t < tick_pos m - interval_len e u I"
  using assms tp_sub_tick [OF assms(3,1)]
  by (simp add: tp_lt_def dur_lt_def on_tick_line_def tick_pos_def)

interpretation tick: timeline on_tick_line usable_interval tick_pos interval_len
  by unfold_locales
    (auto simp: tick_cmp tick_stale tick_remaining tick_before_window usable_interval_def
      intro: tick_inj)

end
