(* ===== verification/Json_Api.thy ===== *)
theory Json_Api
  imports Prelude
begin

section \<open>The JSON document\<close>

text \<open>
  Configuration is read from a \<open>rapidjson\<close> document. That library is not part of the repository,
  so the operations the code calls on a document value are a parameter of the model: a record of
  functions over an arbitrary type \<open>'v\<close> of values. \<open>jMember\<close> is \<open>operator[]\<close> with a string, \<open>jElem\<close>
  with an index, \<open>jMembers\<close> the names and values from \<open>MemberBegin\<close> to \<open>MemberEnd\<close>. \<open>jHasMember\<close>, \<open>jMember\<close>
  and \<open>jMembers\<close> are asked of objects only (RapidJSON asserts it), the getters of values of their type.
  Strings are what the code reads through \<open>GetString\<close>, so C strings without a zero.
\<close>

record 'v rapidjson =
  jIsObject :: "'v \<Rightarrow> bool"
  jIsArray :: "'v \<Rightarrow> bool"
  jIsBool :: "'v \<Rightarrow> bool"
  jIsString :: "'v \<Rightarrow> bool"
  jIsUint64 :: "'v \<Rightarrow> bool"
  jHasMember :: "'v \<Rightarrow> string \<Rightarrow> bool"
  jMember :: "'v \<Rightarrow> string \<Rightarrow> 'v"
  jMembers :: "'v \<Rightarrow> (string \<times> 'v) list"
  jSize :: "'v \<Rightarrow> nat"
  jElem :: "'v \<Rightarrow> nat \<Rightarrow> 'v"
  jGetBool :: "'v \<Rightarrow> bool"
  jGetUint64 :: "'v \<Rightarrow> uint64"
  jGetString :: "'v \<Rightarrow> string"

end
