(* ===== verification/Stat_Config.thy ===== *)
theory Stat_Config
  imports Chrono Json_Api
begin

section \<open>Statistics tags and options\<close>

text \<open>
  The tags of \<open>include/handystats/statistics.hpp\<close>, which of them are enabled and which are computed
  because another one needs them (\<open>src/statistics.cpp\<close>), and the options of
  \<open>src/config/statistics.cpp\<close> with their reading from a JSON value.
\<close>

datatype stat_tag =
    Tag_empty | Tag_value | Tag_min | Tag_max | Tag_count | Tag_sum | Tag_avg
  | Tag_moving_count | Tag_moving_sum | Tag_moving_avg | Tag_histogram | Tag_quantile
  | Tag_timestamp | Tag_rate | Tag_entropy

fun tag_type :: "stat_tag \<Rightarrow> int32" where
  "tag_type Tag_empty = 0"
| "tag_type Tag_value = push_bit 1 1"
| "tag_type Tag_min = push_bit 2 1"
| "tag_type Tag_max = push_bit 3 1"
| "tag_type Tag_count = push_bit 4 1"
| "tag_type Tag_sum = push_bit 5 1"
| "tag_type Tag_avg = push_bit 6 1"
| "tag_type Tag_moving_count = push_bit 7 1"
| "tag_type Tag_moving_sum = push_bit 8 1"
| "tag_type Tag_moving_avg = push_bit 9 1"
| "tag_type Tag_histogram = push_bit 10 1"
| "tag_type Tag_quantile = push_bit 11 1"
| "tag_type Tag_timestamp = push_bit 12 1"
| "tag_type Tag_rate = push_bit 13 1"
| "tag_type Tag_entropy = push_bit 14 1"

definition tag_from_string :: "string \<Rightarrow> int32 result" where
  "tag_from_string tag_name =
     (if tag_name = ''value'' then Inr (tag_type Tag_value)
      else if tag_name = ''min'' then Inr (tag_type Tag_min)
      else if tag_name = ''max'' then Inr (tag_type Tag_max)
      else if tag_name = ''count'' then Inr (tag_type Tag_count)
      else if tag_name = ''sum'' then Inr (tag_type Tag_sum)
      else if tag_name = ''avg'' then Inr (tag_type Tag_avg)
      else if tag_name = ''moving-count'' then Inr (tag_type Tag_moving_count)
      else if tag_name = ''moving-sum'' then Inr (tag_type Tag_moving_sum)
      else if tag_name = ''moving-avg'' then Inr (tag_type Tag_moving_avg)
      else if tag_name = ''histogram'' then Inr (tag_type Tag_histogram)
      else if tag_name = ''quantile'' then Inr (tag_type Tag_quantile)
      else if tag_name = ''timestamp'' then Inr (tag_type Tag_timestamp)
      else if tag_name = ''rate'' then Inr (tag_type Tag_rate)
      else if tag_name = ''entropy'' then Inr (tag_type Tag_entropy)
      else Inl Invalid_tag_error)"

subsection \<open>Options\<close>

record stat_config =
  moving_interval :: duration
  histogram_bins :: uint64
  tags :: int32
  rate_unit :: time_unit

definition stat_config_default :: stat_config where
  "stat_config_default =
     \<lparr>moving_interval = dur 1 SEC,
      histogram_bins = 30,
      tags = or (tag_type Tag_value)
        (or (tag_type Tag_min) (or (tag_type Tag_max)
        (or (tag_type Tag_count) (or (tag_type Tag_sum) (or (tag_type Tag_avg)
        (or (tag_type Tag_moving_count) (or (tag_type Tag_moving_sum)
        (or (tag_type Tag_moving_avg) (tag_type Tag_timestamp))))))))),
      rate_unit = SEC\<rparr>"

text \<open>The loop over the array of tag names: strings are looked up, other elements skipped.\<close>

fun configure_tags :: "'v rapidjson \<Rightarrow> 'v list \<Rightarrow> int32 \<Rightarrow> int32 result" where
  "configure_tags J [] acc = Inr acc"
| "configure_tags J (tag # rest) acc =
     (if jIsString J tag
      then bind_result (tag_from_string (jGetString J tag))
             (\<lambda>t. configure_tags J rest (or acc t))
      else configure_tags J rest acc)"

definition rate_unit_from_string :: "string \<Rightarrow> time_unit" where
  "rate_unit_from_string s =
     (if s = ''ns'' then NSEC
      else if s = ''us'' then USEC
      else if s = ''ms'' then MSEC
      else if s = ''s'' then SEC
      else if s = ''m'' then MINS
      else if s = ''h'' then HOUR
      else TICK)"

definition configure_statistics :: "'v rapidjson \<Rightarrow> stat_config \<Rightarrow> 'v \<Rightarrow> stat_config result" where
  "configure_statistics J obj config =
     (if \<not> jIsObject J config then Inr obj
      else
        let obj =
          (if jHasMember J config ''moving-interval'' then
             let v = jMember J config ''moving-interval'' in
             if jIsUint64 J v \<and> jGetUint64 J v > 0
             then obj\<lparr>moving_interval := dur (jGetUint64 J v) MSEC\<rparr> else obj
           else obj) in
        let obj =
          (if jHasMember J config ''histogram-bins'' then
             let v = jMember J config ''histogram-bins'' in
             if jIsUint64 J v \<and> jGetUint64 J v > 0
             then obj\<lparr>histogram_bins := jGetUint64 J v\<rparr> else obj
           else obj) in
        bind_result
          (if jHasMember J config ''tags'' then
             let v = jMember J config ''tags'' in
             if jIsArray J v
             then bind_result
                    (configure_tags J (map (jElem J v) [0..<jSize J v]) (tag_type Tag_empty))
                    (\<lambda>ts. Inr (obj\<lparr>tags := ts\<rparr>))
             else Inr obj
           else Inr obj)
          (\<lambda>obj.
             Inr (if jHasMember J config ''rate-unit'' then
                    let v = jMember J config ''rate-unit'' in
                    if jIsString J v then
                      let unit = rate_unit_from_string (jGetString J v) in
                      if unit \<noteq> TICK then obj\<lparr>rate_unit := unit\<rparr> else obj
                    else obj
                  else obj)))"

subsection \<open>Enabled and computed\<close>

definition enabled :: "int32 \<Rightarrow> stat_tag \<Rightarrow> bool" where
  "enabled ts t \<longleftrightarrow> and ts (tag_type t) \<noteq> 0"

fun tag_rank :: "stat_tag \<Rightarrow> nat" where
  "tag_rank Tag_timestamp = 2"
| "tag_rank Tag_value = 1"
| "tag_rank Tag_count = 1"
| "tag_rank Tag_sum = 1"
| "tag_rank Tag_moving_count = 1"
| "tag_rank Tag_moving_sum = 1"
| "tag_rank Tag_histogram = 1"
| "tag_rank t = 0"

function computed :: "int32 \<Rightarrow> stat_tag \<Rightarrow> bool" where
  "computed ts Tag_value \<longleftrightarrow> enabled ts Tag_value \<or> computed ts Tag_rate"
| "computed ts Tag_min \<longleftrightarrow> enabled ts Tag_min"
| "computed ts Tag_max \<longleftrightarrow> enabled ts Tag_max"
| "computed ts Tag_count \<longleftrightarrow> enabled ts Tag_count \<or> computed ts Tag_avg"
| "computed ts Tag_sum \<longleftrightarrow> enabled ts Tag_sum \<or> computed ts Tag_avg"
| "computed ts Tag_avg \<longleftrightarrow> enabled ts Tag_avg"
| "computed ts Tag_moving_count \<longleftrightarrow> enabled ts Tag_moving_count \<or> computed ts Tag_moving_avg"
| "computed ts Tag_moving_sum \<longleftrightarrow> enabled ts Tag_moving_sum \<or> computed ts Tag_moving_avg"
| "computed ts Tag_moving_avg \<longleftrightarrow> enabled ts Tag_moving_avg"
| "computed ts Tag_histogram \<longleftrightarrow>
     enabled ts Tag_histogram \<or> computed ts Tag_quantile \<or> computed ts Tag_entropy"
| "computed ts Tag_quantile \<longleftrightarrow> enabled ts Tag_quantile"
| "computed ts Tag_timestamp \<longleftrightarrow>
     enabled ts Tag_timestamp \<or>
     computed ts Tag_moving_count \<or> computed ts Tag_moving_sum \<or> computed ts Tag_moving_avg \<or>
     computed ts Tag_histogram \<or> computed ts Tag_quantile \<or>
     computed ts Tag_rate"
| "computed ts Tag_rate \<longleftrightarrow> enabled ts Tag_rate"
| "computed ts Tag_entropy \<longleftrightarrow> enabled ts Tag_entropy"
| "computed ts Tag_empty \<longleftrightarrow> False"
  by pat_completeness auto
termination
  by (relation "measure (\<lambda>(ts, t). tag_rank t)") auto

subsection \<open>Lemmas\<close>

fun tag_name :: "stat_tag \<Rightarrow> string" where
  "tag_name Tag_empty = []"
| "tag_name Tag_value = ''value''"
| "tag_name Tag_min = ''min''"
| "tag_name Tag_max = ''max''"
| "tag_name Tag_count = ''count''"
| "tag_name Tag_sum = ''sum''"
| "tag_name Tag_avg = ''avg''"
| "tag_name Tag_moving_count = ''moving-count''"
| "tag_name Tag_moving_sum = ''moving-sum''"
| "tag_name Tag_moving_avg = ''moving-avg''"
| "tag_name Tag_histogram = ''histogram''"
| "tag_name Tag_quantile = ''quantile''"
| "tag_name Tag_timestamp = ''timestamp''"
| "tag_name Tag_rate = ''rate''"
| "tag_name Tag_entropy = ''entropy''"

lemma tag_from_string_name: "t \<noteq> Tag_empty \<Longrightarrow> tag_from_string (tag_name t) = Inr (tag_type t)"
  by (cases t) (simp_all add: tag_from_string_def)

lemma tag_from_string_unknown:
  assumes "\<And>t. t \<noteq> Tag_empty \<Longrightarrow> s \<noteq> tag_name t"
  shows "tag_from_string s = Inl Invalid_tag_error"
  using assms [of Tag_value]
    assms [of Tag_min]
    assms [of Tag_max]
    assms [of Tag_count]
    assms [of Tag_sum]
    assms [of Tag_avg]
    assms [of Tag_moving_count]
    assms [of Tag_moving_sum]
    assms [of Tag_moving_avg]
    assms [of Tag_histogram]
    assms [of Tag_quantile]
    assms [of Tag_timestamp]
    assms [of Tag_rate]
    assms [of Tag_entropy]
  by (simp add: tag_from_string_def)

lemma tag_from_string_Inr:
  "tag_from_string s = Inr b \<Longrightarrow> \<exists>t. t \<noteq> Tag_empty \<and> s = tag_name t \<and> b = tag_type t"
  using tag_from_string_unknown [of s] tag_from_string_name by fastforce

lemma enabled_computed: "enabled ts t \<Longrightarrow> computed ts t"
  by (cases t) (simp_all add: enabled_def)

end
