(* ===== verification/Math_Utils.thy ===== *)
theory Math_Utils
  imports Prelude
begin

section \<open>Numeric helpers\<close>

text \<open>
  The functions of \<open>include/handystats/math_utils.hpp\<close> and \<open>find_z\<close> of \<open>src/statistics.cpp\<close>:
  comparison up to four machine epsilons, the checked square root, the quadratic solver and the
  weighted average. The epsilons are those of the types the templates are used at, \<open>double\<close>
  (\<open>2 ^ -52\<close>) and the 80-bit \<open>long double\<close> (\<open>2 ^ -63\<close>).
\<close>

definition epsilon_double :: real where
  "epsilon_double = 1 / 2 ^ 52"

definition epsilon_long_double :: real where
  "epsilon_long_double = 1 / 2 ^ 63"

definition cmp :: "real \<Rightarrow> real \<Rightarrow> real \<Rightarrow> int" where
  "cmp epsilon a b = (if a + epsilon < b then -1 else if a - epsilon > b then 1 else 0)"

abbreviation cmp_d :: "real \<Rightarrow> real \<Rightarrow> int" where
  "cmp_d \<equiv> cmp (epsilon_double * 4)"

abbreviation cmp_ld :: "real \<Rightarrow> real \<Rightarrow> int" where
  "cmp_ld \<equiv> cmp (epsilon_long_double * 4)"

definition checked_sqrt :: "real \<Rightarrow> real \<Rightarrow> real result" where
  "checked_sqrt epsilon a =
     (if cmp epsilon a 0 < 0 then Inl Logic_error
      else if a < 0 then Inl Not_finite
      else Inr (sqrt a))"

definition solve_quadratic :: "real \<Rightarrow> real \<Rightarrow> real \<Rightarrow> real list result" where
  "solve_quadratic a b c =
     (if cmp_ld a 0 = 0 then
        (if cmp_ld b 0 = 0 then Inr [] else Inr [- c / b])
      else
        let d = b * b - 4 * a * c in
        if cmp_ld d 0 < 0 then Inr []
        else if cmp_ld d 0 = 0 then Inr [- b / 2 / a]
        else bind_result (checked_sqrt (epsilon_double * 4) d)
               (\<lambda>d. Inr [(- d - b) / 2 / a, (d - b) / 2 / a]))"

definition weighted_average :: "real \<Rightarrow> real \<Rightarrow> real \<Rightarrow> real \<Rightarrow> real result" where
  "weighted_average value1 weight1 value2 weight2 =
     (let total_weight = weight1 + weight2 in
      if cmp_ld total_weight 0 = 0 then Inl Logic_error
      else let weighted_sum = value1 * weight1 + value2 * weight2
           in Inr (weighted_sum / total_weight))"

fun first_in_unit :: "real list \<Rightarrow> real result" where
  "first_in_unit [] = Inl Logic_error"
| "first_in_unit (r # rs) =
     (if cmp_d r 0 \<ge> 0 \<and> cmp_d r 1 \<le> 0 then Inr r else first_in_unit rs)"

definition find_z :: "real \<Rightarrow> real \<Rightarrow> real \<Rightarrow> real result" where
  "find_z a b c = bind_result (solve_quadratic a b c) first_in_unit"

subsection \<open>Lemmas\<close>

lemma epsilon_pos [simp]: "0 < epsilon_double" "0 < epsilon_long_double"
  by (simp_all add: epsilon_double_def epsilon_long_double_def)

lemma epsilon_nonneg [simp]: "0 \<le> epsilon_double" "0 \<le> epsilon_long_double"
  by (simp_all add: epsilon_double_def epsilon_long_double_def)

lemma epsilon_less: "epsilon_long_double < epsilon_double"
  by (simp add: epsilon_double_def epsilon_long_double_def)

lemma cmp_neg_iff: "0 < eps \<Longrightarrow> cmp eps a b < 0 \<longleftrightarrow> a + eps < b"
  by (simp add: cmp_def)

lemma cmp_pos_iff: "0 < eps \<Longrightarrow> 0 < cmp eps a b \<longleftrightarrow> b < a - eps"
  by (simp add: cmp_def)

lemma cmp_le_0_iff: "0 < eps \<Longrightarrow> cmp eps a b \<le> 0 \<longleftrightarrow> a - eps \<le> b"
  by (simp add: cmp_def)

lemma cmp_ge_0_iff: "0 < eps \<Longrightarrow> 0 \<le> cmp eps a b \<longleftrightarrow> b \<le> a + eps"
  by (simp add: cmp_def)

lemma cmp_eq_0_iff: "0 < eps \<Longrightarrow> cmp eps a b = 0 \<longleftrightarrow> a - eps \<le> b \<and> b \<le> a + eps"
  by (simp add: cmp_def)

lemmas cmp_iffs = cmp_neg_iff cmp_pos_iff cmp_le_0_iff cmp_ge_0_iff cmp_eq_0_iff

lemma cmp_pos_less: "0 < eps \<Longrightarrow> 0 < cmp eps a b \<Longrightarrow> b < a"
  by (simp add: cmp_pos_iff)

lemma cmp_refl: "0 < eps \<Longrightarrow> cmp eps a a = 0"
  by (simp add: cmp_def)

lemma cmp_ld_pos: "0 < cmp_ld a b \<Longrightarrow> b < a"
  by (rule cmp_pos_less [of "epsilon_long_double * 4"]) simp_all

lemma cmp_ld_nonzero: "cmp_ld a 0 \<noteq> 0 \<Longrightarrow> a \<noteq> 0"
  using cmp_refl [of "epsilon_long_double * 4" 0] by auto

lemma checked_sqrt_nonneg: "0 < eps \<Longrightarrow> 0 \<le> d \<Longrightarrow> checked_sqrt eps d = Inr (sqrt d)"
  by (simp add: checked_sqrt_def cmp_neg_iff)

lemma solve_quadratic_regular:
  assumes "cmp_ld a 0 \<noteq> 0" "0 < cmp_ld (b * b - 4 * a * c) 0"
  shows "solve_quadratic a b c
    = Inr [(- sqrt (b * b - 4 * a * c) - b) / 2 / a, (sqrt (b * b - 4 * a * c) - b) / 2 / a]"
  using assms cmp_ld_pos [OF assms(2)]
  by (simp add: solve_quadratic_def Let_def checked_sqrt_nonneg del: diff_gt_0_iff_gt)

lemma solve_quadratic_total: "\<exists>roots. solve_quadratic a b c = Inr roots"
proof (cases "cmp_ld a 0 \<noteq> 0 \<and> 0 < cmp_ld (b * b - 4 * a * c) 0")
  case True
  then show ?thesis by (simp add: solve_quadratic_regular)
next
  case False
  then show ?thesis by (auto simp: solve_quadratic_def Let_def)
qed

lemma quadratic_factors:
  fixes a b c x d :: real
  assumes "a \<noteq> 0" "d * d = b * b - 4 * a * c"
  shows "a * x\<^sup>2 + b * x + c = 0 \<longleftrightarrow> x = (- d - b) / 2 / a \<or> x = (d - b) / 2 / a"
proof -
  have "4 * a * (a * x\<^sup>2 + b * x + c) = (2 * a * x + b + d) * (2 * a * x + b - d)"
    using assms(2) by (simp add: algebra_simps power2_eq_square)
  then have "a * x\<^sup>2 + b * x + c = 0 \<longleftrightarrow> (2 * a * x + b + d) * (2 * a * x + b - d) = 0"
    using assms(1) by auto
  also have "\<dots> \<longleftrightarrow> 2 * a * x = - d - b \<or> 2 * a * x = d - b"
    unfolding mult_eq_0_iff by linarith
  also have "\<dots> \<longleftrightarrow> x = (- d - b) / 2 / a \<or> x = (d - b) / 2 / a"
    using assms(1) by (auto simp: field_simps)
  finally show ?thesis .
qed

lemma weighted_average_ok:
  assumes "0 \<le> w1" "0 \<le> w2" "0 < cmp_ld (w1 + w2) 0"
  shows "weighted_average v1 w1 v2 w2 = Inr ((v1 * w1 + v2 * w2) / (w1 + w2))"
  using assms by (simp add: weighted_average_def Let_def)

lemma average_between:
  fixes v1 v2 w1 w2 :: real
  assumes "0 \<le> w1" "0 \<le> w2" "0 < w1 + w2" "v1 \<le> v2"
  shows "v1 \<le> (v1 * w1 + v2 * w2) / (w1 + w2)" "(v1 * w1 + v2 * w2) / (w1 + w2) \<le> v2"
proof -
  have "v1 * (w1 + w2) \<le> v1 * w1 + v2 * w2" "v1 * w1 + v2 * w2 \<le> v2 * (w1 + w2)"
    using assms by (simp_all add: distrib_left mult_right_mono)
  then show "v1 \<le> (v1 * w1 + v2 * w2) / (w1 + w2)" "(v1 * w1 + v2 * w2) / (w1 + w2) \<le> v2"
    using assms(3) by (simp_all add: pos_le_divide_eq pos_divide_le_eq)
qed

subsection \<open>Properties\<close>

text \<open>The quadratic solver never throws, and away from the degenerate cases it returns exactly
  the two roots of the equation.\<close>

lemma solve_quadratic_finds_the_roots:
  assumes "cmp_ld a 0 \<noteq> 0" "0 < cmp_ld (b * b - 4 * a * c) 0"
  shows "\<exists>roots. solve_quadratic a b c = Inr roots \<and> length roots = 2
    \<and> set roots = {x. a * x\<^sup>2 + b * x + c = 0}"
proof -
  let ?d = "b * b - 4 * a * c"
  have "0 < ?d" "a \<noteq> 0" using cmp_ld_pos [OF assms(2)] cmp_ld_nonzero [OF assms(1)] by auto
  then have sq: "sqrt ?d * sqrt ?d = ?d" by simp
  have "{x. a * x\<^sup>2 + b * x + c = 0}
      = set [(- sqrt ?d - b) / 2 / a, (sqrt ?d - b) / 2 / a]"
    unfolding quadratic_factors [OF \<open>a \<noteq> 0\<close> sq] by auto
  then show ?thesis
    unfolding solve_quadratic_regular [OF assms] by simp
qed

end
