(* ===== verification/Histogram.thy ===== *)
theory Histogram
  imports Chrono Math_Utils
begin

section \<open>Histograms\<close>

text \<open>
  The histogram of \<open>src/statistics.cpp\<close> as a list of bins, each with a center, a (fractional) count
  and the time of its last update: insertion at the place \<open>std::lower_bound\<close> finds, removal of
  empty bins, the merge that keeps the number of bins bounded, the quantile extractor and the
  entropy. The decay of the counts with time belongs to the statistics (theory \<open>Statistics\<close>).
\<close>

record bin =
  bin_center :: real
  bin_count :: real
  bin_timestamp :: time_point

type_synonym histogram = "bin list"

text \<open>The lexicographic order of \<open>std::tuple\<close>.\<close>

definition bin_less :: "chrono_env \<Rightarrow> bin \<Rightarrow> bin \<Rightarrow> bool" where
  "bin_less e a b \<longleftrightarrow>
     bin_center a < bin_center b \<or>
     (\<not> bin_center b < bin_center a \<and>
       (bin_count a < bin_count b \<or>
        (\<not> bin_count b < bin_count a \<and> tp_lt e (bin_timestamp a) (bin_timestamp b))))"

text \<open>The bisection of the standard library's \<open>lower_bound\<close>, over a range given by its first index
  and its length.\<close>

function lower_bound :: "chrono_env \<Rightarrow> histogram \<Rightarrow> bin \<Rightarrow> nat \<Rightarrow> nat \<Rightarrow> nat" where
  "lower_bound e h v first len =
     (if len = 0 then first
      else
        let half = len div 2; middle = first + half in
        if bin_less e (h ! middle) v
        then lower_bound e h v (middle + 1) (len - half - 1)
        else lower_bound e h v first half)"
  by pat_completeness auto
termination
  by (relation "measure (\<lambda>(e, h, v, first, len). len)") auto

declare lower_bound.simps [simp del]

definition insert_bin :: "chrono_env \<Rightarrow> histogram \<Rightarrow> bin \<Rightarrow> histogram" where
  "insert_bin e h new_bin =
     (let i = lower_bound e h new_bin 0 (length h) in take i h @ new_bin # drop i h)"

definition is_empty_bin :: "bin \<Rightarrow> bool" where
  "is_empty_bin b \<longleftrightarrow> cmp_d (bin_count b) 0 \<le> 0"

text \<open>The loop that removes empty bins between empty bins; \<open>erase\<close> keeps the index.\<close>

function squeeze_empty_bins :: "histogram \<Rightarrow> nat \<Rightarrow> histogram" where
  "squeeze_empty_bins h index =
     (if index < length h - 1 then
        if \<not> is_empty_bin (h ! index) then squeeze_empty_bins h (index + 2)
        else if \<not> is_empty_bin (h ! (index + 1)) then squeeze_empty_bins h (index + 3)
        else if \<not> is_empty_bin (h ! (index - 1)) then squeeze_empty_bins h (index + 1)
        else squeeze_empty_bins (take index h @ drop (index + 1) h) index
      else h)"
  by pat_completeness auto
termination
  by (relation "measure (\<lambda>(h, index). length h - index)") auto

declare squeeze_empty_bins.simps [simp del]

text \<open>
  Leading and trailing empty bins are erased first. When nothing is left, the bound
  \<open>histogram.size() - 1\<close> of the loop wraps around and its body reads past the end.
\<close>

definition remove_empty_bins :: "histogram \<Rightarrow> histogram result" where
  "remove_empty_bins h =
     (let h = dropWhile is_empty_bin h;
          h = rev (dropWhile is_empty_bin (rev h))
      in if h = [] then Inl Out_of_bounds else Inr (squeeze_empty_bins h 1))"

definition bin_merge_criteria :: "bin \<Rightarrow> bin \<Rightarrow> real" where
  "bin_merge_criteria left_bin right_bin = bin_center right_bin - bin_center left_bin"

text \<open>The search for the closest neighbours; \<open>None\<close> is the index \<open>-1\<close> it starts from.\<close>

fun best_merge :: "histogram \<Rightarrow> nat \<Rightarrow> (nat \<times> real) option \<Rightarrow> (nat \<times> real) option" where
  "best_merge (left_bin # right_bin # rest) index best =
     (let merge_criteria = bin_merge_criteria left_bin right_bin in
      best_merge (right_bin # rest) (index + 1)
        (case best of
           None \<Rightarrow> Some (index, merge_criteria)
         | Some (best_merge_index, best_merge_criteria) \<Rightarrow>
             if cmp_d merge_criteria best_merge_criteria < 0
             then Some (index, merge_criteria) else best))"
| "best_merge h index best = best"

definition merged_bin :: "chrono_env \<Rightarrow> bin \<Rightarrow> bin \<Rightarrow> bin result" where
  "merged_bin e left_bin right_bin =
     (if cmp_d (bin_count left_bin) 0 \<le> 0 \<and> cmp_d (bin_count right_bin) 0 \<le> 0
      then bind_result (weighted_average (bin_center left_bin) 1 (bin_center right_bin) 1)
             (\<lambda>center. Inr \<lparr>bin_center = center, bin_count = 0, bin_timestamp = time_point_default\<rparr>)
      else bind_result
             (weighted_average (bin_center left_bin) (bin_count left_bin)
                (bin_center right_bin) (bin_count right_bin))
             (\<lambda>center. Inr \<lparr>bin_center = center,
                bin_count = bin_count left_bin + bin_count right_bin,
                bin_timestamp = tp_max e (bin_timestamp left_bin) (bin_timestamp right_bin)\<rparr>))"

definition merge_at :: "chrono_env \<Rightarrow> histogram \<Rightarrow> nat \<Rightarrow> histogram result" where
  "merge_at e h i =
     (if i + 1 < length h
      then bind_result (merged_bin e (h ! i) (h ! (i + 1)))
             (\<lambda>b. Inr (take i h @ b # drop (i + 2) h))
      else Inl Out_of_bounds)"

text \<open>The part of \<open>update_histogram\<close> after the insertion and the decay.\<close>

definition compress_histogram :: "chrono_env \<Rightarrow> uint64 \<Rightarrow> histogram \<Rightarrow> histogram result" where
  "compress_histogram e bins h =
     (if length h \<le> unat bins then Inr h
      else bind_result (remove_empty_bins h) (\<lambda>h.
        if length h \<le> unat bins then Inr h
        else case best_merge h 0 None of
               None \<Rightarrow> Inl Out_of_bounds
             | Some (best_merge_index, best_merge_criteria) \<Rightarrow> merge_at e h best_merge_index))"

subsection \<open>Quantiles\<close>

text \<open>
  The loop over half-bins, from the half before the first bin (index \<open>-1\<close>): it stops at the
  half-bin that holds the required count, or with the index past the last bin.
\<close>

function quantile_scan :: "histogram \<Rightarrow> int \<Rightarrow> real \<Rightarrow> int \<times> real" where
  "quantile_scan h bin_index required_count =
     (if bin_index < int (length h) then
        let volume =
          ((if bin_index = -1 then 0 else bin_count (h ! nat bin_index))
           + (if bin_index + 1 = int (length h) then 0 else bin_count (h ! nat (bin_index + 1)))) / 2
        in if cmp_d volume required_count > 0 then (bin_index, required_count)
           else quantile_scan h (bin_index + 1) (required_count - volume)
      else (bin_index, required_count))"
  by pat_completeness auto
termination
  by (relation "measure (\<lambda>(h, bin_index, required_count). nat (int (length h) - bin_index))") auto

declare quantile_scan.simps [simp del]

definition total_count :: "histogram \<Rightarrow> real" where
  "total_count h = foldl (\<lambda>moving_count b. moving_count + bin_count b) 0 h"

text \<open>The two bins the quantile lies between; past the last bin the code reads out of bounds.\<close>

definition quantile_bins :: "histogram \<Rightarrow> int \<Rightarrow> (bin \<times> bin) result" where
  "quantile_bins h bin_index =
     (if bin_index = -1 then
        bind_result
          (weighted_average (bin_center (h ! 0)) (bin_count (h ! 0))
             (bin_center (h ! 1)) (bin_count (h ! 1)))
          (\<lambda>avg. Inr (\<lparr>bin_center = 2 * bin_center (h ! 0) - avg, bin_count = 0,
                       bin_timestamp = time_point_default\<rparr>, h ! 0))
      else if bin_index + 1 < int (length h) then
        Inr (h ! nat bin_index, h ! nat (bin_index + 1))
      else if bin_index < int (length h) then
        bind_result
          (weighted_average (bin_center (h ! nat (bin_index - 1))) (bin_count (h ! nat (bin_index - 1)))
             (bin_center (h ! nat bin_index)) (bin_count (h ! nat bin_index)))
          (\<lambda>avg. Inr (h ! nat bin_index,
                      \<lparr>bin_center = 2 * bin_center (h ! nat bin_index) - avg, bin_count = 0,
                       bin_timestamp = time_point_default\<rparr>))
      else Inl Out_of_bounds)"

definition quantile_at :: "histogram \<Rightarrow> real \<Rightarrow> real result" where
  "quantile_at h probability =
     (if length h = 0 then Inr 0
      else
        let moving_count = total_count h in
        if cmp_d moving_count 0 \<le> 0 then Inr 0
        else if length h = 1 then Inr (bin_center (h ! 0))
        else
          case quantile_scan h (-1) (moving_count * probability) of
            (bin_index, required_count) \<Rightarrow>
              bind_result (quantile_bins h bin_index) (\<lambda>(left_bin, right_bin).
                bind_result
                  (find_z (bin_count right_bin - bin_count left_bin) (2 * bin_count left_bin)
                     (- 2 * required_count))
                  (\<lambda>z. Inr (bin_center left_bin
                            + (bin_center right_bin - bin_center left_bin) * z))))"

subsection \<open>Entropy\<close>

text \<open>
  The width the code gives to a bin. A width of zero or a negative one makes the logarithm of the
  quotient infinite or undefined in floating point: the error \<open>Not_finite\<close>.
\<close>

definition bin_width :: "histogram \<Rightarrow> nat \<Rightarrow> real" where
  "bin_width h bin_index =
     (let b = h ! bin_index;
          w = (if bin_index > 0 then
                 (bin_center b - bin_center (h ! (bin_index - 1))) * bin_count b
                   / (bin_count b + bin_count (h ! (bin_index - 1)))
               else 0)
            + (if bin_index < length h - 1 then
                 (bin_center (h ! (bin_index + 1)) - bin_center b) * bin_count b
                   / (bin_count b + bin_count (h ! (bin_index + 1)))
               else 0)
      in if bin_index = 0 \<or> bin_index = length h - 1 then w * 2 else w)"

fun entropy_loop :: "histogram \<Rightarrow> real \<Rightarrow> nat list \<Rightarrow> real \<Rightarrow> real result" where
  "entropy_loop h moving_count [] H = Inr H"
| "entropy_loop h moving_count (bin_index # rest) H =
     (let b = h ! bin_index in
      if cmp_d (bin_count b) 0 \<le> 0 then entropy_loop h moving_count rest H
      else if bin_width h bin_index \<le> 0 then Inl Not_finite
      else entropy_loop h moving_count rest
             (H - bin_count b * ln (bin_count b / moving_count / bin_width h bin_index)
                  / moving_count))"

definition entropy_of :: "histogram \<Rightarrow> real result" where
  "entropy_of h =
     (if length h \<le> 1 then Inr 0
      else
        let moving_count = total_count h in
        if cmp_d moving_count 0 \<le> 0 then Inr 0
        else entropy_loop h moving_count [0..<length h] 0)"

end
