(* ===== verification/Statistics.thy ===== *)
theory Statistics
  imports Timeline Stat_Config Histogram
begin

section \<open>Incremental statistics\<close>

text \<open>
  The class \<open>statistics\<close> of \<open>src/statistics.cpp\<close>: the aggregates of a stream of values, the moving
  aggregates that decay as time goes by, and the accessors that throw for a tag that is not
  computed. Fields have the names of the class; \<open>s_config\<close> is \<open>m_config\<close>.
\<close>

record statistics =
  s_config :: stat_config
  m_value :: real
  m_min :: real
  m_max :: real
  m_sum :: real
  m_count :: uint64
  m_moving_count :: real
  m_moving_sum :: real
  m_histogram :: histogram
  m_timestamp :: time_point
  m_rate :: real
  m_data_timestamp :: time_point

text \<open>\<open>std::numeric_limits<double>\<close>: \<open>max()\<close> is the largest finite value, \<open>min()\<close> the smallest
  positive normal one.\<close>

definition double_max :: real where
  "double_max = (2 - 1 / 2 ^ 52) * 2 ^ 1023"

definition double_min :: real where
  "double_min = 1 / 2 ^ 1022"

definition stat_computed :: "statistics \<Rightarrow> stat_tag \<Rightarrow> bool" where
  "stat_computed st t = computed (tags (s_config st)) t"

definition stat_enabled :: "statistics \<Rightarrow> stat_tag \<Rightarrow> bool" where
  "stat_enabled st t = enabled (tags (s_config st)) t"

definition stat_tags :: "statistics \<Rightarrow> int32" where
  "stat_tags st = tags (s_config st)"

definition reset :: "statistics \<Rightarrow> statistics" where
  "reset st = st\<lparr>m_value := 0, m_min := double_max, m_max := double_min, m_sum := 0, m_count := 0,
     m_moving_count := 0, m_moving_sum := 0, m_histogram := [],
     m_timestamp := time_point_default, m_rate := 0, m_data_timestamp := time_point_default\<rparr>"

definition statistics_new :: "stat_config \<Rightarrow> statistics" where
  "statistics_new opts = reset \<lparr>s_config = opts, m_value = 0, m_min = 0, m_max = 0, m_sum = 0,
     m_count = 0, m_moving_count = 0, m_moving_sum = 0, m_histogram = [],
     m_timestamp = time_point_default, m_rate = 0, m_data_timestamp = time_point_default\<rparr>"

subsection \<open>Decay\<close>

definition shift_interval_data ::
  "chrono_env \<Rightarrow> statistics \<Rightarrow> real \<Rightarrow> time_point \<Rightarrow> time_point \<Rightarrow> real" where
  "shift_interval_data e st data data_timestamp timestamp =
     (if tp_le e timestamp (m_timestamp st) then data
      else
        let interval = moving_interval (s_config st);
            stale_interval = tp_diff e data_timestamp (tp_sub e timestamp interval)
        in if sint (m_rep stale_interval) \<le> 0 then 0
           else data * real_of_int (sint (m_rep stale_interval))
                / real_of_int (sint (m_rep
                    (dur_sub e interval (tp_diff e (m_timestamp st) data_timestamp)))))"

definition update_interval_data ::
  "chrono_env \<Rightarrow> statistics \<Rightarrow> real \<Rightarrow> time_point \<Rightarrow> real \<Rightarrow> time_point \<Rightarrow> real" where
  "update_interval_data e st data data_timestamp value timestamp =
     (if tp_le e timestamp (m_timestamp st) then
        if tp_lt e timestamp (tp_sub e (m_timestamp st) (moving_interval (s_config st)))
        then data else data + value
      else value + shift_interval_data e st data data_timestamp timestamp)"

definition shift_histogram :: "chrono_env \<Rightarrow> statistics \<Rightarrow> time_point \<Rightarrow> statistics" where
  "shift_histogram e st timestamp =
     (if histogram_bins (s_config st) = 0 then st
      else st\<lparr>m_histogram := map (\<lambda>b. b\<lparr>bin_count :=
             shift_interval_data e st (bin_count b) (bin_timestamp b) timestamp\<rparr>) (m_histogram st)\<rparr>)"

definition update_histogram ::
  "chrono_env \<Rightarrow> statistics \<Rightarrow> real \<Rightarrow> time_point \<Rightarrow> statistics result" where
  "update_histogram e st value timestamp =
     (if histogram_bins (s_config st) = 0 then Inr st
      else
        let new_bin = \<lparr>bin_center = value, bin_count = 1, bin_timestamp = timestamp\<rparr>;
            st = st\<lparr>m_histogram := insert_bin e (m_histogram st) new_bin\<rparr>;
            st = shift_histogram e st timestamp
        in bind_result (compress_histogram e (histogram_bins (s_config st)) (m_histogram st))
             (\<lambda>h. Inr (st\<lparr>m_histogram := h\<rparr>)))"

subsection \<open>Updates\<close>

definition update :: "chrono_env \<Rightarrow> statistics \<Rightarrow> real \<Rightarrow> time_point \<Rightarrow> statistics result" where
  "update e st value timestamp =
     (let st = (if stat_computed st Tag_rate then
                  let delta = value - m_value st in
                  st\<lparr>m_rate := update_interval_data e st (m_rate st) (m_data_timestamp st)
                                 delta timestamp\<rparr>
                else st);
          st = (if stat_computed st Tag_value then st\<lparr>m_value := value\<rparr> else st);
          st = (if stat_computed st Tag_min
                then st\<lparr>m_min := if value < m_min st then value else m_min st\<rparr> else st);
          st = (if stat_computed st Tag_max
                then st\<lparr>m_max := if m_max st < value then value else m_max st\<rparr> else st);
          st = (if stat_computed st Tag_sum then st\<lparr>m_sum := m_sum st + value\<rparr> else st);
          st = (if stat_computed st Tag_count then st\<lparr>m_count := m_count st + 1\<rparr> else st);
          st = (if stat_computed st Tag_moving_count
                then st\<lparr>m_moving_count := update_interval_data e st (m_moving_count st)
                         (m_data_timestamp st) 1 timestamp\<rparr> else st);
          st = (if stat_computed st Tag_moving_sum
                then st\<lparr>m_moving_sum := update_interval_data e st (m_moving_sum st)
                         (m_data_timestamp st) value timestamp\<rparr> else st)
      in bind_result
           (if stat_computed st Tag_histogram then update_histogram e st value timestamp else Inr st)
           (\<lambda>st. Inr (if stat_computed st Tag_timestamp
                       then st\<lparr>m_timestamp := tp_max e (m_timestamp st) timestamp,
                               m_data_timestamp := tp_max e (m_data_timestamp st) timestamp\<rparr>
                       else st)))"

definition update_time :: "chrono_env \<Rightarrow> statistics \<Rightarrow> time_point \<Rightarrow> statistics" where
  "update_time e st timestamp =
     (if tp_le e timestamp (m_timestamp st) then st
      else
        let st = (if stat_computed st Tag_rate
                  then st\<lparr>m_rate := shift_interval_data e st (m_rate st) (m_data_timestamp st)
                           timestamp\<rparr> else st);
            st = (if stat_computed st Tag_moving_count
                  then st\<lparr>m_moving_count := shift_interval_data e st (m_moving_count st)
                           (m_data_timestamp st) timestamp\<rparr> else st);
            st = (if stat_computed st Tag_moving_sum
                  then st\<lparr>m_moving_sum := shift_interval_data e st (m_moving_sum st)
                           (m_data_timestamp st) timestamp\<rparr> else st);
            st = (if stat_computed st Tag_histogram then shift_histogram e st timestamp else st)
        in if stat_computed st Tag_timestamp
           then st\<lparr>m_timestamp := tp_max e (m_timestamp st) timestamp\<rparr> else st)"

subsection \<open>Accessors\<close>

text \<open>
  The template \<open>get<Tag>\<close> checks that the tag is computed and calls \<open>get_impl<Tag>\<close>, which checks
  again. \<open>get_safe\<close> returns a default instead of throwing.
\<close>

definition get_impl :: "statistics \<Rightarrow> stat_tag \<Rightarrow> 'a result \<Rightarrow> 'a result" where
  "get_impl st t r = (if stat_computed st t then r else Inl Invalid_tag_error)"

definition get :: "statistics \<Rightarrow> stat_tag \<Rightarrow> 'a result \<Rightarrow> 'a result" where
  "get st t impl = (if stat_computed st t then impl else Inl Invalid_tag_error)"

definition get_safe :: "statistics \<Rightarrow> stat_tag \<Rightarrow> 'a result \<Rightarrow> 'a \<Rightarrow> 'a result" where
  "get_safe st t impl default_value = (if stat_computed st t then impl else Inr default_value)"

definition get_impl_value :: "statistics \<Rightarrow> real result" where
  "get_impl_value st = get_impl st Tag_value (Inr (m_value st))"

definition get_impl_min :: "statistics \<Rightarrow> real result" where
  "get_impl_min st = get_impl st Tag_min (Inr (m_min st))"

definition get_impl_max :: "statistics \<Rightarrow> real result" where
  "get_impl_max st = get_impl st Tag_max (Inr (m_max st))"

definition get_impl_count :: "statistics \<Rightarrow> uint64 result" where
  "get_impl_count st = get_impl st Tag_count (Inr (m_count st))"

definition get_impl_sum :: "statistics \<Rightarrow> real result" where
  "get_impl_sum st = get_impl st Tag_sum (Inr (m_sum st))"

definition get_impl_avg :: "statistics \<Rightarrow> real result" where
  "get_impl_avg st = get_impl st Tag_avg
     (if m_count st = 0 then Inr 0 else Inr (m_sum st / real (unat (m_count st))))"

definition get_impl_moving_count :: "statistics \<Rightarrow> real result" where
  "get_impl_moving_count st = get_impl st Tag_moving_count (Inr (m_moving_count st))"

definition get_impl_moving_sum :: "statistics \<Rightarrow> real result" where
  "get_impl_moving_sum st = get_impl st Tag_moving_sum (Inr (m_moving_sum st))"

definition get_impl_moving_avg :: "statistics \<Rightarrow> real result" where
  "get_impl_moving_avg st = get_impl st Tag_moving_avg
     (if cmp_d (m_moving_count st) 0 \<le> 0 then Inr 0
      else Inr (m_moving_sum st / m_moving_count st))"

definition get_impl_histogram :: "statistics \<Rightarrow> histogram result" where
  "get_impl_histogram st = get_impl st Tag_histogram (Inr (m_histogram st))"

text \<open>The quantile extractor holds a pointer to the statistics; the model holds its histogram.\<close>

definition get_impl_quantile :: "statistics \<Rightarrow> (real \<Rightarrow> real result) result" where
  "get_impl_quantile st = get_impl st Tag_quantile (Inr (quantile_at (m_histogram st)))"

definition get_impl_timestamp :: "statistics \<Rightarrow> time_point result" where
  "get_impl_timestamp st = get_impl st Tag_timestamp (Inr (m_timestamp st))"

definition get_impl_rate :: "chrono_env \<Rightarrow> statistics \<Rightarrow> real result" where
  "get_impl_rate e st = get_impl st Tag_rate
     (let cfg = s_config st in
      if unit_less (rate_unit cfg) (m_unit (moving_interval cfg)) then
        let rate_factor =
          real_of_int (sint (m_rep (dur_convert_to e (rate_unit cfg) (moving_interval cfg))))
        in if rate_factor = 0 then Inl Not_finite else Inr (m_rate st / rate_factor)
      else
        let rate_factor =
              real_of_int (sint (m_rep (dur_convert_to e (m_unit (moving_interval cfg))
                (dur 1 (rate_unit cfg)))));
            n = real_of_int (sint (m_rep (moving_interval cfg)))
        in if n = 0 then Inl Not_finite else Inr (m_rate st * rate_factor / n))"

definition get_impl_entropy :: "statistics \<Rightarrow> real result" where
  "get_impl_entropy st = get_impl st Tag_entropy (entropy_of (m_histogram st))"

text \<open>The deprecated interface.\<close>

definition stat_value :: "statistics \<Rightarrow> real result" where
  "stat_value st = get st Tag_value (get_impl_value st)"

definition stat_min :: "statistics \<Rightarrow> real result" where
  "stat_min st = get st Tag_min (get_impl_min st)"

definition stat_max :: "statistics \<Rightarrow> real result" where
  "stat_max st = get st Tag_max (get_impl_max st)"

definition stat_count :: "statistics \<Rightarrow> uint64 result" where
  "stat_count st = get st Tag_count (get_impl_count st)"

definition stat_sum :: "statistics \<Rightarrow> real result" where
  "stat_sum st = get st Tag_sum (get_impl_sum st)"

definition stat_avg :: "statistics \<Rightarrow> real result" where
  "stat_avg st = get st Tag_avg (get_impl_avg st)"

definition stat_moving_count :: "statistics \<Rightarrow> real result" where
  "stat_moving_count st = get st Tag_moving_count (get_impl_moving_count st)"

definition stat_moving_sum :: "statistics \<Rightarrow> real result" where
  "stat_moving_sum st = get st Tag_moving_sum (get_impl_moving_sum st)"

definition stat_moving_avg :: "statistics \<Rightarrow> real result" where
  "stat_moving_avg st = get st Tag_moving_avg (get_impl_moving_avg st)"

definition stat_histogram :: "statistics \<Rightarrow> histogram result" where
  "stat_histogram st = get st Tag_histogram (get_impl_histogram st)"

definition stat_quantile :: "statistics \<Rightarrow> real \<Rightarrow> real result" where
  "stat_quantile st probability =
     bind_result (get st Tag_quantile (get_impl_quantile st)) (\<lambda>extract. extract probability)"

definition stat_timestamp :: "statistics \<Rightarrow> time_point result" where
  "stat_timestamp st = get st Tag_timestamp (get_impl_timestamp st)"

end
