(* ===== verification/Metrics.thy ===== *)
theory Metrics
  imports Statistics Json_Api
begin

section \<open>Metrics\<close>

text \<open>
  The four kinds of metric of \<open>src/metrics/\<close>, each around a statistics object: gauges report what
  they are set to, counters a running 64-bit value, timers the lifetimes of their instances in
  microseconds, attributes keep a value of one of seven types. The options of each kind and their
  reading from JSON (\<open>src/config/metrics/\<close>) come first.
\<close>

subsection \<open>Options\<close>

record gauge_opts = go_values :: stat_config

record counter_opts = co_values :: stat_config

record timer_opts =
  to_idle_timeout :: duration
  to_values :: stat_config

definition gauge_opts_default :: gauge_opts where
  "gauge_opts_default = \<lparr>go_values = stat_config_default\<rparr>"

definition counter_opts_default :: counter_opts where
  "counter_opts_default = \<lparr>co_values = stat_config_default\<rparr>"

definition timer_opts_default :: timer_opts where
  "timer_opts_default = \<lparr>to_idle_timeout = dur 10 SEC, to_values = stat_config_default\<rparr>"

definition configure_gauge :: "'v rapidjson \<Rightarrow> gauge_opts \<Rightarrow> 'v \<Rightarrow> gauge_opts result" where
  "configure_gauge J obj config =
     (if \<not> jIsObject J config then Inr obj
      else bind_result (configure_statistics J (go_values obj) config)
             (\<lambda>values. Inr (obj\<lparr>go_values := values\<rparr>)))"

definition configure_counter :: "'v rapidjson \<Rightarrow> counter_opts \<Rightarrow> 'v \<Rightarrow> counter_opts result" where
  "configure_counter J obj config =
     (if \<not> jIsObject J config then Inr obj
      else bind_result (configure_statistics J (co_values obj) config)
             (\<lambda>values. Inr (obj\<lparr>co_values := values\<rparr>)))"

definition configure_timer :: "'v rapidjson \<Rightarrow> timer_opts \<Rightarrow> 'v \<Rightarrow> timer_opts result" where
  "configure_timer J obj config =
     (if \<not> jIsObject J config then Inr obj
      else
        let obj =
          (if jHasMember J config ''idle-timeout'' then
             let idle_timeout = jMember J config ''idle-timeout'' in
             if jIsUint64 J idle_timeout
             then obj\<lparr>to_idle_timeout := dur (jGetUint64 J idle_timeout) MSEC\<rparr> else obj
           else obj)
        in bind_result (configure_statistics J (to_values obj) config)
             (\<lambda>values. Inr (obj\<lparr>to_values := values\<rparr>)))"

subsection \<open>Gauges\<close>

record gauge = g_values :: statistics

definition gauge_new :: "gauge_opts \<Rightarrow> gauge" where
  "gauge_new opts = \<lparr>g_values = statistics_new (go_values opts)\<rparr>"

definition gauge_set :: "chrono_env \<Rightarrow> gauge \<Rightarrow> real \<Rightarrow> time_point \<Rightarrow> gauge result" where
  "gauge_set e g value timestamp =
     bind_result (update e (g_values g) value timestamp) (\<lambda>values. Inr (g\<lparr>g_values := values\<rparr>))"

definition gauge_update_statistics :: "chrono_env \<Rightarrow> gauge \<Rightarrow> time_point \<Rightarrow> gauge" where
  "gauge_update_statistics e g timestamp =
     g\<lparr>g_values := update_time e (g_values g) timestamp\<rparr>"

subsection \<open>Counters\<close>

record counter =
  c_values :: statistics
  c_value :: int64
  c_timestamp :: time_point

definition counter_new :: "counter_opts \<Rightarrow> counter" where
  "counter_new opts =
     \<lparr>c_values = statistics_new (co_values opts), c_value = 0, c_timestamp = time_point_default\<rparr>"

text \<open>The value handed to the statistics is the 64-bit count converted to a double.\<close>

definition counter_report :: "chrono_env \<Rightarrow> counter \<Rightarrow> counter result" where
  "counter_report e c =
     bind_result (update e (c_values c) (real_of_int (sint (c_value c))) (c_timestamp c))
       (\<lambda>values. Inr (c\<lparr>c_values := values\<rparr>))"

definition counter_init :: "chrono_env \<Rightarrow> counter \<Rightarrow> int64 \<Rightarrow> time_point \<Rightarrow> counter result" where
  "counter_init e c init_value timestamp =
     (let c = c\<lparr>c_value := init_value, c_timestamp := timestamp\<rparr>;
          c = c\<lparr>c_values := reset (c_values c)\<rparr>
      in counter_report e c)"

definition counter_increment :: "chrono_env \<Rightarrow> counter \<Rightarrow> int64 \<Rightarrow> time_point \<Rightarrow> counter result" where
  "counter_increment e c incr_value timestamp =
     bind_result
       (if tp_eq e (c_timestamp c) time_point_default then counter_init e c 0 timestamp else Inr c)
       (\<lambda>c. let c = c\<lparr>c_value := c_value c + incr_value\<rparr>;
                c = (if tp_lt e (c_timestamp c) timestamp then c\<lparr>c_timestamp := timestamp\<rparr> else c)
            in counter_report e c)"

definition counter_decrement :: "chrono_env \<Rightarrow> counter \<Rightarrow> int64 \<Rightarrow> time_point \<Rightarrow> counter result" where
  "counter_decrement e c decr_value timestamp =
     bind_result
       (if tp_eq e (c_timestamp c) time_point_default then counter_init e c 0 timestamp else Inr c)
       (\<lambda>c. let c = c\<lparr>c_value := c_value c - decr_value\<rparr>;
                c = (if tp_lt e (c_timestamp c) timestamp then c\<lparr>c_timestamp := timestamp\<rparr> else c)
            in counter_report e c)"

definition counter_update_statistics :: "chrono_env \<Rightarrow> counter \<Rightarrow> time_point \<Rightarrow> counter" where
  "counter_update_statistics e c timestamp =
     c\<lparr>c_values := update_time e (c_values c) timestamp\<rparr>"

subsection \<open>Timers\<close>

type_synonym instance_id = uint64

definition default_instance_id :: instance_id where
  "default_instance_id = - 1"

definition value_unit :: time_unit where
  "value_unit = USEC"

record instance_state =
  start_timestamp :: time_point
  heartbeat_timestamp :: time_point

definition expired :: "chrono_env \<Rightarrow> duration \<Rightarrow> time_point \<Rightarrow> instance_state \<Rightarrow> bool" where
  "expired e idle_timeout timestamp s \<longleftrightarrow>
     tp_gt e timestamp (heartbeat_timestamp s) \<and>
     dur_gt e (tp_diff e timestamp (heartbeat_timestamp s)) idle_timeout"

record timer =
  t_idle_timeout :: duration
  t_values :: statistics
  t_instances :: "instance_id \<rightharpoonup> instance_state"
  t_idle_check_timestamp :: time_point

definition timer_new :: "timer_opts \<Rightarrow> timer" where
  "timer_new opts =
     \<lparr>t_idle_timeout = to_idle_timeout opts, t_values = statistics_new (to_values opts),
      t_instances = Map.empty, t_idle_check_timestamp = time_point_default\<rparr>"

text \<open>The loop over the hash map erases every expired instance.\<close>

definition erase_expired ::
  "chrono_env \<Rightarrow> duration \<Rightarrow> time_point \<Rightarrow> (instance_id \<rightharpoonup> instance_state)
     \<Rightarrow> (instance_id \<rightharpoonup> instance_state)" where
  "erase_expired e idle_timeout timestamp instances =
     (\<lambda>i. case instances i of
            None \<Rightarrow> None
          | Some s \<Rightarrow> if expired e idle_timeout timestamp s then None else Some s)"

definition check_idle_timeout :: "chrono_env \<Rightarrow> timer \<Rightarrow> time_point \<Rightarrow> bool \<Rightarrow> timer" where
  "check_idle_timeout e tm timestamp force =
     (if \<not> force \<and> tp_lt e timestamp (tp_add e (t_idle_check_timestamp tm) (t_idle_timeout tm))
      then tm
      else
        let tm = tm\<lparr>t_instances := erase_expired e (t_idle_timeout tm) timestamp (t_instances tm)\<rparr>
        in if tp_lt e (t_idle_check_timestamp tm) timestamp
           then tm\<lparr>t_idle_check_timestamp := timestamp\<rparr> else tm)"

definition timer_start :: "chrono_env \<Rightarrow> timer \<Rightarrow> instance_id \<Rightarrow> time_point \<Rightarrow> timer" where
  "timer_start e tm instance_id timestamp =
     (let tm = check_idle_timeout e tm timestamp False
      in tm\<lparr>t_instances := (t_instances tm)(instance_id \<mapsto>
           \<lparr>start_timestamp = timestamp, heartbeat_timestamp = timestamp\<rparr>)\<rparr>)"

definition timer_stop :: "chrono_env \<Rightarrow> timer \<Rightarrow> instance_id \<Rightarrow> time_point \<Rightarrow> timer result" where
  "timer_stop e tm instance_id timestamp =
     (let tm = check_idle_timeout e tm timestamp False in
      case t_instances tm instance_id of
        None \<Rightarrow> Inr tm
      | Some s \<Rightarrow>
          let erased = (t_instances tm)(instance_id := None) in
          if expired e (t_idle_timeout tm) timestamp s
          then Inr (tm\<lparr>t_instances := erased\<rparr>)
          else
            let instance_value =
              dur_convert_to e value_unit (tp_diff e timestamp (start_timestamp s))
            in bind_result
                 (update e (t_values tm) (real_of_int (sint (m_rep instance_value))) timestamp)
                 (\<lambda>values. Inr (tm\<lparr>t_values := values, t_instances := erased\<rparr>)))"

definition timer_heartbeat :: "chrono_env \<Rightarrow> timer \<Rightarrow> instance_id \<Rightarrow> time_point \<Rightarrow> timer" where
  "timer_heartbeat e tm instance_id timestamp =
     (let tm = check_idle_timeout e tm timestamp False in
      case t_instances tm instance_id of
        None \<Rightarrow> tm
      | Some s \<Rightarrow>
          if expired e (t_idle_timeout tm) timestamp s
          then tm\<lparr>t_instances := (t_instances tm)(instance_id := None)\<rparr>
          else tm\<lparr>t_instances :=
                 (t_instances tm)(instance_id \<mapsto> s\<lparr>heartbeat_timestamp := timestamp\<rparr>)\<rparr>)"

definition timer_discard :: "chrono_env \<Rightarrow> timer \<Rightarrow> instance_id \<Rightarrow> time_point \<Rightarrow> timer" where
  "timer_discard e tm instance_id timestamp =
     (let tm = check_idle_timeout e tm timestamp False
      in tm\<lparr>t_instances := (t_instances tm)(instance_id := None)\<rparr>)"

definition timer_set :: "chrono_env \<Rightarrow> timer \<Rightarrow> duration \<Rightarrow> time_point \<Rightarrow> timer result" where
  "timer_set e tm measurement timestamp =
     bind_result
       (update e (t_values tm)
          (real_of_int (sint (m_rep (dur_convert_to e value_unit measurement)))) timestamp)
       (\<lambda>values. Inr (tm\<lparr>t_values := values\<rparr>))"

definition timer_update_statistics :: "chrono_env \<Rightarrow> timer \<Rightarrow> time_point \<Rightarrow> timer" where
  "timer_update_statistics e tm timestamp =
     tm\<lparr>t_values := update_time e (t_values tm) timestamp\<rparr>"

subsection \<open>Attributes\<close>

text \<open>The variant of value types, in the order of \<open>value_index\<close>. A default-constructed variant holds
  its first type with the value false. C strings are converted to strings first.\<close>

datatype attribute_value =
    A_bool bool
  | A_int int32
  | A_unsigned "32 word"
  | A_int64 int64
  | A_uint64 uint64
  | A_double real
  | A_string string

record attribute = a_value :: attribute_value

definition attribute_new :: attribute where
  "attribute_new = \<lparr>a_value = A_bool False\<rparr>"

definition attribute_set :: "attribute \<Rightarrow> attribute_value \<Rightarrow> attribute" where
  "attribute_set a value = a\<lparr>a_value := value\<rparr>"

subsection \<open>Any metric\<close>

datatype metric = M_counter counter | M_gauge gauge | M_timer timer | M_attribute attribute

fun metric_which :: "metric \<Rightarrow> nat" where
  "metric_which (M_counter c) = 0"
| "metric_which (M_gauge g) = 1"
| "metric_which (M_timer t) = 2"
| "metric_which (M_attribute a) = 3"

end
