(* ===== verification/Pattern.thy ===== *)
theory Pattern
  imports Prelude
begin

section \<open>Name patterns\<close>

text \<open>
  The expansion of patterns with alternatives, such as \<open>a{b,c}d\<close>, of \<open>src/config.cpp\<close>: a recursive
  descent over a C string with a position, and the loop over the alternatives in braces. The two
  functions call each other; they have a fuel argument here, and \<open>expand_terminates\<close> shows that
  the fuel the top level passes is enough. The parser is then proved sound and complete for an
  abstract syntax with its printing and its meaning.
\<close>

subsection \<open>The parser\<close>

definition is_stop :: "bool \<Rightarrow> char \<Rightarrow> bool" where
  "is_stop nested c \<longleftrightarrow> c = CHR 0x00 \<or> c = CHR ''{'' \<or> (nested \<and> (c = CHR ''}'' \<or> c = CHR '',''))"

text \<open>The character at a position; \<open>None\<close> is the zero behind the last character. A zero inside the
  string stops the parser too, since it works on the C string.\<close>

definition sym :: "string \<Rightarrow> nat \<Rightarrow> char option" where
  "sym pattern pos = (if pos < length pattern then Some (pattern ! pos) else None)"

definition preamble_end :: "string \<Rightarrow> nat \<Rightarrow> bool \<Rightarrow> nat" where
  "preamble_end pattern pos nested =
     pos + length (takeWhile (\<lambda>c. \<not> is_stop nested c) (drop pos pattern))"

definition substring :: "string \<Rightarrow> nat \<Rightarrow> nat \<Rightarrow> string" where
  "substring pattern first end_pos = take (end_pos - first) (drop first pattern)"

definition combine :: "string \<Rightarrow> string list \<Rightarrow> string list \<Rightarrow> string list" where
  "combine preamble list_expansion postscript_expansion =
     concat (map (\<lambda>l. map (\<lambda>p. preamble @ l @ p) postscript_expansion) list_expansion)"

fun expand_pattern_at :: "nat \<Rightarrow> string \<Rightarrow> nat \<Rightarrow> bool \<Rightarrow> (string list \<times> nat) result option"
and expand_list :: "nat \<Rightarrow> string \<Rightarrow> nat \<Rightarrow> string list \<Rightarrow> (string list \<times> nat) result option" where
  "expand_pattern_at 0 pattern pos nested = None"
| "expand_pattern_at (Suc fuel) pattern pos nested =
     (let stop = preamble_end pattern pos nested;
          preamble = substring pattern pos stop
      in if sym pattern stop \<noteq> Some (CHR ''{'') then Some (Inr ([preamble], stop))
         else case expand_list fuel pattern (stop + 1) [] of
                None \<Rightarrow> None
              | Some (Inl x) \<Rightarrow> Some (Inl x)
              | Some (Inr (list_expansion, list_end)) \<Rightarrow>
                  (case expand_pattern_at fuel pattern (list_end + 1) nested of
                     None \<Rightarrow> None
                   | Some (Inl x) \<Rightarrow> Some (Inl x)
                   | Some (Inr (postscript_expansion, postscript_end)) \<Rightarrow>
                       Some (Inr (combine preamble list_expansion postscript_expansion,
                                  postscript_end))))"
| "expand_list 0 pattern list_end list_expansion = None"
| "expand_list (Suc fuel) pattern list_end list_expansion =
     (case expand_pattern_at fuel pattern list_end True of
        None \<Rightarrow> None
      | Some (Inl x) \<Rightarrow> Some (Inl x)
      | Some (Inr (sublist_expansion, list_end)) \<Rightarrow>
          let list_expansion = list_expansion @ sublist_expansion in
          if sym pattern list_end = Some (CHR '','')
          then expand_list fuel pattern (list_end + 1) list_expansion
          else if sym pattern list_end = Some (CHR ''}'')
          then Some (Inr (list_expansion, list_end))
          else Some (Inl Logic_error))"

definition pattern_fuel :: "string \<Rightarrow> nat" where
  "pattern_fuel pattern = 2 * length pattern + 2"

definition expand_pattern :: "string \<Rightarrow> string list result" where
  "expand_pattern pattern =
     (case expand_pattern_at (pattern_fuel pattern) pattern 0 False of
        Some (Inr (expansion, pos)) \<Rightarrow>
          if pos = length pattern then Inr expansion else Inl Logic_error
      | _ \<Rightarrow> Inl Logic_error)"

subsection \<open>Positions\<close>

lemma sym_Some: "sym s i = Some c \<longleftrightarrow> i < length s \<and> s ! i = c"
  by (simp add: sym_def)

lemma preamble_end_bounds: "pos \<le> length s \<Longrightarrow> pos \<le> preamble_end s pos n \<and> preamble_end s pos n \<le> length s"
  using length_takeWhile_le [of "\<lambda>c. \<not> is_stop n c" "drop pos s"] by (simp add: preamble_end_def)

lemma substring_append:
  assumes "a \<le> b" "b \<le> c"
  shows "substring s a b @ substring s b c = substring s a c"
proof -
  have "c - a = (b - a) + (c - b)" using assms by simp
  then show ?thesis using assms by (simp only: substring_def take_add drop_drop le_add_diff_inverse2)
qed

lemma substring_one: "i < length s \<Longrightarrow> substring s i (Suc i) = [s ! i]"
  by (simp add: substring_def take_Suc_conv_app_nth)

lemma substring_all: "substring s 0 (length s) = s"
  by (simp add: substring_def)

text \<open>Where the parsing functions end, on success.\<close>

lemma expand_bounds:
  "expand_pattern_at f s pos n = Some (Inr (ex, q)) \<Longrightarrow> pos \<le> length s \<Longrightarrow> pos \<le> q \<and> q \<le> length s"
  "expand_list f s pos acc = Some (Inr (ex, q)) \<Longrightarrow> pos \<le> length s \<Longrightarrow> pos \<le> q \<and> q < length s"
proof (induction f s pos n and f s pos acc arbitrary: ex q and ex q
    rule: expand_pattern_at_expand_list.induct)
  case (2 fuel s pos n)
  let ?stop = "preamble_end s pos n"
  have b: "pos \<le> ?stop" "?stop \<le> length s" using preamble_end_bounds "2.prems"(2) by simp_all
  show ?case
  proof (cases "sym s ?stop = Some (CHR ''{'')")
    case False
    then show ?thesis using "2.prems" b by (simp add: Let_def)
  next
    case True
    then obtain le l pe where r: "expand_list fuel s (?stop + 1) [] = Some (Inr (le, l))"
      "expand_pattern_at fuel s (l + 1) n = Some (Inr (pe, q))"
      using "2.prems"(1) by (auto simp: Let_def split: option.splits sum.splits)
    have "?stop + 1 \<le> length s" using True by (simp add: sym_Some Suc_le_eq)
    then have l: "?stop + 1 \<le> l" "l < length s"
      using "2.IH"(1) [OF refl refl _ r(1)] True by simp_all
    then show ?thesis using "2.IH"(2) [OF refl refl _ r(1) refl refl r(2)] True b by simp
  qed
next
  case (4 fuel s pos acc)
  obtain sub l where r: "expand_pattern_at fuel s pos True = Some (Inr (sub, l))"
    using "4.prems"(1) by (auto split: option.splits sum.splits)
  then have l: "pos \<le> l" "l \<le> length s" using "4.IH"(1) "4.prems"(2) by simp_all
  show ?case
  proof (cases "sym s l = Some (CHR '','')")
    case True
    then have "expand_list fuel s (l + 1) (acc @ sub) = Some (Inr (ex, q))"
      using "4.prems"(1) r by (simp add: Let_def)
    then show ?thesis using "4.IH"(2) [OF r refl refl refl True] l True by (simp add: sym_Some)
  next
    case False
    then show ?thesis using "4.prems"(1) r l by (auto simp: Let_def sym_Some split: if_splits)
  qed
qed simp_all

subsection \<open>Enough fuel\<close>

lemma expand_fuel:
  "2 * (length s - pos) + 2 \<le> f \<Longrightarrow> pos \<le> length s \<Longrightarrow> expand_pattern_at f s pos n \<noteq> None"
  "2 * (length s - pos) + 3 \<le> f \<Longrightarrow> pos \<le> length s \<Longrightarrow> expand_list f s pos acc \<noteq> None"
proof (induction f s pos n and f s pos acc rule: expand_pattern_at_expand_list.induct)
  case (2 fuel s pos n)
  let ?stop = "preamble_end s pos n"
  have b: "pos \<le> ?stop" "?stop \<le> length s" using preamble_end_bounds "2.prems"(2) by simp_all
  show ?case
  proof (cases "sym s ?stop = Some (CHR ''{'')")
    case True
    then have lt: "?stop < length s" by (simp add: sym_Some)
    have list: "expand_list fuel s (?stop + 1) [] \<noteq> None"
      using "2.IH"(1) [OF refl refl] True lt b "2.prems" by simp
    have post: "expand_pattern_at fuel s (l + 1) n \<noteq> None"
      if "expand_list fuel s (?stop + 1) [] = Some (Inr (le, l))" for le l
    proof -
      have l: "?stop + 1 \<le> l" "l < length s" using expand_bounds(2) [OF that] lt by simp_all
      then have "2 * (length s - (l + 1)) + 2 \<le> fuel" using "2.prems"(1) b by linarith
      then show ?thesis using "2.IH"(2) [OF refl refl _ that refl refl] True l by simp
    qed
    show ?thesis using list post by (auto simp: Let_def split: option.splits sum.splits)
  qed (simp add: Let_def)
next
  case (4 fuel s pos acc)
  have first: "expand_pattern_at fuel s pos True \<noteq> None" using "4.IH"(1) "4.prems" by simp
  have rest: "expand_list fuel s (l + 1) (acc @ sub) \<noteq> None"
    if "expand_pattern_at fuel s pos True = Some (Inr (sub, l))" "sym s l = Some (CHR '','')" for sub l
  proof -
    have l: "pos \<le> l" "l < length s" using expand_bounds(1) [OF that(1)] "4.prems"(2) that(2)
      by (simp_all add: sym_Some)
    then have "2 * (length s - (l + 1)) + 3 \<le> fuel" using "4.prems"(1) by linarith
    then show ?thesis using "4.IH"(2) [OF that(1) refl refl refl that(2)] l by simp
  qed
  show ?case using first rest by (auto simp: Let_def split: option.splits sum.splits)
qed simp_all

lemma expand_only_logic_error:
  "expand_pattern_at f s pos n = Some (Inl x) \<Longrightarrow> x = Logic_error"
  "expand_list f s pos acc = Some (Inl x) \<Longrightarrow> x = Logic_error"
  by (induction f s pos n and f s pos acc arbitrary: x and x
      rule: expand_pattern_at_expand_list.induct)
    (auto simp: Let_def split: option.splits sum.splits if_splits)

subsection \<open>Abstract syntax\<close>

datatype pat = Word string | Group string "pat list" pat

fun intersperse :: "string list \<Rightarrow> string" where
  "intersperse [] = []"
| "intersperse [x] = x"
| "intersperse (x # y # xs) = x @ CHR '','' # intersperse (y # xs)"

fun show_pat :: "pat \<Rightarrow> string" where
  "show_pat (Word w) = w"
| "show_pat (Group w ps post) = w @ CHR ''{'' # intersperse (map show_pat ps) @ CHR ''}'' # show_pat post"

fun names_of :: "pat \<Rightarrow> string list" where
  "names_of (Word w) = [w]"
| "names_of (Group w ps post) =
     [w @ alternative @ continuation.
        alternative \<leftarrow> concat (map names_of ps), continuation \<leftarrow> names_of post]"

text \<open>The nested loops that combine the expansions build the product.\<close>

lemma combine_product:
  "combine w les pes = [w @ le @ pe. le \<leftarrow> les, pe \<leftarrow> pes]"
  by (simp add: combine_def)

definition plain_word :: "bool \<Rightarrow> string \<Rightarrow> bool" where
  "plain_word nested w \<longleftrightarrow> (\<forall>c\<in>set w. \<not> is_stop nested c)"

fun well_formed :: "bool \<Rightarrow> pat \<Rightarrow> bool" where
  "well_formed nested (Word w) \<longleftrightarrow> plain_word nested w"
| "well_formed nested (Group w ps post) \<longleftrightarrow>
     plain_word nested w \<and> ps \<noteq> [] \<and> (\<forall>p\<in>set ps. well_formed True p) \<and> well_formed nested post"

text \<open>What may follow a pattern: nothing at the top level, a delimiter inside braces.\<close>

definition stops :: "bool \<Rightarrow> string \<Rightarrow> bool" where
  "stops nested s \<longleftrightarrow> s = [] \<or> (nested \<and> (hd s = CHR ''}'' \<or> hd s = CHR '',''))"

lemma takeWhile_word:
  assumes "plain_word n w" "s = [] \<or> is_stop n (hd s)"
  shows "takeWhile (\<lambda>c. \<not> is_stop n c) (w @ s) = w"
  using assms by (cases s) (auto simp: plain_word_def takeWhile_append)

lemma stops_is_stop: "stops n s \<Longrightarrow> s = [] \<or> is_stop n (hd s)"
  by (auto simp: stops_def is_stop_def)

lemma sym_at: "sym (pre @ s) (length pre) = (if s = [] then None else Some (hd s))"
  by (cases s) (simp_all add: sym_def)

lemma substring_at: "substring (pre @ w @ s) (length pre) (length pre + length w) = w"
  by (simp add: substring_def)

lemma preamble_at:
  assumes "plain_word n w" "s = [] \<or> is_stop n (hd s)"
  shows "preamble_end (pre @ w @ s) (length pre) n = length pre + length w"
  using takeWhile_word [OF assms] by (simp add: preamble_end_def)

subsection \<open>The parser accepts what is printed\<close>

lemma expand_word:
  assumes "plain_word n w" "stops n s"
  shows "expand_pattern_at (Suc f) (pre @ w @ s) (length pre) n = Some (Inr ([w], length pre + length w))"
proof -
  have "sym (pre @ w @ s) (length pre + length w) \<noteq> Some (CHR ''{'')"
    using assms(2) sym_at [of "pre @ w" s] by (auto simp: stops_def)
  then show ?thesis
    using preamble_at [OF assms(1) stops_is_stop [OF assms(2)]] by (simp add: Let_def substring_at)
qed

text \<open>What is to be shown of a pattern: parsed anywhere, it gives its names and ends behind it.\<close>

definition parses :: "pat \<Rightarrow> bool" where
  "parses p \<longleftrightarrow> (\<forall>n pre s f. well_formed n p \<longrightarrow> stops n s \<longrightarrow>
     2 * (length (show_pat p) + length s) + 2 \<le> f \<longrightarrow>
     expand_pattern_at f (pre @ show_pat p @ s) (length pre) n
       = Some (Inr (names_of p, length pre + length (show_pat p))))"

lemma parsesD:
  assumes "parses p" "well_formed n p" "stops n s" "2 * (length (show_pat p) + length s) + 2 \<le> f"
    and "t = pre @ show_pat p @ s" "i = length pre"
  shows "expand_pattern_at f t i n = Some (Inr (names_of p, length pre + length (show_pat p)))"
  using assms unfolding parses_def by blast

lemma expand_list_prints:
  assumes "ps \<noteq> []" "\<forall>p\<in>set ps. parses p \<and> well_formed True p"
    and "2 * (length (intersperse (map show_pat ps)) + length s) + 5 \<le> f"
  shows "expand_list f (pre @ intersperse (map show_pat ps) @ CHR ''}'' # s) (length pre) acc
    = Some (Inr (acc @ concat (map names_of ps), length pre + length (intersperse (map show_pat ps))))"
  using assms
proof (induction ps arbitrary: pre acc f rule: induct_list012)
  case (2 p)
  let ?t = "pre @ show_pat p @ CHR ''}'' # s"
  obtain g where f: "f = Suc g" using "2.prems"(3) by (cases f) simp_all
  have "expand_pattern_at g ?t (length pre) True
      = Some (Inr (names_of p, length pre + length (show_pat p)))"
    using "2.prems" by (intro parsesD [where s = "CHR ''}'' # s"]) (simp_all add: stops_def f)
  moreover have "sym ?t (length pre + length (show_pat p)) = Some (CHR ''}'')"
    using sym_at [of "pre @ show_pat p" "CHR ''}'' # s"] by simp
  ultimately show ?case by (simp add: f Let_def)
next
  case (3 p q ps)
  let ?rest = "intersperse (map show_pat (q # ps))"
  let ?t = "pre @ show_pat p @ CHR '','' # ?rest @ CHR ''}'' # s"
  obtain g where f: "f = Suc g" using "3.prems"(3) by (cases f) simp_all
  have "expand_pattern_at g ?t (length pre) True
      = Some (Inr (names_of p, length pre + length (show_pat p)))"
    using "3.prems" by (intro parsesD [where s = "CHR '','' # ?rest @ CHR ''}'' # s"])
      (simp_all add: stops_def f)
  moreover have "sym ?t (length pre + length (show_pat p)) = Some (CHR '','')"
    using sym_at [of "pre @ show_pat p" "CHR '','' # ?rest @ CHR ''}'' # s"] by simp
  moreover have "expand_list g ((pre @ show_pat p @ [CHR '','']) @ ?rest @ CHR ''}'' # s)
      (length (pre @ show_pat p @ [CHR '',''])) (acc @ names_of p)
    = Some (Inr ((acc @ names_of p) @ concat (map names_of (q # ps)),
        length (pre @ show_pat p @ [CHR '','']) + length ?rest))"
    using "3.prems" by (intro "3.IH"(2)) (simp_all add: f)
  ultimately show ?case by (simp add: f Let_def)
qed simp

lemma parses_all: "parses p"
proof (induction p)
  case (Word w)
  show ?case
    unfolding parses_def
  proof (intro allI impI)
    fix n pre s f
    assume a: "well_formed n (Word w)" "stops n s" "2 * (length (show_pat (Word w)) + length s) + 2 \<le> f"
    then obtain g where "f = Suc g" by (cases f) simp_all
    then show "expand_pattern_at f (pre @ show_pat (Word w) @ s) (length pre) n
      = Some (Inr (names_of (Word w), length pre + length (show_pat (Word w))))"
      using a expand_word [of n w s g pre] by simp
  qed
next
  case (Group w ps post)
  show ?case
    unfolding parses_def
  proof (intro allI impI)
    fix n pre s f
    let ?p = "Group w ps post"
    let ?list = "intersperse (map show_pat ps)"
    let ?t = "pre @ show_pat ?p @ s"
    assume a: "well_formed n ?p" "stops n s" "2 * (length (show_pat ?p) + length s) + 2 \<le> f"
    then obtain g where f: "f = Suc g" by (cases f) simp_all
    have stop: "preamble_end ?t (length pre) n = length pre + length w"
      using a(1) preamble_at [of n w "CHR ''{'' # ?list @ CHR ''}'' # show_pat post @ s" pre]
      by (simp add: is_stop_def)
    have word: "substring ?t (length pre) (length pre + length w) = w"
      using substring_at [of pre w "CHR ''{'' # ?list @ CHR ''}'' # show_pat post @ s"] by simp
    have brace: "sym ?t (length pre + length w) = Some (CHR ''{'')"
      using sym_at [of "pre @ w" "CHR ''{'' # ?list @ CHR ''}'' # show_pat post @ s"] by simp
    have list: "expand_list g ?t (length pre + length w + 1) []
      = Some (Inr (concat (map names_of ps), length pre + length w + 1 + length ?list))"
      using expand_list_prints [of ps "show_pat post @ s" g "pre @ w @ [CHR ''{'']" "[]"] a Group.IH(1)
      by (simp add: f)
    have "expand_pattern_at g ?t (length pre + length w + 1 + length ?list + 1) n
      = Some (Inr (names_of post,
          length (pre @ w @ CHR ''{'' # ?list @ [CHR ''}'']) + length (show_pat post)))"
      using a Group.IH(2) by (intro parsesD [where s = s]) (simp_all add: f)
    with list stop word brace
    show "expand_pattern_at f ?t (length pre) n
      = Some (Inr (names_of ?p, length pre + length (show_pat ?p)))"
      by (simp add: f Let_def combine_product)
  qed
qed

lemma expand_show: "well_formed False p \<Longrightarrow> expand_pattern (show_pat p) = Inr (names_of p)"
  using parsesD [OF parses_all, of False p "[]" "pattern_fuel (show_pat p)" "show_pat p" "[]" 0]
  by (simp add: expand_pattern_def stops_def pattern_fuel_def)

subsection \<open>The parser accepts nothing else\<close>

lemma preamble_plain: "plain_word n (substring s pos (preamble_end s pos n))"
proof -
  have "substring s pos (preamble_end s pos n) = takeWhile (\<lambda>c. \<not> is_stop n c) (drop pos s)"
    by (simp add: substring_def preamble_end_def takeWhile_eq_take [symmetric])
  then show ?thesis by (auto simp: plain_word_def dest: set_takeWhileD)
qed

lemma intersperse_Cons: "xs \<noteq> [] \<Longrightarrow> intersperse (x # xs) = x @ CHR '','' # intersperse xs"
  by (cases xs) simp_all

lemma expand_sound:
  "expand_pattern_at f s pos n = Some (Inr (ex, q)) \<Longrightarrow> pos \<le> length s \<Longrightarrow>
     \<exists>p. well_formed n p \<and> substring s pos q = show_pat p \<and> ex = names_of p"
  "expand_list f s pos acc = Some (Inr (ex, q)) \<Longrightarrow> pos \<le> length s \<Longrightarrow>
     (\<exists>ps. ps \<noteq> [] \<and> (\<forall>p\<in>set ps. well_formed True p)
        \<and> substring s pos q = intersperse (map show_pat ps) \<and> ex = acc @ concat (map names_of ps))
     \<and> sym s q = Some (CHR ''}'')"
proof (induction f s pos n and f s pos acc arbitrary: ex q and ex q
    rule: expand_pattern_at_expand_list.induct)
  case (2 fuel s pos n)
  let ?stop = "preamble_end s pos n"
  have b: "pos \<le> ?stop" "?stop \<le> length s" using preamble_end_bounds "2.prems"(2) by simp_all
  show ?case
  proof (cases "sym s ?stop = Some (CHR ''{'')")
    case False
    then show ?thesis
      using "2.prems" preamble_plain by (intro exI [of _ "Word (substring s pos q)"]) (auto simp: Let_def)
  next
    case True
    then obtain le l pe where r: "expand_list fuel s (?stop + 1) [] = Some (Inr (le, l))"
      "expand_pattern_at fuel s (l + 1) n = Some (Inr (pe, q))"
      "ex = combine (substring s pos ?stop) le pe"
      using "2.prems"(1) by (auto simp: Let_def split: option.splits sum.splits)
    have lt: "?stop < length s" "s ! ?stop = CHR ''{''" using True by (simp_all add: sym_Some)
    have l: "?stop + 1 \<le> l" "l < length s" using expand_bounds(2) [OF r(1)] lt by simp_all
    have q: "l + 1 \<le> q" "q \<le> length s" using expand_bounds(1) [OF r(2)] l by simp_all
    obtain ps where ps: "ps \<noteq> []" "\<forall>p\<in>set ps. well_formed True p"
      "substring s (?stop + 1) l = intersperse (map show_pat ps)" "le = concat (map names_of ps)"
      and brace: "sym s l = Some (CHR ''}'')"
      using "2.IH"(1) [OF refl refl _ r(1)] True lt by auto
    obtain post where post: "well_formed n post" "substring s (l + 1) q = show_pat post"
      "pe = names_of post"
      using "2.IH"(2) [OF refl refl _ r(1) refl refl r(2)] True l by auto
    have "substring s pos q = substring s pos ?stop @ substring s ?stop (?stop + 1)
        @ substring s (?stop + 1) l @ substring s l (l + 1) @ substring s (l + 1) q"
      using b l q by (simp add: substring_append)
    then have "substring s pos q = show_pat (Group (substring s pos ?stop) ps post)"
      using lt l brace ps(3) post(2) by (simp add: substring_one sym_Some)
    then show ?thesis
      using ps post r(3) preamble_plain
      by (intro exI [of _ "Group (substring s pos ?stop) ps post"]) (simp add: combine_product)
  qed
next
  case (4 fuel s pos acc)
  obtain sub l where r: "expand_pattern_at fuel s pos True = Some (Inr (sub, l))"
    using "4.prems"(1) by (auto split: option.splits sum.splits)
  then have l: "pos \<le> l" "l \<le> length s" using expand_bounds(1) [OF r] "4.prems"(2) by simp_all
  obtain p where p: "well_formed True p" "substring s pos l = show_pat p" "sub = names_of p"
    using "4.IH"(1) [OF r "4.prems"(2)] by blast
  show ?case
  proof (cases "sym s l = Some (CHR '','')")
    case True
    then have e: "expand_list fuel s (l + 1) (acc @ sub) = Some (Inr (ex, q))"
      using "4.prems"(1) r by (simp add: Let_def)
    have lt: "l < length s" "s ! l = CHR '',''" using True by (simp_all add: sym_Some)
    have q: "l + 1 \<le> q" using expand_bounds(2) [OF e] lt by simp
    obtain ps where ps: "ps \<noteq> []" "\<forall>p\<in>set ps. well_formed True p"
      "substring s (l + 1) q = intersperse (map show_pat ps)"
      "ex = (acc @ sub) @ concat (map names_of ps)" "sym s q = Some (CHR ''}'')"
      using "4.IH"(2) [OF r refl refl refl True e] lt by auto
    have "substring s pos q = substring s pos l @ substring s l (l + 1) @ substring s (l + 1) q"
      using l q by (simp add: substring_append)
    then have "substring s pos q = intersperse (map show_pat (p # ps))"
      using lt p ps(1,3) by (simp add: substring_one intersperse_Cons)
    then show ?thesis using p ps by (auto intro!: exI [of _ "p # ps"])
  next
    case False
    then show ?thesis
      using "4.prems"(1) r p by (auto simp: Let_def split: if_splits intro!: exI [of _ "[p]"])
  qed
qed simp_all

subsection \<open>The grammar in the comment\<close>

text \<open>The grammar above \<open>expand_pattern\<close> in the source: no word has a special symbol, inside braces or
  outside. The code looks for the closing brace and the comma inside braces only.\<close>

definition special_symbol :: "char \<Rightarrow> bool" where
  "special_symbol c \<longleftrightarrow> c = CHR ''{'' \<or> c = CHR ''}'' \<or> c = CHR '',''"

definition grammar_word :: "string \<Rightarrow> bool" where
  "grammar_word w \<longleftrightarrow> (\<forall>c\<in>set w. c \<noteq> CHR 0x00 \<and> \<not> special_symbol c)"

fun documented :: "pat \<Rightarrow> bool" where
  "documented (Word w) \<longleftrightarrow> grammar_word w"
| "documented (Group w ps post) \<longleftrightarrow>
     grammar_word w \<and> ps \<noteq> [] \<and> (\<forall>p\<in>set ps. documented p) \<and> documented post"

text \<open>The words of a pattern that are outside all braces.\<close>

fun outer_words :: "pat \<Rightarrow> string list" where
  "outer_words (Word w) = [w]"
| "outer_words (Group w ps post) = w # outer_words post"

lemma grammar_word_plain:
  "grammar_word w \<longleftrightarrow> plain_word True w"
  "grammar_word w \<longleftrightarrow> plain_word False w \<and> CHR ''}'' \<notin> set w \<and> CHR '','' \<notin> set w"
  by (auto simp: grammar_word_def plain_word_def is_stop_def special_symbol_def)

lemma documented_nested: "documented p \<longleftrightarrow> well_formed True p"
  by (induction p) (simp_all add: grammar_word_plain(1))

lemma documented_outer:
  "documented p \<longleftrightarrow> well_formed False p
     \<and> (\<forall>w\<in>set (outer_words p). CHR ''}'' \<notin> set w \<and> CHR '','' \<notin> set w)"
proof (induction p)
  case (Word w)
  show ?case by (simp add: grammar_word_plain(2))
next
  case (Group w ps post)
  have "(\<forall>q\<in>set ps. documented q) \<longleftrightarrow> (\<forall>q\<in>set ps. well_formed True q)"
    by (simp add: documented_nested)
  then show ?case using Group.IH(2) by (auto simp: grammar_word_plain(2))
qed

lemma comma_not_documented: "show_pat p = ''a,b'' \<Longrightarrow> \<not> documented p"
proof (cases p)
  case (Group w ps post)
  assume "show_pat p = ''a,b''"
  moreover have "CHR ''{'' \<in> set (show_pat p)" using Group by simp
  ultimately have False by (simp only:) simp
  then show ?thesis ..
qed (simp add: grammar_word_def special_symbol_def)

subsection \<open>Properties\<close>

text \<open>C11: The expansion of a pattern succeeds on exactly the strings of a grammar (a word, or a word, a
  list of patterns in braces and a pattern, where a word has no opening brace, and inside braces no
  closing brace and no comma either), and yields the names the pattern stands for in order; on any
  other string it fails with a logic error, and it returns on every string. The grammar in the
  comment of the source is the part in which no word outside braces has a closing brace or a comma
  either; the code accepts more, for instance \<open>a,b\<close>, which it takes for one name.\<close>

theorem expand_pattern_is_the_grammar:
  "(expand_pattern s = Inr names)
     = (\<exists>p. well_formed False p \<and> show_pat p = s \<and> names_of p = names)
   \<and> (expand_pattern s = Inl x) = (x = Logic_error \<and> (\<nexists>p. well_formed False p \<and> show_pat p = s))
   \<and> expand_pattern_at (pattern_fuel s) s 0 False \<noteq> None
   \<and> documented p = (well_formed False p
        \<and> (\<forall>w\<in>set (outer_words p). CHR ''}'' \<notin> set w \<and> CHR '','' \<notin> set w))
   \<and> expand_pattern ''a,b'' = Inr [''a,b'']
   \<and> (\<nexists>q. documented q \<and> show_pat q = ''a,b'')"
proof -
  have fuel: "expand_pattern_at (pattern_fuel s) s 0 False \<noteq> None"
    by (rule expand_fuel(1)) (simp_all add: pattern_fuel_def)
  have sound: "\<exists>p. well_formed False p \<and> show_pat p = s \<and> names_of p = ns"
    if "expand_pattern s = Inr ns" for ns
  proof -
    have "expand_pattern_at (pattern_fuel s) s 0 False = Some (Inr (ns, length s))"
      using that by (auto simp: expand_pattern_def split: option.splits sum.splits if_splits)
    then show ?thesis using expand_sound(1) by (fastforce simp: substring_all)
  qed
  have "(expand_pattern s = Inr names)
      = (\<exists>p. well_formed False p \<and> show_pat p = s \<and> names_of p = names)"
    using sound expand_show by blast
  moreover have "x = Logic_error" if "expand_pattern s = Inl x"
    using that by (auto simp: expand_pattern_def split: option.splits sum.splits if_splits)
  moreover have "(\<exists>ns. expand_pattern s = Inr ns) \<or> expand_pattern s = Inl Logic_error"
    by (auto simp: expand_pattern_def split: option.splits sum.splits)
  ultimately have exact: "(expand_pattern s = Inr names)
      = (\<exists>p. well_formed False p \<and> show_pat p = s \<and> names_of p = names)
    \<and> (expand_pattern s = Inl x) = (x = Logic_error \<and> (\<nexists>p. well_formed False p \<and> show_pat p = s))"
    using sound expand_show by (metis Inl_Inr_False)
  have "expand_pattern ''a,b'' = Inr [''a,b'']"
    using expand_show [of "Word ''a,b''"] by (simp add: plain_word_def is_stop_def)
  then show ?thesis using exact fuel documented_outer [of p] comma_not_documented by blast
qed

theorem expand_pattern_is_the_grammar_witness:
  "expand_pattern ''a{b,c}'' = Inr [''ab'', ''ac''] \<and> expand_pattern ''a,b'' = Inr [''a,b'']"
proof -
  have "\<exists>p. well_formed False p \<and> show_pat p = ''a{b,c}'' \<and> names_of p = [''ab'', ''ac'']"
    by (rule exI [of _ "Group ''a'' [Word ''b'', Word ''c''] (Word [])"])
      (simp add: plain_word_def is_stop_def)
  then show ?thesis
    using expand_pattern_is_the_grammar [of "''a{b,c}''" "[''ab'', ''ac'']"] by blast
qed

end
