(* ===== verification/Config.thy ===== *)
theory Config
  imports Metrics Pattern
begin

section \<open>Configuration\<close>

text \<open>
  The global options of \<open>src/config.cpp\<close> and how a JSON document changes them: the sections of the
  old and of the new format, and the patterns that give options to groups of metric names. The
  parser of documents is an argument (\<open>None\<close> for a parse error), as are \<open>fnmatch\<close> and the document
  operations. A pattern refers to its JSON value inside the document that is kept.
\<close>

record 'v config_state =
  cfg_statistics :: stat_config
  cfg_gauge :: gauge_opts
  cfg_counter :: counter_opts
  cfg_timer :: timer_opts
  cfg_dump_interval :: duration
  cfg_core_enable :: bool
  pattern_opts :: "(string list \<times> 'v) list"

definition dump_interval_default :: duration where
  "dump_interval_default = dur 750 MSEC"

definition core_enable_default :: bool where
  "core_enable_default = True"

definition config_reset :: "'v config_state" where
  "config_reset =
     \<lparr>cfg_statistics = stat_config_default, cfg_gauge = gauge_opts_default,
      cfg_counter = counter_opts_default, cfg_timer = timer_opts_default,
      cfg_dump_interval = dump_interval_default, cfg_core_enable = core_enable_default,
      pattern_opts = []\<rparr>"

text \<open>The options when the program is loaded.\<close>

definition init_opts :: "'v config_state \<Rightarrow> 'v config_state" where
  "init_opts st = config_reset"

definition config_initialize :: "'v config_state \<Rightarrow> 'v config_state" where
  "config_initialize st = config_reset"

definition config_finalize :: "'v config_state \<Rightarrow> 'v config_state" where
  "config_finalize st = config_reset"

subsection \<open>Core and dump options\<close>

definition configure_core :: "'v rapidjson \<Rightarrow> bool \<Rightarrow> 'v \<Rightarrow> bool" where
  "configure_core J enable config =
     (if \<not> jIsObject J config then enable
      else if jHasMember J config ''enable'' then
        let v = jMember J config ''enable'' in if jIsBool J v then jGetBool J v else enable
      else enable)"

definition configure_metrics_dump :: "'v rapidjson \<Rightarrow> duration \<Rightarrow> 'v \<Rightarrow> duration" where
  "configure_metrics_dump J interval config =
     (if \<not> jIsObject J config then interval
      else if jHasMember J config ''interval'' then
        let v = jMember J config ''interval'' in
        if jIsUint64 J v then dur (jGetUint64 J v) MSEC else interval
      else interval)"

subsection \<open>Selecting options by name\<close>

text \<open>The first group, in the order of the document, with a pattern that matches.\<close>

fun select_pattern :: "(string \<Rightarrow> string \<Rightarrow> bool) \<Rightarrow> (string list \<times> 'v) list \<Rightarrow> string \<Rightarrow> 'v option" where
  "select_pattern fnmatch [] name = None"
| "select_pattern fnmatch ((pattern_group, pattern_cfg) # rest) name =
     (if list_ex (\<lambda>p. fnmatch p name) pattern_group then Some pattern_cfg
      else select_pattern fnmatch rest name)"

subsection \<open>Reading a document\<close>

definition configure_defaults ::
  "'v rapidjson \<Rightarrow> 'v config_state \<Rightarrow> 'v \<Rightarrow> 'v config_state result" where
  "configure_defaults J st statistics_config =
     bind_result (configure_statistics J (cfg_statistics st) statistics_config) (\<lambda>s.
     bind_result (configure_statistics J (go_values (cfg_gauge st)) statistics_config) (\<lambda>g.
     bind_result (configure_statistics J (co_values (cfg_counter st)) statistics_config) (\<lambda>c.
     bind_result (configure_statistics J (to_values (cfg_timer st)) statistics_config) (\<lambda>t.
       Inr (st\<lparr>cfg_statistics := s,
               cfg_gauge := (cfg_gauge st)\<lparr>go_values := g\<rparr>,
               cfg_counter := (cfg_counter st)\<lparr>co_values := c\<rparr>,
               cfg_timer := (cfg_timer st)\<lparr>to_values := t\<rparr>\<rparr>)))))"

text \<open>The sections \<open>gauge\<close>, \<open>counter\<close> and \<open>timer\<close> of a value, in this order. The code asks the value
  for its members without a look at its type, which RapidJSON asserts to be an object.\<close>

definition configure_kinds ::
  "'v rapidjson \<Rightarrow> 'v config_state \<Rightarrow> 'v \<Rightarrow> 'v config_state result" where
  "configure_kinds J st cfg =
     (if \<not> jIsObject J cfg then Inl Not_an_object
      else bind_result
       (if jHasMember J cfg ''gauge''
        then bind_result (configure_gauge J (cfg_gauge st) (jMember J cfg ''gauge''))
               (\<lambda>g. Inr (st\<lparr>cfg_gauge := g\<rparr>))
        else Inr st) (\<lambda>st.
     bind_result
       (if jHasMember J cfg ''counter''
        then bind_result (configure_counter J (cfg_counter st) (jMember J cfg ''counter''))
               (\<lambda>c. Inr (st\<lparr>cfg_counter := c\<rparr>))
        else Inr st) (\<lambda>st.
       if jHasMember J cfg ''timer''
       then bind_result (configure_timer J (cfg_timer st) (jMember J cfg ''timer''))
              (\<lambda>t. Inr (st\<lparr>cfg_timer := t\<rparr>))
       else Inr st)))"

definition configure_old_format ::
  "'v rapidjson \<Rightarrow> 'v config_state \<Rightarrow> 'v \<Rightarrow> 'v config_state result" where
  "configure_old_format J st cfg =
     bind_result
       (if jHasMember J cfg ''statistics''
        then configure_defaults J st (jMember J cfg ''statistics'') else Inr st) (\<lambda>st.
     bind_result
       (if jHasMember J cfg ''metrics''
        then configure_kinds J st (jMember J cfg ''metrics'') else Inr st) (\<lambda>st.
       let st = (if jHasMember J cfg ''metrics-dump''
                 then st\<lparr>cfg_dump_interval := configure_metrics_dump J (cfg_dump_interval st)
                          (jMember J cfg ''metrics-dump'')\<rparr> else st);
           st = (if jHasMember J cfg ''core''
                 then st\<lparr>cfg_core_enable := configure_core J (cfg_core_enable st)
                          (jMember J cfg ''core'')\<rparr> else st)
       in Inr st))"

definition configure_new_format ::
  "'v rapidjson \<Rightarrow> 'v config_state \<Rightarrow> 'v \<Rightarrow> 'v config_state result" where
  "configure_new_format J st cfg =
     bind_result
       (if jHasMember J cfg ''defaults''
        then configure_defaults J st (jMember J cfg ''defaults'') else Inr st) (\<lambda>st.
     bind_result (configure_kinds J st cfg) (\<lambda>st.
       let st = (if jHasMember J cfg ''dump-interval'' then
                   let v = jMember J cfg ''dump-interval'' in
                   if jIsUint64 J v
                   then st\<lparr>cfg_dump_interval := dur (jGetUint64 J v) MSEC\<rparr> else st
                 else st);
           st = (if jHasMember J cfg ''enable'' then
                   let v = jMember J cfg ''enable'' in
                   if jIsBool J v then st\<lparr>cfg_core_enable := jGetBool J v\<rparr> else st
                 else st)
       in Inr st))"

definition reserved_sections :: "string list" where
  "reserved_sections =
     [''statistics'', ''metrics'', ''metrics-dump'', ''core'',
      ''defaults'', ''gauge'', ''counter'', ''timer'', ''dump-interval'', ''enable'']"

text \<open>The loop over the members: a logic error of the expansion is caught and ends the call with
  \<open>false\<close>; what the loop and the sections have stored so far stays.\<close>

fun configure_patterns ::
  "'v config_state \<Rightarrow> (string \<times> 'v) list \<Rightarrow> ('v config_state \<times> bool) result" where
  "configure_patterns st [] = Inr (st, True)"
| "configure_patterns st ((member_name, member_value) # rest) =
     (if member_name \<in> set reserved_sections then configure_patterns st rest
      else case expand_pattern member_name of
             Inr expansion \<Rightarrow>
               configure_patterns
                 (st\<lparr>pattern_opts := pattern_opts st @ [(expansion, member_value)]\<rparr>) rest
           | Inl x \<Rightarrow> if x = Logic_error then Inr (st, False) else Inl x)"

definition config_json ::
  "'v rapidjson \<Rightarrow> (string \<Rightarrow> 'v option) \<Rightarrow> bool \<Rightarrow> 'v config_state \<Rightarrow> string
     \<Rightarrow> ('v config_state \<times> bool) result" where
  "config_json J parse is_enabled st config_data =
     (if is_enabled then Inr (st, True)
      else case parse config_data of
             None \<Rightarrow> Inr (st, False)
           | Some cfg \<Rightarrow>
               if \<not> jIsObject J cfg then Inr (st, False)
               else
                 bind_result (configure_old_format J st cfg) (\<lambda>st.
                 bind_result (configure_new_format J st cfg) (\<lambda>st.
                   configure_patterns st (jMembers J cfg))))"

text \<open>Reading a file: \<open>None\<close> is a file that cannot be opened. The text is passed on as a C string,
  so it ends at the first zero character.\<close>

definition config_file ::
  "'v rapidjson \<Rightarrow> (string \<Rightarrow> 'v option) \<Rightarrow> bool \<Rightarrow> 'v config_state \<Rightarrow> string option
     \<Rightarrow> ('v config_state \<times> bool) result" where
  "config_file J parse is_enabled st contents =
     (case contents of
        None \<Rightarrow> Inr (st, False)
      | Some config_data \<Rightarrow>
          config_json J parse is_enabled st (takeWhile (\<lambda>c. c \<noteq> CHR 0x00) config_data))"

end
