(* ===== verification/Events.thy ===== *)
theory Events
  imports Metrics
begin

section \<open>Event messages\<close>

text \<open>
  The messages of \<open>src/events/\<close>: what measuring points send and the processor thread applies to
  metrics. Destination and event types are the characters of the code, numbered within each kind
  of metric, so that a message meant for one kind and applied to another is modelled as it happens.
  The word \<open>event_data\<close> holds a 64-bit integer, a double, or a pointer to an attribute value;
  reading it as another type than was written is the error \<open>Wrong_payload\<close>.
\<close>

type_synonym char_code = "8 word"

datatype payload = P_word "64 word" | P_double real | P_attribute attribute_value

record event_message =
  destination_type :: char_code
  event_type :: char_code
  destination_name :: string
  timestamp :: time_point
  event_data :: payload

definition DEST_COUNTER :: char_code where "DEST_COUNTER = 0"
definition DEST_GAUGE :: char_code where "DEST_GAUGE = 1"
definition DEST_TIMER :: char_code where "DEST_TIMER = 2"
definition DEST_ATTRIBUTE :: char_code where "DEST_ATTRIBUTE = 3"

definition counter_INIT :: char_code where "counter_INIT = 0"
definition counter_INCREMENT :: char_code where "counter_INCREMENT = 1"
definition counter_DECREMENT :: char_code where "counter_DECREMENT = 2"

definition gauge_INIT :: char_code where "gauge_INIT = 0"
definition gauge_SET :: char_code where "gauge_SET = 1"

definition timer_INIT :: char_code where "timer_INIT = 0"
definition timer_START :: char_code where "timer_START = 1"
definition timer_STOP :: char_code where "timer_STOP = 2"
definition timer_DISCARD :: char_code where "timer_DISCARD = 3"
definition timer_HEARTBEAT :: char_code where "timer_HEARTBEAT = 4"
definition timer_SET :: char_code where "timer_SET = 5"

definition attribute_SET :: char_code where "attribute_SET = 0"

named_theorems codes \<open>the character codes of the event types\<close>

lemmas [codes] = DEST_COUNTER_def DEST_GAUGE_def DEST_TIMER_def DEST_ATTRIBUTE_def
  counter_INIT_def counter_INCREMENT_def counter_DECREMENT_def gauge_INIT_def gauge_SET_def
  timer_INIT_def timer_START_def timer_STOP_def timer_DISCARD_def timer_HEARTBEAT_def timer_SET_def
  attribute_SET_def

subsection \<open>Reading the payload\<close>

fun read_word :: "payload \<Rightarrow> (64 word) result" where
  "read_word (P_word w) = Inr w"
| "read_word p = Inl Wrong_payload"

fun read_double :: "payload \<Rightarrow> real result" where
  "read_double (P_double d) = Inr d"
| "read_double p = Inl Wrong_payload"

fun read_attribute :: "payload \<Rightarrow> attribute_value result" where
  "read_attribute (P_attribute v) = Inr v"
| "read_attribute p = Inl Wrong_payload"

subsection \<open>Counter events\<close>

definition create_counter_init_event :: "string \<Rightarrow> int64 \<Rightarrow> time_point \<Rightarrow> event_message" where
  "create_counter_init_event counter_name init_value t =
     \<lparr>destination_type = DEST_COUNTER, event_type = counter_INIT, destination_name = counter_name,
      timestamp = t, event_data = P_word init_value\<rparr>"

definition create_increment_event :: "string \<Rightarrow> int64 \<Rightarrow> time_point \<Rightarrow> event_message" where
  "create_increment_event counter_name value t =
     \<lparr>destination_type = DEST_COUNTER, event_type = counter_INCREMENT,
      destination_name = counter_name, timestamp = t, event_data = P_word value\<rparr>"

definition create_decrement_event :: "string \<Rightarrow> int64 \<Rightarrow> time_point \<Rightarrow> event_message" where
  "create_decrement_event counter_name value t =
     \<lparr>destination_type = DEST_COUNTER, event_type = counter_DECREMENT,
      destination_name = counter_name, timestamp = t, event_data = P_word value\<rparr>"

text \<open>An init event replaces the counter by one with the global options.\<close>

definition process_counter_init_event ::
  "chrono_env \<Rightarrow> counter_opts \<Rightarrow> counter \<Rightarrow> event_message \<Rightarrow> counter result" where
  "process_counter_init_event e global_opts c message =
     bind_result (read_word (event_data message)) (\<lambda>init_value.
       counter_init e (counter_new global_opts) init_value (timestamp message))"

definition process_increment_event ::
  "chrono_env \<Rightarrow> counter \<Rightarrow> event_message \<Rightarrow> counter result" where
  "process_increment_event e c message =
     bind_result (read_word (event_data message)) (\<lambda>incr_value.
       counter_increment e c incr_value (timestamp message))"

definition process_decrement_event ::
  "chrono_env \<Rightarrow> counter \<Rightarrow> event_message \<Rightarrow> counter result" where
  "process_decrement_event e c message =
     bind_result (read_word (event_data message)) (\<lambda>decr_value.
       counter_decrement e c decr_value (timestamp message))"

definition process_counter_event ::
  "chrono_env \<Rightarrow> counter_opts \<Rightarrow> counter \<Rightarrow> event_message \<Rightarrow> counter result" where
  "process_counter_event e global_opts c message =
     (if event_type message = counter_INIT then process_counter_init_event e global_opts c message
      else if event_type message = counter_INCREMENT then process_increment_event e c message
      else if event_type message = counter_DECREMENT then process_decrement_event e c message
      else Inr c)"

subsection \<open>Gauge events\<close>

definition create_gauge_init_event :: "string \<Rightarrow> real \<Rightarrow> time_point \<Rightarrow> event_message" where
  "create_gauge_init_event gauge_name init_value t =
     \<lparr>destination_type = DEST_GAUGE, event_type = gauge_INIT, destination_name = gauge_name,
      timestamp = t, event_data = P_double init_value\<rparr>"

definition create_gauge_set_event :: "string \<Rightarrow> real \<Rightarrow> time_point \<Rightarrow> event_message" where
  "create_gauge_set_event gauge_name value t =
     \<lparr>destination_type = DEST_GAUGE, event_type = gauge_SET, destination_name = gauge_name,
      timestamp = t, event_data = P_double value\<rparr>"

definition process_gauge_init_event ::
  "chrono_env \<Rightarrow> gauge_opts \<Rightarrow> gauge \<Rightarrow> event_message \<Rightarrow> gauge result" where
  "process_gauge_init_event e global_opts g message =
     bind_result (read_double (event_data message)) (\<lambda>init_value.
       gauge_set e (gauge_new global_opts) init_value (timestamp message))"

definition process_gauge_set_event ::
  "chrono_env \<Rightarrow> gauge \<Rightarrow> event_message \<Rightarrow> gauge result" where
  "process_gauge_set_event e g message =
     bind_result (read_double (event_data message)) (\<lambda>value.
       gauge_set e g value (timestamp message))"

definition process_gauge_event ::
  "chrono_env \<Rightarrow> gauge_opts \<Rightarrow> gauge \<Rightarrow> event_message \<Rightarrow> gauge result" where
  "process_gauge_event e global_opts g message =
     (if event_type message = gauge_INIT then process_gauge_init_event e global_opts g message
      else if event_type message = gauge_SET then process_gauge_set_event e g message
      else Inr g)"

subsection \<open>Timer events\<close>

definition create_timer_event ::
  "char_code \<Rightarrow> string \<Rightarrow> payload \<Rightarrow> time_point \<Rightarrow> event_message" where
  "create_timer_event code timer_name data t =
     \<lparr>destination_type = DEST_TIMER, event_type = code, destination_name = timer_name,
      timestamp = t, event_data = data\<rparr>"

definition create_timer_init_event :: "string \<Rightarrow> instance_id \<Rightarrow> time_point \<Rightarrow> event_message" where
  "create_timer_init_event timer_name i t = create_timer_event timer_INIT timer_name (P_word i) t"

definition create_start_event :: "string \<Rightarrow> instance_id \<Rightarrow> time_point \<Rightarrow> event_message" where
  "create_start_event timer_name i t = create_timer_event timer_START timer_name (P_word i) t"

definition create_stop_event :: "string \<Rightarrow> instance_id \<Rightarrow> time_point \<Rightarrow> event_message" where
  "create_stop_event timer_name i t = create_timer_event timer_STOP timer_name (P_word i) t"

definition create_discard_event :: "string \<Rightarrow> instance_id \<Rightarrow> time_point \<Rightarrow> event_message" where
  "create_discard_event timer_name i t = create_timer_event timer_DISCARD timer_name (P_word i) t"

definition create_heartbeat_event :: "string \<Rightarrow> instance_id \<Rightarrow> time_point \<Rightarrow> event_message" where
  "create_heartbeat_event timer_name i t = create_timer_event timer_HEARTBEAT timer_name (P_word i) t"

definition create_timer_set_event ::
  "chrono_env \<Rightarrow> string \<Rightarrow> duration \<Rightarrow> time_point \<Rightarrow> event_message" where
  "create_timer_set_event e timer_name measurement t =
     create_timer_event timer_SET timer_name
       (P_word (m_rep (dur_convert_to e value_unit measurement))) t"

definition process_timer_init_event ::
  "chrono_env \<Rightarrow> timer_opts \<Rightarrow> timer \<Rightarrow> event_message \<Rightarrow> timer result" where
  "process_timer_init_event e global_opts tm message =
     bind_result (read_word (event_data message)) (\<lambda>i.
       Inr (timer_start e (timer_new global_opts) i (timestamp message)))"

definition process_start_event :: "chrono_env \<Rightarrow> timer \<Rightarrow> event_message \<Rightarrow> timer result" where
  "process_start_event e tm message =
     bind_result (read_word (event_data message)) (\<lambda>i.
       Inr (timer_start e tm i (timestamp message)))"

definition process_stop_event :: "chrono_env \<Rightarrow> timer \<Rightarrow> event_message \<Rightarrow> timer result" where
  "process_stop_event e tm message =
     bind_result (read_word (event_data message)) (\<lambda>i. timer_stop e tm i (timestamp message))"

definition process_discard_event :: "chrono_env \<Rightarrow> timer \<Rightarrow> event_message \<Rightarrow> timer result" where
  "process_discard_event e tm message =
     bind_result (read_word (event_data message)) (\<lambda>i.
       Inr (timer_discard e tm i (timestamp message)))"

definition process_heartbeat_event :: "chrono_env \<Rightarrow> timer \<Rightarrow> event_message \<Rightarrow> timer result" where
  "process_heartbeat_event e tm message =
     bind_result (read_word (event_data message)) (\<lambda>i.
       Inr (timer_heartbeat e tm i (timestamp message)))"

definition process_timer_set_event :: "chrono_env \<Rightarrow> timer \<Rightarrow> event_message \<Rightarrow> timer result" where
  "process_timer_set_event e tm message =
     bind_result (read_word (event_data message)) (\<lambda>duration_rep.
       timer_set e tm (dur duration_rep value_unit) (timestamp message))"

definition process_timer_event ::
  "chrono_env \<Rightarrow> timer_opts \<Rightarrow> timer \<Rightarrow> event_message \<Rightarrow> timer result" where
  "process_timer_event e global_opts tm message =
     (if event_type message = timer_INIT then process_timer_init_event e global_opts tm message
      else if event_type message = timer_START then process_start_event e tm message
      else if event_type message = timer_STOP then process_stop_event e tm message
      else if event_type message = timer_DISCARD then process_discard_event e tm message
      else if event_type message = timer_HEARTBEAT then process_heartbeat_event e tm message
      else if event_type message = timer_SET then process_timer_set_event e tm message
      else Inr tm)"

subsection \<open>Attribute events\<close>

definition create_attribute_set_event ::
  "string \<Rightarrow> attribute_value \<Rightarrow> time_point \<Rightarrow> event_message" where
  "create_attribute_set_event attribute_name value t =
     \<lparr>destination_type = DEST_ATTRIBUTE, event_type = attribute_SET,
      destination_name = attribute_name, timestamp = t, event_data = P_attribute value\<rparr>"

definition process_attribute_set_event :: "attribute \<Rightarrow> event_message \<Rightarrow> attribute result" where
  "process_attribute_set_event a message =
     bind_result (read_attribute (event_data message)) (\<lambda>value. Inr (attribute_set a value))"

definition process_attribute_event :: "attribute \<Rightarrow> event_message \<Rightarrow> attribute result" where
  "process_attribute_event a message =
     (if event_type message = attribute_SET then process_attribute_set_event a message else Inr a)"

subsection \<open>Deletion\<close>

text \<open>What a deletion frees: the message, and the heap block an attribute event points to.\<close>

datatype freed = Freed_message | Freed_data

definition delete_counter_event :: "event_message \<Rightarrow> freed list" where
  "delete_counter_event message =
     (if event_type message = counter_INIT then [Freed_message]
      else if event_type message = counter_INCREMENT then [Freed_message]
      else if event_type message = counter_DECREMENT then [Freed_message]
      else [])"

definition delete_gauge_event :: "event_message \<Rightarrow> freed list" where
  "delete_gauge_event message =
     (if event_type message = gauge_INIT then [Freed_message]
      else if event_type message = gauge_SET then [Freed_message]
      else [])"

definition delete_timer_event :: "event_message \<Rightarrow> freed list" where
  "delete_timer_event message =
     (if event_type message = timer_INIT then [Freed_message]
      else if event_type message = timer_START then [Freed_message]
      else if event_type message = timer_STOP then [Freed_message]
      else if event_type message = timer_DISCARD then [Freed_message]
      else if event_type message = timer_HEARTBEAT then [Freed_message]
      else if event_type message = timer_SET then [Freed_message]
      else [])"

definition delete_attribute_event :: "event_message \<Rightarrow> freed list" where
  "delete_attribute_event message =
     (if event_type message = attribute_SET then [Freed_data, Freed_message] else [])"

definition delete_event_message :: "event_message option \<Rightarrow> freed list" where
  "delete_event_message m =
     (case m of
        None \<Rightarrow> []
      | Some message \<Rightarrow>
          if destination_type message = DEST_COUNTER then delete_counter_event message
          else if destination_type message = DEST_GAUGE then delete_gauge_event message
          else if destination_type message = DEST_TIMER then delete_timer_event message
          else if destination_type message = DEST_ATTRIBUTE then delete_attribute_event message
          else [])"

subsection \<open>Well-formed messages\<close>

text \<open>The messages the creation functions build.\<close>

inductive created :: "event_message \<Rightarrow> bool" where
  "created (create_counter_init_event n v t)"
| "created (create_increment_event n v t)"
| "created (create_decrement_event n v t)"
| "created (create_gauge_init_event n d t)"
| "created (create_gauge_set_event n d t)"
| "created (create_timer_init_event n i t)"
| "created (create_start_event n i t)"
| "created (create_stop_event n i t)"
| "created (create_discard_event n i t)"
| "created (create_heartbeat_event n i t)"
| "created (create_timer_set_event e n m t)"
| "created (create_attribute_set_event n a t)"

lemmas create_defs = create_counter_init_event_def create_increment_event_def
  create_decrement_event_def create_gauge_init_event_def create_gauge_set_event_def
  create_timer_init_event_def create_start_event_def create_stop_event_def create_discard_event_def
  create_heartbeat_event_def create_timer_set_event_def create_timer_event_def
  create_attribute_set_event_def

lemmas delete_defs = delete_event_message_def delete_counter_event_def delete_gauge_event_def
  delete_timer_event_def delete_attribute_event_def

text \<open>Deleting a message of any kind frees the message once, after the heap block of the value
  when it is an attribute event, and nothing else.\<close>

lemma created_messages_are_freed:
  assumes "created message"
  shows "delete_event_message (Some message) =
    (case event_data message of P_attribute v \<Rightarrow> [Freed_data, Freed_message] | _ \<Rightarrow> [Freed_message])"
  using assms by cases (simp_all add: create_defs delete_defs codes)

end
