(* ===== verification/Internal.thy ===== *)
theory Internal
  imports Config Events "HOL-Library.AList"
begin

section \<open>The metrics map\<close>

text \<open>
  The state of \<open>src/internal.cpp\<close>: the metrics by name and two gauges about the processing itself.
  A map entry holds a pointer to a metric, \<open>None\<close> for the null pointer \<open>operator[]\<close> creates. An
  exception that leaves these functions ends the process (\<open>run_processor\<close> is \<open>noexcept\<close>), so an
  error has no state.
\<close>

type_synonym metrics_map = "(string \<times> metric option) list"

record internal_state =
  metrics :: metrics_map
  stats_size :: gauge
  stats_process_time :: gauge

definition internal_size_opts :: gauge_opts where
  "internal_size_opts = \<lparr>go_values = stat_config_default\<lparr>tags := tag_type Tag_value\<rparr>\<rparr>"

definition process_time_opts :: gauge_opts where
  "process_time_opts = \<lparr>go_values = stat_config_default\<lparr>
     tags := tag_type Tag_moving_avg, moving_interval := dur 1 SEC\<rparr>\<rparr>"

definition internal_stats_update :: "chrono_env \<Rightarrow> time_point \<Rightarrow> internal_state \<Rightarrow> internal_state" where
  "internal_stats_update e t st =
     st\<lparr>stats_size := gauge_update_statistics e (stats_size st) t,
        stats_process_time := gauge_update_statistics e (stats_process_time st) t\<rparr>"

definition internal_stats_reset ::
  "chrono_env \<Rightarrow> time_point \<Rightarrow> internal_state \<Rightarrow> internal_state result" where
  "internal_stats_reset e now st =
     bind_result (gauge_set e (gauge_new internal_size_opts) 0 now) (\<lambda>size_gauge.
       Inr (st\<lparr>stats_size := size_gauge, stats_process_time := gauge_new process_time_opts\<rparr>))"

definition internal_size :: "internal_state \<Rightarrow> nat" where
  "internal_size st = length (metrics st)"

subsection \<open>Time\<close>

fun update_metric :: "chrono_env \<Rightarrow> time_point \<Rightarrow> metric \<Rightarrow> metric" where
  "update_metric e t (M_gauge g) = M_gauge (gauge_update_statistics e g t)"
| "update_metric e t (M_counter c) = M_counter (counter_update_statistics e c t)"
| "update_metric e t (M_timer tm) = M_timer (timer_update_statistics e tm t)"
| "update_metric e t (M_attribute a) = M_attribute a"

fun update_entries :: "chrono_env \<Rightarrow> time_point \<Rightarrow> metrics_map \<Rightarrow> metrics_map result" where
  "update_entries e t [] = Inr []"
| "update_entries e t ((n, None) # m) = Inl Null_pointer"
| "update_entries e t ((n, Some x) # m) =
     bind_result (update_entries e t m) (\<lambda>m. Inr ((n, Some (update_metric e t x)) # m))"

definition update_metrics :: "chrono_env \<Rightarrow> time_point \<Rightarrow> internal_state \<Rightarrow> internal_state result" where
  "update_metrics e t st =
     bind_result (update_entries e t (metrics st)) (\<lambda>m. Inr (st\<lparr>metrics := m\<rparr>))"

subsection \<open>Messages\<close>

text \<open>The dispatch is on what the map holds, not on the destination of the message.\<close>

fun process_event :: "chrono_env \<Rightarrow> 'v config_state \<Rightarrow> metric \<Rightarrow> event_message \<Rightarrow> metric result" where
  "process_event e cfg (M_counter c) message =
     bind_result (process_counter_event e (cfg_counter cfg) c message) (\<lambda>c. Inr (M_counter c))"
| "process_event e cfg (M_gauge g) message =
     bind_result (process_gauge_event e (cfg_gauge cfg) g message) (\<lambda>g. Inr (M_gauge g))"
| "process_event e cfg (M_timer tm) message =
     bind_result (process_timer_event e (cfg_timer cfg) tm message) (\<lambda>tm. Inr (M_timer tm))"
| "process_event e cfg (M_attribute a) message =
     bind_result (process_attribute_event a message) (\<lambda>a. Inr (M_attribute a))"

text \<open>The metric an unknown name gets, with the options of the first matching pattern.\<close>

definition make_metric ::
  "'v rapidjson \<Rightarrow> 'v config_state \<Rightarrow> 'v option \<Rightarrow> char_code \<Rightarrow> metric option result" where
  "make_metric J cfg pattern_cfg dest =
     (if dest = DEST_COUNTER then
        bind_result (case pattern_cfg of None \<Rightarrow> Inr (cfg_counter cfg)
                     | Some v \<Rightarrow> configure_counter J (cfg_counter cfg) v)
          (\<lambda>opts. Inr (Some (M_counter (counter_new opts))))
      else if dest = DEST_GAUGE then
        bind_result (case pattern_cfg of None \<Rightarrow> Inr (cfg_gauge cfg)
                     | Some v \<Rightarrow> configure_gauge J (cfg_gauge cfg) v)
          (\<lambda>opts. Inr (Some (M_gauge (gauge_new opts))))
      else if dest = DEST_TIMER then
        bind_result (case pattern_cfg of None \<Rightarrow> Inr (cfg_timer cfg)
                     | Some v \<Rightarrow> configure_timer J (cfg_timer cfg) v)
          (\<lambda>opts. Inr (Some (M_timer (timer_new opts))))
      else if dest = DEST_ATTRIBUTE then Inr (Some (M_attribute attribute_new))
      else Inr None)"

definition process_event_message ::
  "chrono_env \<Rightarrow> 'v rapidjson \<Rightarrow> (string \<Rightarrow> string \<Rightarrow> bool) \<Rightarrow> 'v config_state
     \<Rightarrow> time_point \<Rightarrow> time_point \<Rightarrow> event_message \<Rightarrow> internal_state \<Rightarrow> internal_state result" where
  "process_event_message e J fnmatch cfg process_start_time process_end_time message st =
     (let name = destination_name message;
          entry = (case map_of (metrics st) name of None \<Rightarrow> None | Some x \<Rightarrow> x) in
      bind_result
        (case entry of
           Some m \<Rightarrow> Inr (Some m)
         | None \<Rightarrow> make_metric J cfg (select_pattern fnmatch (pattern_opts cfg) name)
                    (destination_type message)) (\<lambda>metric_ptr.
      bind_result
        (case metric_ptr of None \<Rightarrow> Inl Null_pointer | Some m \<Rightarrow> process_event e cfg m message) (\<lambda>m.
      let st = st\<lparr>metrics := AList.update name (Some m) (metrics st)\<rparr> in
      bind_result
        (gauge_set e (stats_process_time st)
           (real_of_int (sint (m_rep (dur_convert_to e value_unit
              (tp_diff e process_end_time process_start_time))))) process_end_time) (\<lambda>pt.
      bind_result
        (gauge_set e (stats_size st) (real (internal_size st)) process_end_time) (\<lambda>sz.
      Inr (st\<lparr>stats_process_time := pt, stats_size := sz\<rparr>))))))"

subsection \<open>Begin and end\<close>

definition internal_initialize ::
  "chrono_env \<Rightarrow> time_point \<Rightarrow> internal_state \<Rightarrow> internal_state result" where
  "internal_initialize e now st = internal_stats_reset e now st"

definition internal_finalize ::
  "chrono_env \<Rightarrow> time_point \<Rightarrow> internal_state \<Rightarrow> internal_state result" where
  "internal_finalize e now st = internal_stats_reset e now (st\<lparr>metrics := []\<rparr>)"

end
