(* ===== verification/Mpsc_Queue.thy ===== *)
theory Mpsc_Queue
  imports Prelude
begin

section \<open>The intrusive queue\<close>

text \<open>
  The linked queue of \<open>src/message_queue.cpp\<close> (an intrusive multi-producer single-consumer queue
  with a stub node), first as the functions \<open>push\<close> and \<open>pop\<close> run one at a time, then as the steps
  of any number of producers and one consumer between their atomic operations.
\<close>

datatype node_id = Stub | Msg nat

record queue =
  nxt :: "node_id \<Rightarrow> node_id option"
  m_head_node :: node_id
  m_tail_node :: node_id

definition queue_new :: queue where
  "queue_new = \<lparr>nxt = (\<lambda>n. None), m_head_node = Stub, m_tail_node = Stub\<rparr>"

definition queue_push :: "queue \<Rightarrow> node_id \<Rightarrow> queue" where
  "queue_push q n =
     (let q = q\<lparr>nxt := (nxt q)(n := None)\<rparr>;
          prev = m_head_node q;
          q = q\<lparr>m_head_node := n\<rparr>
      in q\<lparr>nxt := (nxt q)(prev := Some n)\<rparr>)"

text \<open>The part of \<open>pop\<close> after the stub has been passed.\<close>

definition pop_at :: "queue \<Rightarrow> node_id \<Rightarrow> node_id option \<Rightarrow> queue \<times> node_id option" where
  "pop_at q tail_node next_node =
     (case next_node of
        Some n \<Rightarrow> (q\<lparr>m_tail_node := n\<rparr>, Some tail_node)
      | None \<Rightarrow>
          if tail_node \<noteq> m_head_node q then (q, None)
          else
            let q = queue_push q Stub in
            case nxt q tail_node of
              Some n \<Rightarrow> (q\<lparr>m_tail_node := n\<rparr>, Some tail_node)
            | None \<Rightarrow> (q, None))"

definition queue_pop :: "queue \<Rightarrow> queue \<times> node_id option" where
  "queue_pop q =
     (let tail_node = m_tail_node q; next_node = nxt q tail_node in
      if tail_node = Stub then
        case next_node of
          None \<Rightarrow> (q, None)
        | Some n \<Rightarrow> pop_at (q\<lparr>m_tail_node := n\<rparr>) n (nxt q n)
      else pop_at q tail_node next_node)"

subsection \<open>What a queue promises\<close>

text \<open>
  The contract of a queue: it stands for a list, an insertion appends (of something that is not
  in it), a removal takes the first or reports that there is none. A client sees its messages
  again in order, whatever the mix of calls.
\<close>

locale fifo =
  fixes good :: "'q \<Rightarrow> bool" and contents :: "'q \<Rightarrow> 'a list" and valid :: "'a \<Rightarrow> bool"
    and enq :: "'q \<Rightarrow> 'a \<Rightarrow> 'q" and deq :: "'q \<Rightarrow> 'q \<times> 'a option"
  assumes enq_good: "good q \<Longrightarrow> valid a \<Longrightarrow> a \<notin> set (contents q) \<Longrightarrow> good (enq q a)"
    and enq_contents: "good q \<Longrightarrow> valid a \<Longrightarrow> a \<notin> set (contents q) \<Longrightarrow>
      contents (enq q a) = contents q @ [a]"
    and deq_good: "good q \<Longrightarrow> good (fst (deq q))"
    and deq_empty: "good q \<Longrightarrow> contents q = [] \<Longrightarrow> snd (deq q) = None \<and> contents (fst (deq q)) = []"
    and deq_contents: "good q \<Longrightarrow> contents q = a # as \<Longrightarrow>
      snd (deq q) = Some a \<and> contents (fst (deq q)) = as"
begin

text \<open>A sequence of calls: \<open>Some a\<close> inserts, \<open>None\<close> removes; what the removals return.\<close>

fun calls :: "'q \<Rightarrow> 'a option list \<Rightarrow> 'q \<times> 'a list" where
  "calls q [] = (q, [])"
| "calls q (Some a # cs) = calls (enq q a) cs"
| "calls q (None # cs) =
     (let (q', r) = deq q; (q'', out) = calls q' cs
      in (q'', (case r of None \<Rightarrow> out | Some a \<Rightarrow> a # out)))"

fun fresh_calls :: "'a list \<Rightarrow> 'a option list \<Rightarrow> bool" where
  "fresh_calls xs [] \<longleftrightarrow> True"
| "fresh_calls xs (Some a # cs) \<longleftrightarrow> valid a \<and> a \<notin> set xs \<and> fresh_calls (xs @ [a]) cs"
| "fresh_calls xs (None # cs) \<longleftrightarrow> fresh_calls (tl xs) cs"

lemma calls_in_order:
  assumes "good q" "fresh_calls (contents q) cs"
  shows "good (fst (calls q cs))"
    "snd (calls q cs) @ contents (fst (calls q cs)) = contents q @ [a. Some a \<leftarrow> cs]"
proof -
  have "good (fst (calls q cs))
    \<and> snd (calls q cs) @ contents (fst (calls q cs)) = contents q @ [a. Some a \<leftarrow> cs]"
    using assms
  proof (induction q cs rule: calls.induct)
    case (2 q a cs)
    then show ?case using enq_good enq_contents by simp
  next
    case (3 q cs)
    have good: "good (fst (deq q))" using "3.prems"(1) by (rule deq_good)
    have deq: "(case snd (deq q) of None \<Rightarrow> [] | Some a \<Rightarrow> [a]) @ contents (fst (deq q)) = contents q"
      "contents (fst (deq q)) = tl (contents q)"
      using deq_empty [OF "3.prems"(1)] deq_contents [OF "3.prems"(1)]
      by (cases "contents q"; simp)+
    obtain q' r where r: "deq q = (q', r)" by force
    obtain q'' out where o: "calls q' cs = (q'', out)" by force
    have IH: "good q'' \<and> out @ contents q'' = contents q' @ [a. Some a \<leftarrow> cs]"
      using "3.IH" [OF r [symmetric] refl] good deq(2) "3.prems"(2) by (simp add: r o)
    then show ?case using deq(1) by (cases r) (simp_all add: r o)
  qed simp
  then show "good (fst (calls q cs))"
    "snd (calls q cs) @ contents (fst (calls q cs)) = contents q @ [a. Some a \<leftarrow> cs]" by auto
qed

end

subsection \<open>Chains\<close>

text \<open>The nodes from the tail to the head, linked one to the next.\<close>

fun linked :: "(node_id \<Rightarrow> node_id option) \<Rightarrow> node_id list \<Rightarrow> bool" where
  "linked f [] \<longleftrightarrow> False"
| "linked f [a] \<longleftrightarrow> f a = None"
| "linked f (a # b # p) \<longleftrightarrow> f a = Some b \<and> linked f (b # p)"

definition chain :: "queue \<Rightarrow> node_id list \<Rightarrow> bool" where
  "chain q p \<longleftrightarrow> linked (nxt q) p \<and> distinct p \<and> hd p = m_tail_node q \<and> last p = m_head_node q"

definition messages :: "node_id list \<Rightarrow> node_id list" where
  "messages p = filter (\<lambda>n. n \<noteq> Stub) p"

lemma linked_nonempty: "linked f p \<Longrightarrow> p \<noteq> []"
  by (cases p) auto

lemma linked_unique: "linked f (a # p) \<Longrightarrow> linked f (a # r) \<Longrightarrow> p = r"
proof (induction p arbitrary: a r)
  case Nil
  then show ?case by (cases r) auto
next
  case (Cons b p)
  then show ?case by (cases r) auto
qed

lemma chain_unique: "chain q p \<Longrightarrow> chain q r \<Longrightarrow> p = r"
  using linked_unique by (cases p; cases r) (auto simp: chain_def)

lemma linked_upd_other: "a \<notin> set p \<Longrightarrow> linked (f(a := x)) p = linked f p"
  by (induction f p rule: linked.induct) auto

lemma linked_snoc:
  "linked f p \<Longrightarrow> distinct p \<Longrightarrow> n \<notin> set p \<Longrightarrow> f n = None \<Longrightarrow> linked (f(last p := Some n)) (p @ [n])"
proof (induction f p rule: linked.induct)
  case (3 f a b p)
  then show ?case by (auto simp: linked_upd_other)
qed auto

lemma push_chain:
  assumes "chain q p" "n \<notin> set p"
  shows "chain (queue_push q n) (p @ [n])"
proof -
  have "linked ((nxt q)(n := None)) p" using assms by (simp add: chain_def linked_upd_other)
  then have "linked (((nxt q)(n := None))(last p := Some n)) (p @ [n])"
    using assms by (intro linked_snoc) (simp_all add: chain_def)
  then show ?thesis
    using assms linked_nonempty [of "nxt q" p] by (simp add: chain_def queue_push_def)
qed

lemma pop_at_chain:
  assumes "chain q (a # p)" "a \<noteq> Stub"
  shows "\<exists>q'. pop_at q a (nxt q a) = (q', Some a)
    \<and> (if p = [] then chain q' [Stub] else chain q' p)"
proof (cases p)
  case Nil
  then have h: "m_head_node q = a" "nxt q a = None" using assms(1) by (auto simp: chain_def)
  have "chain (queue_push q Stub) [a, Stub]" using push_chain [OF assms(1), of Stub] assms(2) Nil by simp
  then have "nxt (queue_push q Stub) a = Some Stub" "nxt (queue_push q Stub) Stub = None"
    "m_head_node (queue_push q Stub) = Stub" by (auto simp: chain_def)
  then show ?thesis
    using h Nil by (simp only: pop_at_def Let_def option.case if_not_P simp_thms) (simp add: chain_def)
next
  case (Cons b r)
  then have "pop_at q a (nxt q a) = (q\<lparr>m_tail_node := b\<rparr>, Some a)" "chain (q\<lparr>m_tail_node := b\<rparr>) p"
    using assms(1) by (auto simp: pop_at_def chain_def)
  then show ?thesis using Cons by simp
qed

lemma pop_chain:
  assumes "chain q p"
  shows "\<exists>r. chain (fst (queue_pop q)) r
    \<and> (case messages p of [] \<Rightarrow> snd (queue_pop q) = None \<and> messages r = []
       | a # as \<Rightarrow> snd (queue_pop q) = Some a \<and> messages r = as)"
proof (cases p)
  case Nil
  then show ?thesis using assms by (simp add: chain_def)
next
  case (Cons a p')
  have tl: "m_tail_node q = a" using assms Cons by (simp add: chain_def)
  show ?thesis
  proof (cases "a = Stub")
    case False
    then obtain q' where "pop_at q a (nxt q a) = (q', Some a)"
      "if p' = [] then chain q' [Stub] else chain q' p'"
      using pop_at_chain assms Cons by blast
    then show ?thesis
      using False Cons tl
      by (cases "p' = []") (auto simp: queue_pop_def messages_def)
  next
    case stub: True
    show ?thesis
    proof (cases p')
      case Nil
      then have "queue_pop q = (q, None)" "messages p = []"
        using assms Cons stub tl by (auto simp: queue_pop_def messages_def chain_def)
      then show ?thesis using assms by auto
    next
      case (Cons b r)
      have c: "chain (q\<lparr>m_tail_node := b\<rparr>) (b # r)" "b \<noteq> Stub" "nxt q Stub = Some b"
        using assms \<open>p = a # p'\<close> Cons stub by (auto simp: chain_def)
      then obtain q' where "pop_at (q\<lparr>m_tail_node := b\<rparr>) b (nxt q b) = (q', Some b)"
        "if r = [] then chain q' [Stub] else chain q' r"
        using pop_at_chain [OF c(1,2)] by auto
      then show ?thesis
        using c stub tl \<open>p = a # p'\<close> Cons
        by (cases "r = []") (auto simp: queue_pop_def messages_def)
    qed
  qed
qed

subsection \<open>The linked queue keeps the contract\<close>

definition good_queue :: "queue \<Rightarrow> bool" where
  "good_queue q \<longleftrightarrow> (\<exists>p. chain q p)"

definition the_chain :: "queue \<Rightarrow> node_id list" where
  "the_chain q = (THE p. chain q p)"

definition queue_contents :: "queue \<Rightarrow> node_id list" where
  "queue_contents q = messages (the_chain q)"

lemma the_chain_eq: "chain q p \<Longrightarrow> the_chain q = p"
  unfolding the_chain_def using chain_unique by blast

lemma messages_snoc: "n \<noteq> Stub \<Longrightarrow> messages (p @ [n]) = messages p @ [n]"
  by (simp add: messages_def)

lemma push_contents:
  assumes "good_queue q" "n \<noteq> Stub" "n \<notin> set (queue_contents q)"
  shows "good_queue (queue_push q n)" "queue_contents (queue_push q n) = queue_contents q @ [n]"
proof -
  obtain p where p: "chain q p" using assms(1) by (auto simp: good_queue_def)
  then have "n \<notin> set p" using assms(2,3) by (auto simp: queue_contents_def the_chain_eq messages_def)
  then have "chain (queue_push q n) (p @ [n])" by (rule push_chain [OF p])
  then show "good_queue (queue_push q n)" "queue_contents (queue_push q n) = queue_contents q @ [n]"
    using p assms(2) by (auto simp: good_queue_def queue_contents_def the_chain_eq messages_snoc)
qed

lemma pop_contents:
  assumes "good_queue q"
  shows "good_queue (fst (queue_pop q))"
    "case queue_contents q of
       [] \<Rightarrow> snd (queue_pop q) = None \<and> queue_contents (fst (queue_pop q)) = []
     | a # as \<Rightarrow> snd (queue_pop q) = Some a \<and> queue_contents (fst (queue_pop q)) = as"
proof -
  obtain p where p: "chain q p" using assms by (auto simp: good_queue_def)
  obtain r where r: "chain (fst (queue_pop q)) r"
    "case messages p of [] \<Rightarrow> snd (queue_pop q) = None \<and> messages r = []
     | a # as \<Rightarrow> snd (queue_pop q) = Some a \<and> messages r = as"
    using pop_chain [OF p] by blast
  show "good_queue (fst (queue_pop q))" using r(1) by (auto simp: good_queue_def)
  show "case queue_contents q of
       [] \<Rightarrow> snd (queue_pop q) = None \<and> queue_contents (fst (queue_pop q)) = []
     | a # as \<Rightarrow> snd (queue_pop q) = Some a \<and> queue_contents (fst (queue_pop q)) = as"
    using r by (simp add: queue_contents_def the_chain_eq [OF p] the_chain_eq [OF r(1)]
        split: list.splits)
qed

interpretation mq: fifo good_queue queue_contents "\<lambda>n. n \<noteq> Stub" queue_push queue_pop
proof
  fix q :: queue and a as
  assume "good_queue q"
  note pop = pop_contents [OF this]
  show "good_queue (fst (queue_pop q))" by (rule pop(1))
  show "snd (queue_pop q) = None \<and> queue_contents (fst (queue_pop q)) = []" if "queue_contents q = []"
    using pop(2) that by simp
  show "snd (queue_pop q) = Some a \<and> queue_contents (fst (queue_pop q)) = as"
    if "queue_contents q = a # as" using pop(2) that by simp
qed (use push_contents in auto)

lemma queue_new_chain: "chain queue_new [Stub]"
  by (simp add: chain_def queue_new_def)

lemma queue_new_empty: "good_queue queue_new" "queue_contents queue_new = []"
  using queue_new_chain by (auto simp: good_queue_def queue_contents_def the_chain_eq messages_def)

text \<open>Whatever the sequence of pushes (of nodes not in the queue) and pops of a new queue, the
  nodes come out in the order they went in, none is lost and none is returned twice.\<close>

lemma queue_is_first_in_first_out:
  assumes "mq.fresh_calls [] cs"
  shows "snd (mq.calls queue_new cs) @ queue_contents (fst (mq.calls queue_new cs)) = [n. Some n \<leftarrow> cs]"
  using mq.calls_in_order(2) [OF queue_new_empty(1)] assms by (simp add: queue_new_empty(2))

end
