(* ===== verification/Message_Queue.thy ===== *)
theory Message_Queue
  imports Mpsc_Queue Events
begin

section \<open>The message queue\<close>

text \<open>
  The functions of \<open>src/message_queue.cpp\<close> around the linked queue: the pointer to the queue
  (\<open>None\<close> before \<open>initialize\<close>), the number of messages, and the metrics the queue keeps about
  itself. The contents of a message node are read from \<open>msgs\<close>, clock readings are arguments.
\<close>

record mq_state =
  event_message_queue :: "queue option"
  mq_size :: uint64
  mq_stats_size :: gauge
  mq_message_wait_time :: gauge
  mq_pop_count :: counter

definition one_second :: duration where
  "one_second = dur 1 SEC"

definition mq_size_opts :: gauge_opts where
  "mq_size_opts = \<lparr>go_values = stat_config_default\<lparr>
     tags := or (tag_type Tag_value) (or (tag_type Tag_max) (tag_type Tag_moving_avg)),
     moving_interval := one_second\<rparr>\<rparr>"

definition mq_wait_time_opts :: gauge_opts where
  "mq_wait_time_opts = \<lparr>go_values = stat_config_default\<lparr>
     tags := tag_type Tag_moving_avg, moving_interval := one_second\<rparr>\<rparr>"

definition mq_pop_count_opts :: counter_opts where
  "mq_pop_count_opts = \<lparr>co_values = stat_config_default\<lparr>
     tags := or (tag_type Tag_rate) (tag_type Tag_value), rate_unit := SEC,
     moving_interval := one_second\<rparr>\<rparr>"

definition mq_stats_reset :: "chrono_env \<Rightarrow> time_point \<Rightarrow> mq_state \<Rightarrow> mq_state result" where
  "mq_stats_reset e now st =
     bind_result (gauge_set e (gauge_new mq_size_opts) 0 now) (\<lambda>size_gauge.
       Inr (st\<lparr>mq_stats_size := size_gauge,
               mq_message_wait_time := gauge_new mq_wait_time_opts,
               mq_pop_count := counter_new mq_pop_count_opts\<rparr>))"

definition mq_stats_update :: "chrono_env \<Rightarrow> time_point \<Rightarrow> mq_state \<Rightarrow> mq_state" where
  "mq_stats_update e t st =
     st\<lparr>mq_stats_size := gauge_update_statistics e (mq_stats_size st) t,
        mq_message_wait_time := gauge_update_statistics e (mq_message_wait_time st) t,
        mq_pop_count := counter_update_statistics e (mq_pop_count st) t\<rparr>"

definition mq_push :: "mq_state \<Rightarrow> node_id \<Rightarrow> mq_state" where
  "mq_push st n =
     (case event_message_queue st of
        None \<Rightarrow> st
      | Some q \<Rightarrow> st\<lparr>event_message_queue := Some (queue_push q n), mq_size := mq_size st + 1\<rparr>)"

definition mq_empty :: "mq_state \<Rightarrow> bool" where
  "mq_empty st \<longleftrightarrow> mq_size st = 0"

text \<open>What \<open>pop\<close> records about a message it has taken.\<close>

definition mq_record ::
  "chrono_env \<Rightarrow> event_message \<Rightarrow> time_point \<Rightarrow> mq_state \<Rightarrow> mq_state result" where
  "mq_record e message current_time st =
     bind_result (gauge_set e (mq_stats_size st) (real (unat (mq_size st))) current_time) (\<lambda>g.
     let st = st\<lparr>mq_stats_size := g\<rparr> in
     bind_result (counter_increment e (mq_pop_count st) 1 current_time) (\<lambda>c.
     let st = st\<lparr>mq_pop_count := c\<rparr> in
     bind_result
       (gauge_set e (mq_message_wait_time st)
          (real_of_int (sint (m_rep (dur_convert_to e value_unit
             (tp_diff e current_time (timestamp message)))))) current_time) (\<lambda>w.
     Inr (st\<lparr>mq_message_wait_time := w\<rparr>))))"

definition mq_pop ::
  "chrono_env \<Rightarrow> (node_id \<Rightarrow> event_message) \<Rightarrow> time_point \<Rightarrow> mq_state
     \<Rightarrow> (mq_state \<times> node_id option) result" where
  "mq_pop e msgs current_time st =
     (case event_message_queue st of
        None \<Rightarrow> Inr (st, None)
      | Some q \<Rightarrow>
          (case queue_pop q of (q', popped_node) \<Rightarrow>
             let st = st\<lparr>event_message_queue := Some q'\<rparr> in
             case popped_node of
               None \<Rightarrow> Inr (st, None)
             | Some n \<Rightarrow>
                 let st = st\<lparr>mq_size := mq_size st - 1\<rparr> in
                 bind_result (mq_record e (msgs n) current_time st) (\<lambda>st. Inr (st, Some n))))"

definition mq_initialize :: "chrono_env \<Rightarrow> time_point \<Rightarrow> mq_state \<Rightarrow> mq_state result" where
  "mq_initialize e now st =
     mq_stats_reset e now
       (case event_message_queue st of
          None \<Rightarrow> st\<lparr>event_message_queue := Some queue_new, mq_size := 0\<rparr>
        | Some q \<Rightarrow> st)"

text \<open>
  The loop of \<open>finalize\<close>, with the blocks it frees. It runs until the number of messages is zero;
  the fuel is what a caller allows, and \<open>mq_drain_frees_all\<close> shows how much is enough.
\<close>

fun mq_drain ::
  "nat \<Rightarrow> chrono_env \<Rightarrow> (node_id \<Rightarrow> event_message) \<Rightarrow> (nat \<Rightarrow> time_point) \<Rightarrow> mq_state
     \<Rightarrow> (mq_state \<times> (node_id \<times> freed list) list) result option" where
  "mq_drain fuel e msgs clock st =
     (if mq_empty st then Some (Inr (st, []))
      else case fuel of
        0 \<Rightarrow> None
      | Suc fuel \<Rightarrow>
          (case mq_pop e msgs (clock fuel) st of
             Inl x \<Rightarrow> Some (Inl x)
           | Inr (st, None) \<Rightarrow> mq_drain fuel e msgs clock st
           | Inr (st, Some n) \<Rightarrow>
               (case mq_drain fuel e msgs clock st of
                  Some (Inr (st, frees)) \<Rightarrow>
                    Some (Inr (st, (n, delete_event_message (Some (msgs n))) # frees))
                | r \<Rightarrow> r)))"

declare mq_drain.simps [simp del]

definition mq_finalize ::
  "nat \<Rightarrow> chrono_env \<Rightarrow> (node_id \<Rightarrow> event_message) \<Rightarrow> (nat \<Rightarrow> time_point) \<Rightarrow> time_point \<Rightarrow> mq_state
     \<Rightarrow> (mq_state \<times> (node_id \<times> freed list) list) result option" where
  "mq_finalize fuel e msgs clock now st =
     (case mq_drain fuel e msgs clock st of
        None \<Rightarrow> None
      | Some (Inl x) \<Rightarrow> Some (Inl x)
      | Some (Inr (st, frees)) \<Rightarrow>
          Some (bind_result
                  (mq_stats_reset e now (st\<lparr>mq_size := 0, event_message_queue := None\<rparr>))
                  (\<lambda>st. Inr (st, frees))))"

end
