(* ===== verification/Metrics_Dump.thy ===== *)
theory Metrics_Dump
  imports Internal Message_Queue
begin

section \<open>The metrics dump\<close>

text \<open>
  The functions of \<open>src/metrics_dump.cpp\<close>: from time to time the processor thread copies all
  metrics, with statistics about the library itself, into a map that \<open>get_dump\<close> hands to readers.
  The mutex only protects the exchange of the shared pointer, so the published map is a value here.
\<close>

type_synonym metrics_dump = "string \<rightharpoonup> metric"

record dump_state =
  stats_dump_time :: gauge
  dump_timestamp :: time_point
  dump :: metrics_dump

text \<open>
  The clock readings of one \<open>create_dump\<close>: when it starts, the reading that is converted to system
  time, with the environment as \<open>to_system_time\<close> leaves it (it may refresh the offset), and when
  it ends.
\<close>

record dump_clock =
  dump_start_time :: time_point
  dump_now :: time_point
  dump_env :: chrono_env
  dump_end_time :: time_point

definition dump_time_opts :: gauge_opts where
  "dump_time_opts = \<lparr>go_values = stat_config_default\<lparr>
     tags := tag_type Tag_moving_avg, moving_interval := dur 1 SEC\<rparr>\<rparr>"

definition dump_stats_update :: "chrono_env \<Rightarrow> time_point \<Rightarrow> dump_state \<Rightarrow> dump_state" where
  "dump_stats_update e t st =
     st\<lparr>stats_dump_time := gauge_update_statistics e (stats_dump_time st) t\<rparr>"

definition dump_stats_reset :: "dump_state \<Rightarrow> dump_state" where
  "dump_stats_reset st = st\<lparr>stats_dump_time := gauge_new dump_time_opts\<rparr>"

definition get_dump :: "dump_state \<Rightarrow> metrics_dump" where
  "get_dump st = dump st"

text \<open>The function a program calls for it.\<close>

definition handy_metrics_dump :: "dump_state \<Rightarrow> metrics_dump" where
  "handy_metrics_dump st = get_dump st"

subsection \<open>Building a dump\<close>

text \<open>\<open>std::map::insert\<close> keeps an entry that is already there.\<close>

definition dump_insert :: "string \<Rightarrow> metric \<Rightarrow> metrics_dump \<Rightarrow> metrics_dump" where
  "dump_insert n m d = (if d n = None then d(n \<mapsto> m) else d)"

text \<open>Metrics without any statistics tag are left out.\<close>

fun shown :: "metric \<Rightarrow> bool" where
  "shown (M_gauge g) \<longleftrightarrow> stat_tags (g_values g) \<noteq> tag_type Tag_empty"
| "shown (M_counter c) \<longleftrightarrow> stat_tags (c_values c) \<noteq> tag_type Tag_empty"
| "shown (M_timer tm) \<longleftrightarrow> stat_tags (t_values tm) \<noteq> tag_type Tag_empty"
| "shown (M_attribute a) \<longleftrightarrow> True"

fun dump_metrics :: "metrics_map \<Rightarrow> metrics_dump \<Rightarrow> metrics_dump result" where
  "dump_metrics [] new_dump = Inr new_dump"
| "dump_metrics ((n, None) # ms) new_dump = Inl Null_pointer"
| "dump_metrics ((n, Some m) # ms) new_dump =
     dump_metrics ms (if shown m then dump_insert n m new_dump else new_dump)"

definition own_statistics :: "internal_state \<Rightarrow> mq_state \<Rightarrow> (string \<times> metric) list" where
  "own_statistics ist mq =
     [(''handystats.internal.size'', M_gauge (stats_size ist)),
      (''handystats.internal.process_time'', M_gauge (stats_process_time ist)),
      (''handystats.message_queue.size'', M_gauge (mq_stats_size mq)),
      (''handystats.message_queue.message_wait_time'', M_gauge (mq_message_wait_time mq)),
      (''handystats.message_queue.pop_count'', M_counter (mq_pop_count mq))]"

definition dump_interval_attr :: "chrono_env \<Rightarrow> duration \<Rightarrow> metric" where
  "dump_interval_attr e interval =
     M_attribute (attribute_set attribute_new (A_int64 (m_rep (dur_convert_to e MSEC interval))))"

definition timestamp_attr :: "chrono_env \<Rightarrow> time_point \<Rightarrow> metric" where
  "timestamp_attr e system_timestamp =
     M_attribute (attribute_set attribute_new
       (A_int64 (m_rep (dur_convert_to e MSEC (m_since_epoch system_timestamp)))))"

definition create_dump ::
  "chrono_env \<Rightarrow> duration \<Rightarrow> dump_clock \<Rightarrow> internal_state \<Rightarrow> mq_state \<Rightarrow> gauge
     \<Rightarrow> (metrics_dump \<times> gauge) result" where
  "create_dump e interval clk ist mq dump_time =
     bind_result (dump_metrics (metrics ist) Map.empty) (\<lambda>new_dump.
     let new_dump = foldl (\<lambda>d (n, m). dump_insert n m d) new_dump (own_statistics ist mq);
         new_dump = dump_insert ''handystats.config.dump_interval''
                      (dump_interval_attr e interval) new_dump in
     bind_result (tp_convert_to (dump_env clk) SYSTEM (dump_now clk)) (\<lambda>system_timestamp.
     let new_dump = dump_insert ''handystats.dump_timestamp''
                      (timestamp_attr e system_timestamp) new_dump in
     bind_result
       (gauge_set e dump_time
          (real_of_int (sint (m_rep (dur_convert_to e value_unit
             (tp_diff e (dump_end_time clk) (dump_start_time clk)))))) (dump_end_time clk)) (\<lambda>dump_time.
     Inr (dump_insert ''handystats.metrics_dump.dump_time'' (M_gauge dump_time) new_dump,
          dump_time))))"

subsection \<open>Publishing it\<close>

definition update_dump ::
  "chrono_env \<Rightarrow> duration \<Rightarrow> dump_clock \<Rightarrow> time_point \<Rightarrow> time_point
     \<Rightarrow> internal_state \<times> mq_state \<times> dump_state \<Rightarrow> (internal_state \<times> mq_state \<times> dump_state) result" where
  "update_dump e interval clk system_time internal_time s =
     (case s of (ist, mq, ds) \<Rightarrow>
        if m_rep interval = 0 then Inr (ist, mq, ds)
        else if dur_gt e (tp_diff e system_time (dump_timestamp ds)) interval then
          bind_result (update_metrics e internal_time ist) (\<lambda>ist.
          let ist = internal_stats_update e system_time ist;
              mq = mq_stats_update e system_time mq;
              ds = dump_stats_update e system_time ds in
          bind_result (create_dump e interval clk ist mq (stats_dump_time ds)) (\<lambda>(new_dump, dump_time).
          Inr (ist, mq, ds\<lparr>stats_dump_time := dump_time, dump := new_dump,
                            dump_timestamp := system_time\<rparr>)))
        else Inr (ist, mq, ds))"

definition dump_initialize :: "dump_state \<Rightarrow> dump_state" where
  "dump_initialize st =
     (dump_stats_reset st)\<lparr>dump_timestamp := time_point_default, dump := Map.empty\<rparr>"

definition dump_finalize :: "dump_state \<Rightarrow> dump_state" where
  "dump_finalize st =
     (dump_stats_reset st)\<lparr>dump_timestamp := time_point_default, dump := Map.empty\<rparr>"

end
