(* ===== verification/Core.thy ===== *)
theory Core
  imports Metrics_Dump
begin

section \<open>The core\<close>

text \<open>
  The functions of \<open>src/core.cpp\<close>: the processor thread, which takes messages from the queue,
  applies them to the metrics and publishes dumps, and the beginning and end of the library. The
  state is that of the whole process: the options, the flag, the queue with the messages its nodes
  hold, the metrics, the dump, and what has been freed so far.
\<close>

record 'v program =
  p_config :: "'v config_state"
  enabled_flag :: bool
  p_queue :: mq_state
  p_messages :: "node_id \<Rightarrow> event_message"
  p_internal :: internal_state
  p_dump :: dump_state
  last_message_timestamp :: time_point
  p_freed :: "(node_id \<times> freed list) list"

definition is_enabled :: "'v program \<Rightarrow> bool" where
  "is_enabled st \<longleftrightarrow> cfg_core_enable (p_config st) \<and> enabled_flag st"

text \<open>The clock readings of one round of the processor thread.\<close>

record round_clock =
  pop_time :: time_point
  process_start_time :: time_point
  process_end_time :: time_point
  idle_time :: time_point
  update_time_now :: time_point
  round_dump_clock :: dump_clock

definition process_message_queue ::
  "chrono_env \<Rightarrow> 'v rapidjson \<Rightarrow> (string \<Rightarrow> string \<Rightarrow> bool) \<Rightarrow> round_clock
     \<Rightarrow> 'v program \<Rightarrow> 'v program result" where
  "process_message_queue e J fnmatch clk st =
     bind_result (mq_pop e (p_messages st) (pop_time clk) (p_queue st)) (\<lambda>(q, popped).
     let st = st\<lparr>p_queue := q\<rparr> in
     case popped of
       None \<Rightarrow> Inr st
     | Some n \<Rightarrow>
         let message = p_messages st n;
             st = st\<lparr>last_message_timestamp :=
                       tp_max e (last_message_timestamp st) (timestamp message)\<rparr> in
         bind_result
           (process_event_message e J fnmatch (p_config st) (process_start_time clk)
              (process_end_time clk) message (p_internal st)) (\<lambda>ist.
         Inr (st\<lparr>p_internal := ist,
                 p_freed := p_freed st @ [(n, delete_event_message (Some message))]\<rparr>)))"

text \<open>The body of the loop of \<open>run_processor\<close>, and the loop for a number of rounds.\<close>

definition processor_round ::
  "chrono_env \<Rightarrow> 'v rapidjson \<Rightarrow> (string \<Rightarrow> string \<Rightarrow> bool) \<Rightarrow> round_clock
     \<Rightarrow> 'v program \<Rightarrow> 'v program result" where
  "processor_round e J fnmatch clk st =
     bind_result
       (if \<not> mq_empty (p_queue st) then process_message_queue e J fnmatch clk st
        else Inr (st\<lparr>last_message_timestamp := tp_max e (last_message_timestamp st) (idle_time clk)\<rparr>))
       (\<lambda>st.
     bind_result
       (update_dump e (cfg_dump_interval (p_config st)) (round_dump_clock clk) (update_time_now clk)
          (last_message_timestamp st) (p_internal st, p_queue st, p_dump st)) (\<lambda>(ist, q, ds).
     Inr (st\<lparr>p_internal := ist, p_queue := q, p_dump := ds\<rparr>)))"

fun run_processor ::
  "chrono_env \<Rightarrow> 'v rapidjson \<Rightarrow> (string \<Rightarrow> string \<Rightarrow> bool) \<Rightarrow> round_clock list
     \<Rightarrow> 'v program \<Rightarrow> 'v program result" where
  "run_processor e J fnmatch [] st = Inr st"
| "run_processor e J fnmatch (clk # clks) st =
     (if is_enabled st
      then bind_result (processor_round e J fnmatch clk st) (run_processor e J fnmatch clks)
      else Inr st)"

subsection \<open>Begin and end\<close>

text \<open>The new thread runs \<open>run_processor\<close> after \<open>core_initialize\<close>; \<open>now\<close> and \<open>mq_now\<close> are readings.\<close>

definition core_initialize ::
  "chrono_env \<Rightarrow> time_point \<Rightarrow> time_point \<Rightarrow> 'v program \<Rightarrow> 'v program result" where
  "core_initialize e now mq_now st =
     (if enabled_flag st then Inr st
      else
        let st = st\<lparr>p_dump := dump_initialize (p_dump st)\<rparr> in
        bind_result (internal_initialize e now (p_internal st)) (\<lambda>ist.
        bind_result (mq_initialize e mq_now (p_queue st)) (\<lambda>q.
        let st = st\<lparr>p_internal := ist, p_queue := q\<rparr> in
        if \<not> cfg_core_enable (p_config st) then Inr st
        else Inr (st\<lparr>enabled_flag := True, last_message_timestamp := time_point_default\<rparr>))))"

text \<open>
  \<open>finalize\<close> clears the flag, waits for the thread (its round under way is a round before this
  call) and resets every part. The fuel bounds the loop that drains the queue; \<open>None\<close> when it is
  not enough.
\<close>

definition core_finalize ::
  "nat \<Rightarrow> chrono_env \<Rightarrow> (nat \<Rightarrow> time_point) \<Rightarrow> time_point \<Rightarrow> time_point \<Rightarrow> 'v program
     \<Rightarrow> 'v program result option" where
  "core_finalize fuel e clock now mq_now st =
     (let st = st\<lparr>enabled_flag := False\<rparr> in
      case internal_finalize e now (p_internal st) of
        Inl x \<Rightarrow> Some (Inl x)
      | Inr ist \<Rightarrow>
          (case mq_finalize fuel e (p_messages st) clock mq_now (p_queue st) of
             None \<Rightarrow> None
           | Some r \<Rightarrow>
               Some (bind_result r (\<lambda>(q, frees).
                 Inr (st\<lparr>p_internal := ist, p_queue := q, p_freed := p_freed st @ frees,
                         p_dump := dump_finalize (p_dump st),
                         p_config := config_finalize (p_config st)\<rparr>)))))"

end
