(* ===== verification/Measuring_Points.thy ===== *)
theory Measuring_Points
  imports Core
begin

section \<open>Measuring points\<close>

text \<open>
  What a program calls (\<open>src/measuring_points/\<close> and the scope helpers of
  \<open>include/handystats/measuring_points/\<close>): each call creates one message and pushes it, when the
  library is enabled. The node \<open>n\<close> is the memory the allocator gives the message. Default arguments
  for a time stamp are readings of the clock, passed by the caller of the model.
\<close>

definition send :: "node_id \<Rightarrow> event_message \<Rightarrow> 'v program \<Rightarrow> 'v program" where
  "send n message st =
     st\<lparr>p_messages := (p_messages st)(n := message), p_queue := mq_push (p_queue st) n\<rparr>"

subsection \<open>Counters\<close>

definition mp_counter_init :: "node_id \<Rightarrow> string \<Rightarrow> int64 \<Rightarrow> time_point \<Rightarrow> 'v program \<Rightarrow> 'v program" where
  "mp_counter_init n counter_name init_value t st =
     (if is_enabled st then send n (create_counter_init_event counter_name init_value t) st else st)"

definition mp_counter_increment ::
  "node_id \<Rightarrow> string \<Rightarrow> int64 \<Rightarrow> time_point \<Rightarrow> 'v program \<Rightarrow> 'v program" where
  "mp_counter_increment n counter_name value t st =
     (if is_enabled st then send n (create_increment_event counter_name value t) st else st)"

definition mp_counter_decrement ::
  "node_id \<Rightarrow> string \<Rightarrow> int64 \<Rightarrow> time_point \<Rightarrow> 'v program \<Rightarrow> 'v program" where
  "mp_counter_decrement n counter_name value t st =
     (if is_enabled st then send n (create_decrement_event counter_name value t) st else st)"

definition mp_counter_change ::
  "node_id \<Rightarrow> string \<Rightarrow> int64 \<Rightarrow> time_point \<Rightarrow> 'v program \<Rightarrow> 'v program" where
  "mp_counter_change n counter_name value t st =
     (if is_enabled st then
        if 0 \<le> sint value then mp_counter_increment n counter_name value t st
        else mp_counter_decrement n counter_name (- value) t st
      else st)"

text \<open>The two events of a scope: on construction and on destruction.\<close>

record scoped_counter =
  counter_name :: string
  delta_value :: int64

definition scoped_counter_begin ::
  "node_id \<Rightarrow> string \<Rightarrow> int64 \<Rightarrow> time_point \<Rightarrow> 'v program \<Rightarrow> 'v program \<times> scoped_counter" where
  "scoped_counter_begin n name delta now st =
     (mp_counter_change n name delta now st, \<lparr>counter_name = name, delta_value = delta\<rparr>)"

definition scoped_counter_end ::
  "node_id \<Rightarrow> scoped_counter \<Rightarrow> time_point \<Rightarrow> 'v program \<Rightarrow> 'v program" where
  "scoped_counter_end n h now st = mp_counter_change n (counter_name h) (- delta_value h) now st"

subsection \<open>Gauges\<close>

definition mp_gauge_init :: "node_id \<Rightarrow> string \<Rightarrow> real \<Rightarrow> time_point \<Rightarrow> 'v program \<Rightarrow> 'v program" where
  "mp_gauge_init n gauge_name init_value t st =
     (if is_enabled st then send n (create_gauge_init_event gauge_name init_value t) st else st)"

definition mp_gauge_set :: "node_id \<Rightarrow> string \<Rightarrow> real \<Rightarrow> time_point \<Rightarrow> 'v program \<Rightarrow> 'v program" where
  "mp_gauge_set n gauge_name value t st =
     (if is_enabled st then send n (create_gauge_set_event gauge_name value t) st else st)"

subsection \<open>Timers\<close>

definition mp_timer_init :: "node_id \<Rightarrow> string \<Rightarrow> instance_id \<Rightarrow> time_point \<Rightarrow> 'v program \<Rightarrow> 'v program" where
  "mp_timer_init n timer_name i t st =
     (if is_enabled st then send n (create_timer_init_event timer_name i t) st else st)"

definition mp_timer_start :: "node_id \<Rightarrow> string \<Rightarrow> instance_id \<Rightarrow> time_point \<Rightarrow> 'v program \<Rightarrow> 'v program" where
  "mp_timer_start n timer_name i t st =
     (if is_enabled st then send n (create_start_event timer_name i t) st else st)"

definition mp_timer_stop :: "node_id \<Rightarrow> string \<Rightarrow> instance_id \<Rightarrow> time_point \<Rightarrow> 'v program \<Rightarrow> 'v program" where
  "mp_timer_stop n timer_name i t st =
     (if is_enabled st then send n (create_stop_event timer_name i t) st else st)"

definition mp_timer_discard ::
  "node_id \<Rightarrow> string \<Rightarrow> instance_id \<Rightarrow> time_point \<Rightarrow> 'v program \<Rightarrow> 'v program" where
  "mp_timer_discard n timer_name i t st =
     (if is_enabled st then send n (create_discard_event timer_name i t) st else st)"

definition mp_timer_heartbeat ::
  "node_id \<Rightarrow> string \<Rightarrow> instance_id \<Rightarrow> time_point \<Rightarrow> 'v program \<Rightarrow> 'v program" where
  "mp_timer_heartbeat n timer_name i t st =
     (if is_enabled st then send n (create_heartbeat_event timer_name i t) st else st)"

definition mp_timer_set ::
  "chrono_env \<Rightarrow> node_id \<Rightarrow> string \<Rightarrow> duration \<Rightarrow> time_point \<Rightarrow> 'v program \<Rightarrow> 'v program" where
  "mp_timer_set e n timer_name measurement t st =
     (if is_enabled st then send n (create_timer_set_event e timer_name measurement t) st else st)"

record scoped_timer =
  timer_name :: string
  start_time :: time_point

definition scoped_timer_begin :: "string \<Rightarrow> time_point \<Rightarrow> scoped_timer" where
  "scoped_timer_begin name now = \<lparr>timer_name = name, start_time = now\<rparr>"

definition scoped_timer_end ::
  "chrono_env \<Rightarrow> node_id \<Rightarrow> scoped_timer \<Rightarrow> time_point \<Rightarrow> time_point \<Rightarrow> 'v program \<Rightarrow> 'v program" where
  "scoped_timer_end e n h end_time now st =
     mp_timer_set e n (timer_name h) (tp_diff e end_time (start_time h)) now st"

subsection \<open>Attributes\<close>

text \<open>The instances of \<open>attribute_set\<close> for each type wrap the value and are otherwise the first.\<close>

definition mp_attribute_set ::
  "node_id \<Rightarrow> string \<Rightarrow> attribute_value \<Rightarrow> time_point \<Rightarrow> 'v program \<Rightarrow> 'v program" where
  "mp_attribute_set n attribute_name value t st =
     (if is_enabled st then send n (create_attribute_set_event attribute_name value t) st else st)"

definition mp_attribute_set_bool ::
  "node_id \<Rightarrow> string \<Rightarrow> bool \<Rightarrow> time_point \<Rightarrow> 'v program \<Rightarrow> 'v program" where
  "mp_attribute_set_bool n attribute_name b t st =
     (if is_enabled st then send n (create_attribute_set_event attribute_name (A_bool b) t) st else st)"

definition mp_attribute_set_int ::
  "node_id \<Rightarrow> string \<Rightarrow> int32 \<Rightarrow> time_point \<Rightarrow> 'v program \<Rightarrow> 'v program" where
  "mp_attribute_set_int n attribute_name i t st =
     (if is_enabled st then send n (create_attribute_set_event attribute_name (A_int i) t) st else st)"

definition mp_attribute_set_unsigned ::
  "node_id \<Rightarrow> string \<Rightarrow> 32 word \<Rightarrow> time_point \<Rightarrow> 'v program \<Rightarrow> 'v program" where
  "mp_attribute_set_unsigned n attribute_name u t st =
     (if is_enabled st then send n (create_attribute_set_event attribute_name (A_unsigned u) t) st
      else st)"

definition mp_attribute_set_int64 ::
  "node_id \<Rightarrow> string \<Rightarrow> int64 \<Rightarrow> time_point \<Rightarrow> 'v program \<Rightarrow> 'v program" where
  "mp_attribute_set_int64 n attribute_name i64 t st =
     (if is_enabled st then send n (create_attribute_set_event attribute_name (A_int64 i64) t) st
      else st)"

definition mp_attribute_set_uint64 ::
  "node_id \<Rightarrow> string \<Rightarrow> uint64 \<Rightarrow> time_point \<Rightarrow> 'v program \<Rightarrow> 'v program" where
  "mp_attribute_set_uint64 n attribute_name u64 t st =
     (if is_enabled st then send n (create_attribute_set_event attribute_name (A_uint64 u64) t) st
      else st)"

definition mp_attribute_set_double ::
  "node_id \<Rightarrow> string \<Rightarrow> real \<Rightarrow> time_point \<Rightarrow> 'v program \<Rightarrow> 'v program" where
  "mp_attribute_set_double n attribute_name d t st =
     (if is_enabled st then send n (create_attribute_set_event attribute_name (A_double d) t) st
      else st)"

definition mp_attribute_set_string ::
  "node_id \<Rightarrow> string \<Rightarrow> string \<Rightarrow> time_point \<Rightarrow> 'v program \<Rightarrow> 'v program" where
  "mp_attribute_set_string n attribute_name s t st =
     (if is_enabled st then send n (create_attribute_set_event attribute_name (A_string s) t) st
      else st)"


end
