(* ===== verification/Config_Laws.thy ===== *)
theory Config_Laws
  imports Config
begin

section \<open>Laws of the configuration\<close>

text \<open>
  Which documents are errors, what no document can break (a moving interval and a number of bins
  that are not zero), and what the patterns of a document amount to.
\<close>

subsection \<open>Errors\<close>

text \<open>A configuration value with a tag the statistics do not know.\<close>

definition has_unknown_tag :: "'v rapidjson \<Rightarrow> 'v \<Rightarrow> bool" where
  "has_unknown_tag J config \<longleftrightarrow> jIsObject J config \<and> jHasMember J config ''tags''
     \<and> jIsArray J (jMember J config ''tags'')
     \<and> (\<exists>i\<in>set [0..<jSize J (jMember J config ''tags'')].
          let tag = jElem J (jMember J config ''tags'') i in
          jIsString J tag \<and> (\<forall>t. t = Tag_empty \<or> jGetString J tag \<noteq> tag_name t))"

lemma tag_from_string_Inl:
  "tag_from_string s = Inl x \<longleftrightarrow> x = Invalid_tag_error \<and> (\<forall>t. t = Tag_empty \<or> s \<noteq> tag_name t)"
  using tag_from_string_unknown [of s] tag_from_string_name by fastforce

lemma configure_tags_Inl:
  "configure_tags J vs acc = Inl x \<longleftrightarrow> x = Invalid_tag_error
     \<and> (\<exists>v\<in>set vs. jIsString J v \<and> (\<forall>t. t = Tag_empty \<or> jGetString J v \<noteq> tag_name t))"
proof (induction vs arbitrary: acc)
  case (Cons v vs)
  show ?case
  proof (cases "tag_from_string (jGetString J v)")
    case (Inl y)
    then show ?thesis using Cons tag_from_string_Inl [of "jGetString J v" y] by auto
  next
    case (Inr b)
    then have "\<not> (\<forall>t. t = Tag_empty \<or> jGetString J v \<noteq> tag_name t)"
      using tag_from_string_Inl [of "jGetString J v" Invalid_tag_error] by auto
    then show ?thesis using Cons Inr by auto
  qed
qed simp

lemma configure_statistics_Inl:
  "configure_statistics J obj config = Inl x \<longleftrightarrow> x = Invalid_tag_error \<and> has_unknown_tag J config"
proof -
  have c: "configure_tags J (map (jElem J v) [0..<n]) a = Inl y \<longleftrightarrow> y = Invalid_tag_error
      \<and> (\<exists>i\<in>set [0..<n]. jIsString J (jElem J v i)
           \<and> (\<forall>t. t = Tag_empty \<or> jGetString J (jElem J v i) \<noteq> tag_name t))" for v n a y
    unfolding configure_tags_Inl by auto
  show ?thesis
    by (simp add: configure_statistics_def has_unknown_tag_def bind_result_Inl_iff c Let_def)
qed

subsection \<open>What configuration keeps\<close>

definition sane :: "stat_config \<Rightarrow> bool" where
  "sane cfg \<longleftrightarrow> m_rep (moving_interval cfg) \<noteq> 0 \<and> histogram_bins cfg \<noteq> 0"

definition sane_state :: "'v config_state \<Rightarrow> bool" where
  "sane_state st \<longleftrightarrow> sane (cfg_statistics st) \<and> sane (go_values (cfg_gauge st))
     \<and> sane (co_values (cfg_counter st)) \<and> sane (to_values (cfg_timer st))"

text \<open>Every step keeps sane options and the patterns, and fails only for an unknown tag.\<close>

definition keeps :: "'v config_state \<Rightarrow> 'v config_state result \<Rightarrow> bool" where
  "keeps st r \<longleftrightarrow> returns r (\<lambda>st'. pattern_opts st' = pattern_opts st \<and> (sane_state st \<longrightarrow> sane_state st'))
     (\<lambda>x. x = Invalid_tag_error)"

lemma keeps_Inr: "pattern_opts st' = pattern_opts st \<Longrightarrow> (sane_state st \<Longrightarrow> sane_state st') \<Longrightarrow> keeps st (Inr st')"
  by (simp add: keeps_def returns_def)

lemma keeps_bind:
  assumes "keeps st r" "\<And>st'. keeps st' (f st')"
  shows "keeps st (bind_result r f)"
proof (cases r)
  case (Inr st')
  then show ?thesis using assms(1) assms(2) [of st']
    by (cases "f st'") (auto simp: keeps_def returns_def)
qed (use assms(1) in \<open>simp add: keeps_def returns_def\<close>)

lemma keeps_if: "(P \<Longrightarrow> keeps st a) \<Longrightarrow> (\<not> P \<Longrightarrow> keeps st b) \<Longrightarrow> keeps st (if P then a else b)"
  by simp

lemma configure_tags_returns:
  "returns (configure_tags J vs acc) (\<lambda>ts. True) (\<lambda>x. x = Invalid_tag_error)"
  using configure_tags_Inl [of J vs acc] by (simp add: returns_def split: sum.split)

lemma configure_statistics_returns:
  "returns (configure_statistics J obj config) (\<lambda>obj'. sane obj \<longrightarrow> sane obj') (\<lambda>x. x = Invalid_tag_error)"
proof -
  let ?R = "\<lambda>obj'. sane obj \<longrightarrow> sane obj'"
  show ?thesis
    unfolding configure_statistics_def
  proof (intro returns_if returns_let [where R = ?R] returns_bind [where R = ?R])
    fix o1 o2 assume "?R o1" "?R o2"
    then show "?R (if jHasMember J config ''histogram-bins'' then
        let v = jMember J config ''histogram-bins'' in
        if jIsUint64 J v \<and> jGetUint64 J v > 0 then o1\<lparr>histogram_bins := jGetUint64 J v\<rparr> else o1
      else o1)" by (auto simp: sane_def Let_def)
  next
    fix o1 o2 v assume "?R o2"
    then show "returns (let v = jMember J config ''tags'' in
        if jIsArray J v
        then bind_result (configure_tags J (map (jElem J v) [0..<jSize J v]) (tag_type Tag_empty))
               (\<lambda>ts. Inr (o2\<lparr>tags := ts\<rparr>))
        else Inr o2) ?R (\<lambda>x. x = Invalid_tag_error)"
      unfolding Let_def
      by (intro returns_if returns_bind [OF configure_tags_returns] returns_Inr) (simp_all add: sane_def)
  qed (auto simp: sane_def Let_def returns_def)
qed

lemma keeps_values:
  assumes "\<And>s. returns (r s) (\<lambda>s'. sane s \<longrightarrow> sane s') (\<lambda>x. x = Invalid_tag_error)"
    and "\<And>s'. (sane s \<longrightarrow> sane s') \<Longrightarrow> keeps st (f s')"
  shows "keeps st (bind_result (r s) f)"
  unfolding keeps_def
  by (rule returns_bind [OF assms(1)]) (use assms(2) in \<open>simp add: keeps_def\<close>)

lemma configure_gauge_keeps:
  "keeps st (bind_result (configure_gauge J (cfg_gauge st) v) (\<lambda>g. Inr (st\<lparr>cfg_gauge := g\<rparr>)))"
  unfolding configure_gauge_def
  by (cases "jIsObject J v")
    (auto simp: bind_result_assoc keeps_Inr sane_state_def
      intro!: keeps_values [OF configure_statistics_returns] keeps_Inr)

lemma configure_counter_keeps:
  "keeps st (bind_result (configure_counter J (cfg_counter st) v) (\<lambda>c. Inr (st\<lparr>cfg_counter := c\<rparr>)))"
  unfolding configure_counter_def
  by (cases "jIsObject J v")
    (auto simp: bind_result_assoc keeps_Inr sane_state_def
      intro!: keeps_values [OF configure_statistics_returns] keeps_Inr)

lemma configure_timer_keeps:
  "keeps st (bind_result (configure_timer J (cfg_timer st) v) (\<lambda>t. Inr (st\<lparr>cfg_timer := t\<rparr>)))"
proof -
  have "keeps st (bind_result (configure_statistics J (to_values (cfg_timer st)) v)
      (\<lambda>s. Inr (st\<lparr>cfg_timer := (f (cfg_timer st))\<lparr>to_values := s\<rparr>\<rparr>)))" for f
    by (rule keeps_values [OF configure_statistics_returns]) (auto simp: sane_state_def intro!: keeps_Inr)
  from this [of "\<lambda>t. t"] this [of "\<lambda>t. t\<lparr>to_idle_timeout := d\<rparr>" for d]
  show ?thesis unfolding configure_timer_def Let_def
    by (auto simp: bind_result_assoc intro: keeps_Inr)
qed

lemma configure_kinds_keeps: "jIsObject J cfg \<Longrightarrow> keeps st (configure_kinds J st cfg)"
  unfolding configure_kinds_def
  by (intro keeps_bind keeps_if configure_gauge_keeps configure_counter_keeps configure_timer_keeps)
    (simp_all add: keeps_Inr)

lemma configure_defaults_keeps: "keeps st (configure_defaults J st cfg)"
  unfolding configure_defaults_def
  by (intro keeps_values [OF configure_statistics_returns] keeps_Inr) (auto simp: sane_state_def)

text \<open>A member \<open>metrics\<close> that is not an object: the old format asks it for its members.\<close>

definition metrics_no_object :: "'v rapidjson \<Rightarrow> 'v \<Rightarrow> bool" where
  "metrics_no_object J cfg \<longleftrightarrow> jHasMember J cfg ''metrics'' \<and> \<not> jIsObject J (jMember J cfg ''metrics'')"

definition unknown_statistics :: "'v rapidjson \<Rightarrow> 'v \<Rightarrow> bool" where
  "unknown_statistics J cfg \<longleftrightarrow>
     jHasMember J cfg ''statistics'' \<and> has_unknown_tag J (jMember J cfg ''statistics'')"

lemma configure_defaults_unknown:
  "configure_defaults J st v = Inl x \<longleftrightarrow> x = Invalid_tag_error \<and> has_unknown_tag J v"
  by (simp add: configure_defaults_def bind_result_Inl_iff configure_statistics_Inl)
    (metis configure_statistics_Inl sum.exhaust)

lemma configure_old_format_no_object:
  assumes "metrics_no_object J cfg"
  shows "configure_old_format J st cfg
    = Inl (if unknown_statistics J cfg then Invalid_tag_error else Not_an_object)"
proof (cases "unknown_statistics J cfg")
  case True
  then show ?thesis
    using configure_defaults_unknown [of J st "jMember J cfg ''statistics''" Invalid_tag_error]
    by (simp add: configure_old_format_def unknown_statistics_def)
next
  case False
  let ?r = "if jHasMember J cfg ''statistics''
    then configure_defaults J st (jMember J cfg ''statistics'') else Inr st"
  obtain st' where "?r = Inr st'"
    using False configure_defaults_unknown [of J st "jMember J cfg ''statistics''"]
    by (cases ?r) (auto simp: unknown_statistics_def split: if_splits)
  then show ?thesis
    using assms False by (simp add: configure_old_format_def metrics_no_object_def configure_kinds_def)
qed

lemma configure_old_format_keeps:
  "\<not> metrics_no_object J cfg \<Longrightarrow> keeps st (configure_old_format J st cfg)"
  unfolding configure_old_format_def metrics_no_object_def
  by (intro keeps_bind keeps_if configure_defaults_keeps configure_kinds_keeps)
    (auto simp: Let_def sane_state_def intro!: keeps_Inr)

lemma configure_new_format_keeps: "jIsObject J cfg \<Longrightarrow> keeps st (configure_new_format J st cfg)"
  unfolding configure_new_format_def
  by (intro keeps_bind keeps_if configure_defaults_keeps configure_kinds_keeps)
    (auto simp: Let_def sane_state_def intro!: keeps_Inr)

lemma keeps_Inr_iff: "keeps st (Inr st') \<longleftrightarrow>
    pattern_opts st' = pattern_opts st \<and> (sane_state st \<longrightarrow> sane_state st')"
  by (simp add: keeps_def returns_def)

subsection \<open>Patterns\<close>

definition pattern_members :: "(string \<times> 'v) list \<Rightarrow> (string \<times> 'v) list" where
  "pattern_members ms = filter (\<lambda>(n, v). n \<notin> set reserved_sections) ms"

definition valid_pattern :: "string \<Rightarrow> bool" where
  "valid_pattern s \<longleftrightarrow> is_ok (expand_pattern s)"

definition pattern_groups :: "(string \<times> 'v) list \<Rightarrow> (string list \<times> 'v) list" where
  "pattern_groups ms = map (\<lambda>(n, v). (projr (expand_pattern n), v)) ms"

lemma expand_pattern_cases:
  "expand_pattern s = Inl Logic_error \<or> (\<exists>ns. expand_pattern s = Inr ns)"
  by (auto simp: expand_pattern_def split: option.splits sum.splits)

lemma configure_patterns_result:
  "configure_patterns st ms = Inr
     (st\<lparr>pattern_opts := pattern_opts st
          @ pattern_groups (takeWhile (\<lambda>(n, v). valid_pattern n) (pattern_members ms))\<rparr>,
      \<forall>(n, v)\<in>set (pattern_members ms). valid_pattern n)"
proof (induction ms arbitrary: st)
  case (Cons m ms)
  obtain n v where m: "m = (n, v)" by force
  show ?case
  proof (cases "n \<in> set reserved_sections")
    case True
    then show ?thesis using Cons.IH by (simp add: m pattern_members_def)
  next
    case False
    then show ?thesis
      using Cons.IH expand_pattern_cases [of n]
      by (auto simp: m pattern_members_def pattern_groups_def valid_pattern_def)
  qed
qed (simp add: pattern_members_def pattern_groups_def)

lemma select_pattern_find:
  "select_pattern fnmatch groups name
     = map_option snd (find (\<lambda>(ns, v). \<exists>x\<in>set ns. fnmatch x name) groups)"
  by (induction fnmatch groups name rule: select_pattern.induct) (auto simp: list_ex_iff)

lemma select_pattern_append:
  "select_pattern fnmatch (groups @ gs) name
     = (case select_pattern fnmatch groups name of Some v \<Rightarrow> Some v | None \<Rightarrow> select_pattern fnmatch gs name)"
  by (induction fnmatch groups name rule: select_pattern.induct) simp_all

text \<open>What reading a document comes to.\<close>

lemma config_json_cases:
  assumes "parse data = Some cfg" "jIsObject J cfg"
  shows "(config_json J parse False st data = Inl Invalid_tag_error
      \<and> (metrics_no_object J cfg \<longrightarrow> unknown_statistics J cfg)) \<or>
    (config_json J parse False st data = Inl Not_an_object
      \<and> metrics_no_object J cfg \<and> \<not> unknown_statistics J cfg) \<or>
    (\<exists>st'. \<not> metrics_no_object J cfg \<and> (sane_state st \<longrightarrow> sane_state st') \<and> pattern_opts st' = pattern_opts st \<and>
      config_json J parse False st data = Inr
        (st'\<lparr>pattern_opts := pattern_opts st
            @ pattern_groups (takeWhile (\<lambda>(n, v). valid_pattern n) (pattern_members (jMembers J cfg)))\<rparr>,
         \<forall>(n, v)\<in>set (pattern_members (jMembers J cfg)). valid_pattern n))"
proof (cases "metrics_no_object J cfg")
  case True
  then show ?thesis using assms configure_old_format_no_object [OF True, of st] by (simp add: config_json_def)
next
  case False
  let ?r = "bind_result (configure_old_format J st cfg) (\<lambda>st. configure_new_format J st cfg)"
  have keeps: "keeps st ?r"
    by (intro keeps_bind configure_old_format_keeps [OF False] configure_new_format_keeps [OF assms(2)])
  show ?thesis
  proof (cases ?r)
  case (Inl x)
  then have "x = Invalid_tag_error"
    using keeps by (simp add: keeps_def returns_def)
  with Inl have "config_json J parse False st data = Inl Invalid_tag_error"
    using assms by (simp add: config_json_def bind_result_assoc [symmetric])
  then show ?thesis using False by simp
next
  case (Inr st')
  then have "sane_state st \<longrightarrow> sane_state st'" "pattern_opts st' = pattern_opts st"
    using keeps by (simp_all add: keeps_Inr_iff)
  moreover have "config_json J parse False st data = configure_patterns st' (jMembers J cfg)"
    using Inr assms by (simp add: config_json_def bind_result_assoc [symmetric])
  ultimately show ?thesis using False by (auto simp: configure_patterns_result)
  qed
qed

lemma find_pattern_members:
  assumes "\<forall>(n, v)\<in>set (pattern_members ms). valid_pattern n"
  shows "map_option snd (find (\<lambda>(ns, v). \<exists>x\<in>set ns. P x)
      (pattern_groups (takeWhile (\<lambda>(n, v). valid_pattern n) (pattern_members ms))))
    = map_option snd (find (\<lambda>(n, v). n \<notin> set reserved_sections
        \<and> (\<exists>x\<in>set (projr (expand_pattern n)). P x)) ms)"
  using assms
  by (induction ms) (auto simp: pattern_members_def pattern_groups_def)

lemma valid_pattern_names:
  "valid_pattern n \<Longrightarrow> (\<exists>x\<in>set (projr (expand_pattern n)). P x)
     \<longleftrightarrow> (\<exists>p. well_formed False p \<and> show_pat p = n \<and> (\<exists>x\<in>set (names_of p). P x))"
proof -
  assume "valid_pattern n"
  then obtain ns where ns: "expand_pattern n = Inr ns" by (auto simp: valid_pattern_def is_ok_iff)
  then have "expand_pattern_at (pattern_fuel n) n 0 False = Some (Inr (ns, length n))"
    by (auto simp: expand_pattern_def split: option.splits sum.splits if_splits)
  then obtain p where p: "well_formed False p" "show_pat p = n" "ns = names_of p"
    using expand_sound(1) by (fastforce simp: substring_all)
  have "names_of q = ns" if "well_formed False q" "show_pat q = n" for q
    using expand_show [OF that(1)] that(2) ns by simp
  with p ns show ?thesis by auto
qed

subsection \<open>A concrete document type\<close>

text \<open>An instance of the document operations, on which the properties are exercised.\<close>

datatype example_value =
    E_object "(string \<times> example_value) list"
  | E_array "example_value list"
  | E_string string
  | E_uint uint64
  | E_bool bool

definition members_of :: "example_value \<Rightarrow> (string \<times> example_value) list" where
  "members_of v = (case v of E_object ms \<Rightarrow> ms | _ \<Rightarrow> [])"

definition example_json :: "example_value rapidjson" where
  "example_json =
     \<lparr>jIsObject = (\<lambda>v. case v of E_object ms \<Rightarrow> True | _ \<Rightarrow> False),
      jIsArray = (\<lambda>v. case v of E_array vs \<Rightarrow> True | _ \<Rightarrow> False),
      jIsBool = (\<lambda>v. case v of E_bool b \<Rightarrow> True | _ \<Rightarrow> False),
      jIsString = (\<lambda>v. case v of E_string s \<Rightarrow> True | _ \<Rightarrow> False),
      jIsUint64 = (\<lambda>v. case v of E_uint n \<Rightarrow> True | _ \<Rightarrow> False),
      jHasMember = (\<lambda>v n. map_of (members_of v) n \<noteq> None),
      jMember = (\<lambda>v n. the (map_of (members_of v) n)),
      jMembers = members_of,
      jSize = (\<lambda>v. case v of E_array vs \<Rightarrow> length vs | _ \<Rightarrow> 0),
      jElem = (\<lambda>v i. case v of E_array vs \<Rightarrow> vs ! i | _ \<Rightarrow> v),
      jGetBool = (\<lambda>v. case v of E_bool b \<Rightarrow> b | _ \<Rightarrow> False),
      jGetUint64 = (\<lambda>v. case v of E_uint n \<Rightarrow> n | _ \<Rightarrow> 0),
      jGetString = (\<lambda>v. case v of E_string s \<Rightarrow> s | _ \<Rightarrow> [])\<rparr>"

lemmas example_defs = example_json_def members_of_def

definition example_document :: example_value where
  "example_document = E_object
     [(''defaults'', E_object [(''histogram-bins'', E_uint 5)]),
      (''a{b,c}'', E_object [(''tags'', E_array [E_string ''max''])]),
      (''ab'', E_object [])]"

lemma show_tag_pattern: "expand_pattern ''a{b,c}'' = Inr [''ab'', ''ac'']"
  using expand_show [of "Group ''a'' [Word ''b'', Word ''c''] (Word [])"]
  by (simp add: plain_word_def is_stop_def)

lemma show_plain_pattern: "expand_pattern ''ab'' = Inr [''ab'']"
  using expand_show [of "Word ''ab''"] by (simp add: plain_word_def is_stop_def)

lemma example_config:
  "\<exists>st. config_json example_json (\<lambda>s. Some example_document) False config_reset [] = Inr (st, True)
    \<and> histogram_bins (go_values (cfg_gauge st)) = 5"
  by (simp add: config_json_def configure_old_format_def configure_new_format_def
      configure_kinds_def configure_defaults_def configure_statistics_def example_document_def
      example_defs Let_def reserved_sections_def show_tag_pattern show_plain_pattern)

subsection \<open>Names of tags and their bits\<close>

lemma enabled_empty [simp]: "\<not> enabled (tag_type Tag_empty) t"
  by (simp add: enabled_def)

lemma enabled_or: "enabled (or a b) t \<longleftrightarrow> enabled a t \<or> enabled b t"
  by (auto simp: enabled_def bit.conj_disj_distrib2 or_eq_0_iff)

lemma enabled_tag_type: "t \<noteq> Tag_empty \<Longrightarrow> enabled (tag_type t) u \<longleftrightarrow> u = t"
  by (cases t; cases u) (simp_all add: enabled_def)

lemma configure_tags_names:
  assumes "\<forall>v\<in>set vs. jIsString J v" "map (jGetString J) vs = map tag_name ts" "Tag_empty \<notin> set ts"
  shows "\<exists>m. configure_tags J vs acc = Inr m \<and> (\<forall>t. enabled m t \<longleftrightarrow> enabled acc t \<or> t \<in> set ts)"
  using assms
proof (induction vs arbitrary: ts acc)
  case (Cons v vs)
  then obtain t us where ts: "ts = t # us" by (cases ts) auto
  have "t \<noteq> Tag_empty" using Cons.prems(3) ts by auto
  with Cons.IH [of us "or acc (tag_type t)"] Cons.prems ts show ?case
    by (auto simp: tag_from_string_name enabled_or enabled_tag_type)
qed simp

subsection \<open>Properties\<close>

text \<open>C26: Reading statistics options from a JSON value fails only with \<open>invalid_tag_error\<close>, and exactly
  when the value is an object whose array of tags has a string that names no tag.\<close>

theorem configure_fails_on_unknown_tags:
  "(configure_statistics J obj config = Inl x) = (x = Invalid_tag_error \<and> has_unknown_tag J config)"
  by (rule configure_statistics_Inl)

text \<open>C25: When no moving interval and no number of histogram bins is zero, no document, in whatever
  format, well formed or not, makes one zero. The call ends abnormally in two ways only: with the exception for an unknown
  tag, or in the assertion of RapidJSON, and the latter exactly when the library is not enabled and the
  text is an object that has a member \<open>metrics\<close> that is not an object (and no unknown tag in a member
  \<open>statistics\<close>, which is read before).\<close>

theorem config_json_keeps_options_sane:
  assumes "sane_state st"
  shows "returns (config_json J parse is_enabled st data) (\<lambda>(st', b). sane_state st')
      (\<lambda>x. x = Invalid_tag_error \<or> x = Not_an_object)
    \<and> (config_json J parse is_enabled st data = Inl Not_an_object) =
      (\<not> is_enabled \<and> (\<exists>cfg. parse data = Some cfg \<and> jIsObject J cfg \<and> jHasMember J cfg ''metrics''
         \<and> \<not> jIsObject J (jMember J cfg ''metrics'')
         \<and> \<not> (jHasMember J cfg ''statistics'' \<and> has_unknown_tag J (jMember J cfg ''statistics''))))"
proof (cases "\<exists>cfg. \<not> is_enabled \<and> parse data = Some cfg \<and> jIsObject J cfg")
  case True
  then obtain cfg where cfg: "\<not> is_enabled" "parse data = Some cfg" "jIsObject J cfg" by blast
  from config_json_cases [of parse data cfg J st, OF cfg(2,3)] cfg(1,2,3) assms show ?thesis
    by (auto simp: returns_def sane_state_def metrics_no_object_def unknown_statistics_def)
next
  case False
  then show ?thesis
    using assms by (auto simp: config_json_def returns_def split: option.splits)
qed

theorem config_json_keeps_options_sane_witness:
  "returns (config_json example_json (\<lambda>s. Some example_document) False config_reset [])
      (\<lambda>(st', b). sane_state st') (\<lambda>x. x = Invalid_tag_error \<or> x = Not_an_object)
    \<and> config_json example_json (\<lambda>s. Some (E_object [(''metrics'', E_uint 5)])) False config_reset []
      = Inl Not_an_object"
proof -
  have sane: "sane_state config_reset"
    by (simp add: sane_state_def sane_def config_reset_def gauge_opts_default_def counter_opts_default_def
        timer_opts_default_def stat_config_default_def)
  show ?thesis
    using config_json_keeps_options_sane [OF sane, where J = example_json and is_enabled = False
        and parse = "\<lambda>s. Some example_document" and data = "[]"]
      config_json_keeps_options_sane [OF sane, where J = example_json and is_enabled = False
        and parse = "\<lambda>s. Some (E_object [(''metrics'', E_uint 5)])" and data = "[]"]
    by (simp add: example_defs)
qed

text \<open>C23: A document that has been read with success adds its patterns behind those that were there.
  The options selected for a metric name are those that the patterns of the documents read before
  select, if one of them matches; otherwise the value of the first member, in the order of the
  document, that is not a reserved section and whose pattern stands for a name or glob that
  matches. After a reset (\<open>config_reset\<close>) there is no earlier pattern.\<close>

theorem select_pattern_is_first_match:
  assumes "parse data = Some cfg" "jIsObject J cfg"
    and "config_json J parse False st0 data = Inr (st, True)"
  shows "select_pattern fnmatch (pattern_opts st) name =
      (case select_pattern fnmatch (pattern_opts st0) name of
         Some v \<Rightarrow> Some v
       | None \<Rightarrow> map_option snd
           (find (\<lambda>(n, v). n \<notin> set reserved_sections \<and>
              (\<exists>p. well_formed False p \<and> show_pat p = n \<and> (\<exists>x\<in>set (names_of p). fnmatch x name)))
            (jMembers J cfg)))
    \<and> select_pattern fnmatch (pattern_opts config_reset) name = None"
proof -
  have all: "\<forall>(n, v)\<in>set (pattern_members (jMembers J cfg)). valid_pattern n"
    and opts: "pattern_opts st = pattern_opts st0 @ pattern_groups
      (takeWhile (\<lambda>(n, v). valid_pattern n) (pattern_members (jMembers J cfg)))"
    using config_json_cases [of parse data cfg J st0, OF assms(1,2)] assms(3) by auto
  have docs: "find (\<lambda>(n, v). n \<notin> set reserved_sections
        \<and> (\<exists>x\<in>set (projr (expand_pattern n)). fnmatch x name)) (jMembers J cfg)
    = find (\<lambda>(n, v). n \<notin> set reserved_sections \<and>
       (\<exists>p. well_formed False p \<and> show_pat p = n \<and> (\<exists>x\<in>set (names_of p). fnmatch x name)))
     (jMembers J cfg)"
  proof (rule find_cong [OF refl], clarsimp, rule conj_cong [OF refl])
    fix n v assume "(n, v) \<in> set (jMembers J cfg)" "n \<notin> set reserved_sections"
    then have "valid_pattern n" using all by (auto simp: pattern_members_def)
    then show "(\<exists>x\<in>set (projr (expand_pattern n)). fnmatch x name)
      = (\<exists>p. well_formed False p \<and> show_pat p = n \<and> (\<exists>x\<in>set (names_of p). fnmatch x name))"
      by (rule valid_pattern_names)
  qed
  show ?thesis
    unfolding opts select_pattern_append select_pattern_find [of fnmatch "pattern_groups ms" for ms]
      find_pattern_members [OF all] docs
    by (simp add: config_reset_def)
qed

theorem select_pattern_is_first_match_witness:
  "\<exists>st. config_json example_json (\<lambda>s. Some example_document) False config_reset [] = Inr (st, True)
    \<and> select_pattern (=) (pattern_opts st) ''ab'' = map_option snd
      (find (\<lambda>(n, v). n \<notin> set reserved_sections \<and>
         (\<exists>p. well_formed False p \<and> show_pat p = n \<and> (\<exists>x\<in>set (names_of p). x = ''ab'')))
       (jMembers example_json example_document))"
proof -
  obtain st where st: "config_json example_json (\<lambda>s. Some example_document) False config_reset []
    = Inr (st, True)" using example_config by blast
  have "jIsObject example_json example_document" by (simp add: example_defs example_document_def)
  then show ?thesis
    using select_pattern_is_first_match [OF refl _ st, where fnmatch = "(=)" and name = "''ab''"] st
    by (auto simp: config_reset_def)
qed

text \<open>C39: A document with an invalid pattern is refused with \<open>false\<close>, but not undone: the patterns in
  front of the invalid one have been added.\<close>

theorem config_json_failure_is_partial:
  assumes "parse data = Some cfg" "jIsObject J cfg"
    and "config_json J parse False st data = Inr (st', b)"
  shows "b = (\<forall>(n, v)\<in>set (pattern_members (jMembers J cfg)). valid_pattern n)
    \<and> pattern_opts st' = pattern_opts st @ pattern_groups
        (takeWhile (\<lambda>(n, v). valid_pattern n) (pattern_members (jMembers J cfg)))"
  using config_json_cases [of parse data cfg J st, OF assms(1,2)] assms(3) by auto

theorem config_json_failure_is_partial_witness:
  "\<exists>st. config_json example_json (\<lambda>s. Some (E_object [(''ab'', E_object []), (''x{'', E_object [])]))
      False config_reset [] = Inr (st, False)
    \<and> pattern_opts st = [([''ab''], E_object [])]"
proof -
  let ?doc = "E_object [(''ab'', E_object []), (''x{'', E_object [])]"
  have bad: "expand_pattern ''x{'' = Inl Logic_error"
    by (simp add: expand_pattern_def pattern_fuel_def preamble_end_def is_stop_def sym_def
        numeral_eq_Suc Let_def)
  have "config_json example_json (\<lambda>s. Some ?doc) False config_reset []
      = Inr (config_reset\<lparr>pattern_opts := [([''ab''], E_object [])]\<rparr>, False)"
    by (simp add: config_json_def configure_old_format_def configure_new_format_def configure_kinds_def
        example_defs Let_def reserved_sections_def bad show_plain_pattern config_reset_def)
  then show ?thesis
    using config_json_failure_is_partial [where parse = "\<lambda>s. Some ?doc" and J = example_json
        and st = config_reset and data = "[]", OF refl]
    by (auto simp: example_defs pattern_groups_def pattern_members_def valid_pattern_def
        show_plain_pattern bad reserved_sections_def config_reset_def)
qed

text \<open>C40: Tags survive the way through a document: when the array of tags holds the names of some
  tags, in any order and with repetitions, the options read have exactly these tags enabled.\<close>

theorem configured_tags_round_trip:
  assumes "jIsObject J v" "jHasMember J v ''tags''" "jMember J v ''tags'' = a" "jIsArray J a"
    and "\<forall>i<jSize J a. jIsString J (jElem J a i)" "Tag_empty \<notin> set ts"
    and "map (\<lambda>i. jGetString J (jElem J a i)) [0..<jSize J a] = map tag_name ts"
  shows "\<exists>cfg'. configure_statistics J cfg v = Inr cfg' \<and> (\<forall>t. enabled (tags cfg') t \<longleftrightarrow> t \<in> set ts)"
proof -
  let ?vs = "map (jElem J a) [0..<jSize J a]"
  have strings: "\<forall>x\<in>set ?vs. jIsString J x" using assms(5) by auto
  have names: "map (jGetString J) ?vs = map tag_name ts" using assms(7) by (simp add: comp_def)
  obtain m where m: "configure_tags J ?vs (tag_type Tag_empty) = Inr m"
    "\<forall>t. enabled m t \<longleftrightarrow> enabled (tag_type Tag_empty) t \<or> t \<in> set ts"
    using configure_tags_names [OF strings names assms(6), of "tag_type Tag_empty"] by blast
  show ?thesis
    using assms(1-4) m
    by (simp add: configure_statistics_def Let_def del: tag_type.simps)
qed

theorem configured_tags_round_trip_witness:
  "\<exists>cfg'. configure_statistics example_json stat_config_default
      (E_object [(''tags'', E_array [E_string ''rate'', E_string ''max'', E_string ''rate''])]) = Inr cfg'
    \<and> (\<forall>t. enabled (tags cfg') t \<longleftrightarrow> t \<in> {Tag_rate, Tag_max})"
proof -
  let ?a = "E_array [E_string ''rate'', E_string ''max'', E_string ''rate'']"
  let ?v = "E_object [(''tags'', ?a)]"
  have v: "jIsObject example_json ?v" "jHasMember example_json ?v ''tags''"
    "jMember example_json ?v ''tags'' = ?a" "jIsArray example_json ?a"
    "\<forall>i<jSize example_json ?a. jIsString example_json (jElem example_json ?a i)"
    "map (\<lambda>i. jGetString example_json (jElem example_json ?a i)) [0..<jSize example_json ?a]
      = map tag_name [Tag_rate, Tag_max, Tag_rate]"
    by (simp_all add: example_defs less_Suc_eq numeral_eq_Suc)
  have "Tag_empty \<notin> set [Tag_rate, Tag_max, Tag_rate]" by simp
  from configured_tags_round_trip [OF v(1-5) this v(6), of stat_config_default] show ?thesis by auto
qed

end
