(* ===== verification/Histogram_Laws.thy ===== *)
theory Histogram_Laws
  imports Histogram
begin

section \<open>Laws of histograms\<close>

text \<open>
  What the histogram operations keep and what they compute: bisection finds a place where the
  centers stay in order, empty-bin removal keeps a sublist, the merge keeps order and weight, and
  the whole compression ends with at most the configured number of bins.
\<close>

subsection \<open>Bisection and insertion\<close>

definition centers_sorted :: "histogram \<Rightarrow> bool" where
  "centers_sorted h \<longleftrightarrow> sorted (map bin_center h)"

lemma centers_sorted_nth:
  "centers_sorted h \<longleftrightarrow> (\<forall>i j. i < j \<longrightarrow> j < length h \<longrightarrow> bin_center (h ! i) \<le> bin_center (h ! j))"
  by (auto simp: centers_sorted_def sorted_iff_nth_mono_less)

lemma centers_sorted_Cons [simp]:
  "centers_sorted (b # h) \<longleftrightarrow> (\<forall>x\<in>set h. bin_center b \<le> bin_center x) \<and> centers_sorted h"
  by (auto simp: centers_sorted_def)

lemma centers_sorted_Nil [simp]: "centers_sorted []"
  by (simp add: centers_sorted_def)

lemma centers_sorted_append:
  "centers_sorted (h @ k) \<longleftrightarrow> centers_sorted h \<and> centers_sorted k
    \<and> (\<forall>x\<in>set h. \<forall>y\<in>set k. bin_center x \<le> bin_center y)"
  by (auto simp: centers_sorted_def sorted_append)

lemma bin_less_center: "bin_less e a b \<Longrightarrow> bin_center a \<le> bin_center b"
  by (auto simp: bin_less_def)

lemma not_bin_less_center: "\<not> bin_less e a b \<Longrightarrow> bin_center b \<le> bin_center a"
  by (auto simp: bin_less_def)

text \<open>
  The bisection keeps everything left of its range below the value and everything right of it
  above, as far as centers are concerned. It does not need the range to be partitioned: bins with
  equal centers may stand in any order.
\<close>

lemma lower_bound_range:
  assumes "centers_sorted h" "first + len \<le> length h"
    and "\<forall>i<first. bin_center (h ! i) \<le> bin_center v"
    and "\<forall>i. first + len \<le> i \<longrightarrow> i < length h \<longrightarrow> bin_center v \<le> bin_center (h ! i)"
  shows "lower_bound e h v first len \<le> length h
    \<and> (\<forall>i<lower_bound e h v first len. bin_center (h ! i) \<le> bin_center v)
    \<and> (\<forall>i. lower_bound e h v first len \<le> i \<longrightarrow> i < length h \<longrightarrow> bin_center v \<le> bin_center (h ! i))"
  using assms
proof (induction e h v first len rule: lower_bound.induct)
  case (1 e h v first len)
  show ?case
  proof (cases "len = 0")
    case True
    with "1.prems" show ?thesis by (simp add: lower_bound.simps)
  next
    case False
    let ?half = "len div 2"
    let ?mid = "first + ?half"
    have mid: "?mid < length h" using False "1.prems"(2) by linarith
    have before: "bin_center (h ! i) \<le> bin_center (h ! ?mid)" if "i < ?mid" for i
      using "1.prems"(1) mid that by (auto simp: centers_sorted_nth)
    have after: "bin_center (h ! ?mid) \<le> bin_center (h ! i)" if "?mid \<le> i" "i < length h" for i
      using "1.prems"(1) that by (cases "i = ?mid") (auto simp: centers_sorted_nth)
    show ?thesis
    proof (cases "bin_less e (h ! ?mid) v")
      case True
      then have "\<forall>i<?mid + 1. bin_center (h ! i) \<le> bin_center v"
        using before bin_less_center [OF True] by (auto simp: less_Suc_eq intro: order_trans)
      with "1.IH"(1) [OF False refl refl] True "1.prems" False
      have "lower_bound e h v (?mid + 1) (len - ?half - 1) \<le> length h
        \<and> (\<forall>i<lower_bound e h v (?mid + 1) (len - ?half - 1). bin_center (h ! i) \<le> bin_center v)
        \<and> (\<forall>i. lower_bound e h v (?mid + 1) (len - ?half - 1) \<le> i \<longrightarrow> i < length h
             \<longrightarrow> bin_center v \<le> bin_center (h ! i))"
        by auto
      with True False show ?thesis by (simp add: lower_bound.simps [of e h v first len] Let_def)
    next
      case ge: False
      then have "\<forall>i. ?mid \<le> i \<longrightarrow> i < length h \<longrightarrow> bin_center v \<le> bin_center (h ! i)"
        using after not_bin_less_center [OF ge] by (meson order_trans)
      with "1.IH"(2) [OF False refl refl] ge "1.prems" mid
      have "lower_bound e h v first ?half \<le> length h
        \<and> (\<forall>i<lower_bound e h v first ?half. bin_center (h ! i) \<le> bin_center v)
        \<and> (\<forall>i. lower_bound e h v first ?half \<le> i \<longrightarrow> i < length h
             \<longrightarrow> bin_center v \<le> bin_center (h ! i))"
        by auto
      with ge False show ?thesis by (simp add: lower_bound.simps [of e h v first len] Let_def)
    qed
  qed
qed

lemma insert_bin_split:
  assumes "centers_sorted h"
  obtains l r where "h = l @ r" "insert_bin e h v = l @ v # r"
    "\<forall>b\<in>set l. bin_center b \<le> bin_center v" "\<forall>b\<in>set r. bin_center v \<le> bin_center b"
proof -
  let ?i = "lower_bound e h v 0 (length h)"
  have i: "?i \<le> length h \<and> (\<forall>i<?i. bin_center (h ! i) \<le> bin_center v)
    \<and> (\<forall>i. ?i \<le> i \<longrightarrow> i < length h \<longrightarrow> bin_center v \<le> bin_center (h ! i))"
    using assms by (intro lower_bound_range) auto
  show ?thesis
  proof (rule that [of "take ?i h" "drop ?i h"])
    show "h = take ?i h @ drop ?i h" by simp
    show "insert_bin e h v = take ?i h @ v # drop ?i h" by (simp add: insert_bin_def Let_def)
    show "\<forall>b\<in>set (take ?i h). bin_center b \<le> bin_center v"
      using i by (auto simp: in_set_conv_nth)
    show "\<forall>b\<in>set (drop ?i h). bin_center v \<le> bin_center b"
      using i by (auto simp: in_set_conv_nth)
  qed
qed

lemma insert_bin_sorted: "centers_sorted h \<Longrightarrow> centers_sorted (insert_bin e h v)"
  by (rule insert_bin_split [of h e v]) (fastforce simp: centers_sorted_append intro: order_trans)+

lemma set_insert_bin [simp]: "set (insert_bin e h v) = insert v (set h)"
proof -
  let ?i = "lower_bound e h v 0 (length h)"
  have "set (take ?i h) \<union> set (drop ?i h) = set h"
    by (metis append_take_drop_id set_append)
  then show ?thesis by (auto simp: insert_bin_def Let_def)
qed

lemma length_insert_bin [simp]: "length (insert_bin e h v) = length h + 1"
  by (simp add: insert_bin_def Let_def)

subsection \<open>Weights\<close>

text \<open>The weight of a histogram is the sum of its counts; every bin of a histogram the statistics
  keep has a non-negative count.\<close>

definition weight :: "histogram \<Rightarrow> real" where
  "weight h = sum_list (map bin_count h)"

definition counts_nonneg :: "histogram \<Rightarrow> bool" where
  "counts_nonneg h \<longleftrightarrow> (\<forall>b\<in>set h. 0 \<le> bin_count b)"

lemma weight_simps [simp]:
  "weight [] = 0" "weight (b # h) = bin_count b + weight h" "weight (h @ k) = weight h + weight k"
  by (simp_all add: weight_def)

lemma weight_nonneg: "counts_nonneg h \<Longrightarrow> 0 \<le> weight h"
  by (auto simp: weight_def counts_nonneg_def intro!: sum_list_nonneg)

lemma foldl_count: "foldl (\<lambda>m b. m + bin_count b) x h = x + weight h"
  by (induction h arbitrary: x) simp_all

lemma total_count_weight: "total_count h = weight h"
  by (simp add: total_count_def foldl_count)

lemma weight_insert_bin: "weight (insert_bin e h v) = weight h + bin_count v"
proof -
  let ?i = "lower_bound e h v 0 (length h)"
  have "weight (take ?i h) + weight (drop ?i h) = weight h"
    by (metis append_take_drop_id weight_simps(3))
  then show ?thesis by (simp add: insert_bin_def Let_def)
qed

subsection \<open>Removal of empty bins\<close>

lemma is_empty_bin_iff: "is_empty_bin b \<longleftrightarrow> bin_count b \<le> 4 * epsilon_double"
  using epsilon_pos(1) by (auto simp: is_empty_bin_def cmp_le_0_iff)

text \<open>What a removal may do: the result is a sublist, and only empty bins are missing.\<close>

definition drops_empty :: "histogram \<Rightarrow> histogram \<Rightarrow> bool" where
  "drops_empty h k \<longleftrightarrow> length k \<le> length h \<and> set k \<subseteq> set h
     \<and> (centers_sorted h \<longrightarrow> centers_sorted k)
     \<and> (counts_nonneg h \<longrightarrow> weight k \<le> weight h
          \<and> weight h \<le> weight k + real (length h - length k) * (4 * epsilon_double))
     \<and> filter (\<lambda>b. \<not> is_empty_bin b) k = filter (\<lambda>b. \<not> is_empty_bin b) h"

lemma drops_empty_refl [simp]: "drops_empty h h"
  by (simp add: drops_empty_def)

lemma counts_nonneg_subset: "set k \<subseteq> set h \<Longrightarrow> counts_nonneg h \<Longrightarrow> counts_nonneg k"
  by (auto simp: counts_nonneg_def)

lemma drops_empty_trans:
  assumes "drops_empty h k" "drops_empty k l"
  shows "drops_empty h l"
proof -
  have "weight h \<le> weight l + real (length h - length l) * (4 * epsilon_double)"
    if "counts_nonneg h"
  proof -
    have "counts_nonneg k" using that assms(1) counts_nonneg_subset by (auto simp: drops_empty_def)
    then have "weight h \<le> weight l + (real (length k - length l) + real (length h - length k))
        * (4 * epsilon_double)"
      using that assms unfolding drops_empty_def distrib_right by linarith
    moreover have "real (length k - length l) + real (length h - length k) = real (length h - length l)"
      using assms by (auto simp: drops_empty_def)
    ultimately show ?thesis by simp
  qed
  moreover have "weight l \<le> weight h" if "counts_nonneg h"
    using that assms counts_nonneg_subset [of k h] by (auto simp: drops_empty_def)
  ultimately show ?thesis using assms by (auto simp: drops_empty_def)
qed

lemma drops_empty_one:
  assumes "is_empty_bin b"
  shows "drops_empty (l @ b # r) (l @ r)"
  using assms by (auto simp: drops_empty_def centers_sorted_append counts_nonneg_def is_empty_bin_iff)

lemma drops_empty_dropWhile: "drops_empty h (dropWhile is_empty_bin h)"
proof (induction h)
  case (Cons b h)
  show ?case
  proof (cases "is_empty_bin b")
    case True
    then show ?thesis using drops_empty_one [of b "[]" h] Cons drops_empty_trans by auto
  qed simp
qed simp

lemma drops_empty_dropWhile_rev: "drops_empty h (rev (dropWhile is_empty_bin (rev h)))"
proof (induction h rule: rev_induct)
  case (snoc b h)
  show ?case
  proof (cases "is_empty_bin b")
    case True
    then show ?thesis using drops_empty_one [of b h "[]"] snoc drops_empty_trans by auto
  qed simp
qed simp

lemma drops_empty_squeeze: "drops_empty h (squeeze_empty_bins h i)"
proof (induction h i rule: squeeze_empty_bins.induct)
  case (1 h i)
  show ?case
  proof (cases "i < length h - 1 \<and> is_empty_bin (h ! i) \<and> is_empty_bin (h ! (i + 1))
      \<and> is_empty_bin (h ! (i - 1))")
    case True
    then have "i < length h" by linarith
    then have "h = take i h @ h ! i # drop (i + 1) h" using id_take_nth_drop [of i h] by simp
    then have "drops_empty h (take i h @ drop (i + 1) h)"
      using drops_empty_one [of "h ! i" "take i h" "drop (i + 1) h"] True by simp
    moreover have "drops_empty (take i h @ drop (i + 1) h)
        (squeeze_empty_bins (take i h @ drop (i + 1) h) i)"
      using True by (intro "1.IH"(4)) auto
    ultimately show ?thesis
      using True drops_empty_trans by (simp add: squeeze_empty_bins.simps [of h i])
  next
    case False
    then show ?thesis
      using "1.IH" by (simp add: squeeze_empty_bins.simps [of h i])
  qed
qed

lemma remove_empty_bins_drops: "remove_empty_bins h = Inr k \<Longrightarrow> drops_empty h k"
  using drops_empty_trans [OF drops_empty_dropWhile drops_empty_dropWhile_rev]
  by (auto simp: remove_empty_bins_def Let_def split: if_splits intro: drops_empty_trans drops_empty_squeeze)

lemma drops_empty_keeps:
  assumes "drops_empty h k" "b \<in> set h" "\<not> is_empty_bin b"
  shows "b \<in> set k"
proof -
  have "b \<in> set (filter (\<lambda>b. \<not> is_empty_bin b) h)" using assms by simp
  then have "b \<in> set (filter (\<lambda>b. \<not> is_empty_bin b) k)"
    using assms(1) by (simp only: drops_empty_def)
  then show ?thesis by simp
qed

lemma remove_empty_bins_ok:
  assumes "b \<in> set h" "\<not> is_empty_bin b"
  shows "\<exists>k. remove_empty_bins h = Inr k \<and> b \<in> set k"
proof -
  let ?h1 = "dropWhile is_empty_bin h"
  let ?h2 = "rev (dropWhile is_empty_bin (rev ?h1))"
  have "drops_empty h ?h2"
    using drops_empty_trans [OF drops_empty_dropWhile drops_empty_dropWhile_rev] .
  then have b2: "b \<in> set ?h2" using assms drops_empty_keeps by blast
  then have "b \<in> set (squeeze_empty_bins ?h2 1)"
    using assms(2) drops_empty_squeeze drops_empty_keeps by blast
  moreover have "?h2 \<noteq> []" using b2 by (metis empty_iff empty_set)
  ultimately show ?thesis unfolding remove_empty_bins_def Let_def by (simp only: if_False) blast
qed

subsection \<open>Merging\<close>

lemma best_merge_bound:
  "(case best of None \<Rightarrow> True | Some (i, c) \<Rightarrow> i < index + length h - 1) \<Longrightarrow>
   best_merge h index best = Some (i, c) \<Longrightarrow> i < index + length h - 1"
  by (induction h index best rule: best_merge.induct)
    (fastforce simp: Let_def split: option.splits if_splits prod.splits)+

lemma best_merge_Some:
  "2 \<le> length h \<or> best \<noteq> None \<Longrightarrow> \<exists>r. best_merge h index best = Some r"
  by (induction h index best rule: best_merge.induct) (auto simp: Let_def split: option.splits)

lemma merged_bin_ok:
  assumes "0 \<le> bin_count l" "0 \<le> bin_count r" "bin_center l \<le> bin_center r"
  obtains b where "merged_bin e l r = Inr b"
    "bin_center l \<le> bin_center b" "bin_center b \<le> bin_center r" "0 \<le> bin_count b"
    "bin_count b \<le> bin_count l + bin_count r"
    "bin_count l + bin_count r \<le> bin_count b + 8 * epsilon_double"
    "bin_timestamp b \<in> {time_point_default, tp_max e (bin_timestamp l) (bin_timestamp r)}"
proof (cases "is_empty_bin l \<and> is_empty_bin r")
  case True
  have "cmp_ld (1 + 1) 0 = 1" by (simp add: cmp_def epsilon_long_double_def)
  then have "weighted_average (bin_center l) 1 (bin_center r) 1
      = Inr ((bin_center l * 1 + bin_center r * 1) / (1 + 1))"
    by (intro weighted_average_ok) simp_all
  then have "merged_bin e l r = Inr \<lparr>bin_center = (bin_center l * 1 + bin_center r * 1) / (1 + 1),
      bin_count = 0, bin_timestamp = time_point_default\<rparr>"
    using True by (simp add: merged_bin_def is_empty_bin_def)
  with True assms show ?thesis
    by (elim that) (auto simp: is_empty_bin_iff)
next
  case False
  then have big: "4 * epsilon_double < bin_count l + bin_count r"
    using assms by (auto simp: is_empty_bin_iff)
  then have pos: "0 < bin_count l + bin_count r" using epsilon_pos(1) by linarith
  have "0 < cmp_ld (bin_count l + bin_count r) 0"
    using big epsilon_less epsilon_pos by (simp add: cmp_pos_iff)
  then have w: "weighted_average (bin_center l) (bin_count l) (bin_center r) (bin_count r)
    = Inr ((bin_center l * bin_count l + bin_center r * bin_count r) / (bin_count l + bin_count r))"
    using assms by (intro weighted_average_ok)
  show ?thesis
  proof (rule that)
    show "merged_bin e l r = Inr \<lparr>bin_center =
        (bin_center l * bin_count l + bin_center r * bin_count r) / (bin_count l + bin_count r),
        bin_count = bin_count l + bin_count r,
        bin_timestamp = tp_max e (bin_timestamp l) (bin_timestamp r)\<rparr>"
      using False w by (auto simp: merged_bin_def is_empty_bin_def)
  qed (use assms average_between [OF assms(1,2) pos assms(3)] epsilon_pos in auto)
qed

text \<open>A set of time points that the merge does not leave.\<close>

definition stamps_closed :: "chrono_env \<Rightarrow> (time_point \<Rightarrow> bool) \<Rightarrow> bool" where
  "stamps_closed e P \<longleftrightarrow> P time_point_default \<and> (\<forall>a b. P a \<longrightarrow> P b \<longrightarrow> P (tp_max e a b))"

definition stamps_in :: "(time_point \<Rightarrow> bool) \<Rightarrow> histogram \<Rightarrow> bool" where
  "stamps_in P h \<longleftrightarrow> (\<forall>b\<in>set h. P (bin_timestamp b))"

lemma split_at_two: "i + 1 < length h \<Longrightarrow> h = take i h @ h ! i # h ! (i + 1) # drop (i + 2) h"
  by (metis Cons_nth_drop_Suc Suc_eq_plus1 add_2_eq_Suc' add_lessD1 id_take_nth_drop)

lemma merge_at_spec:
  assumes "centers_sorted h" "counts_nonneg h" "i + 1 < length h" "stamps_closed e P" "stamps_in P h"
  obtains k where "merge_at e h i = Inr k" "centers_sorted k" "counts_nonneg k"
    "length k = length h - 1" "weight k \<le> weight h" "weight h \<le> weight k + 8 * epsilon_double"
    "stamps_in P k"
proof -
  define l r pre post where "l = h ! i" "r = h ! (i + 1)" "pre = take i h" "post = drop (i + 2) h"
  have h: "h = pre @ l # r # post" using assms(3) split_at_two by (simp add: l_r_pre_post_def)
  have lr: "0 \<le> bin_count l" "0 \<le> bin_count r" "bin_center l \<le> bin_center r"
    using assms(1,2) by (auto simp: h centers_sorted_append counts_nonneg_def)
  obtain b where b: "merged_bin e l r = Inr b"
    "bin_center l \<le> bin_center b" "bin_center b \<le> bin_center r" "0 \<le> bin_count b"
    "bin_count b \<le> bin_count l + bin_count r"
    "bin_count l + bin_count r \<le> bin_count b + 8 * epsilon_double"
    "bin_timestamp b \<in> {time_point_default, tp_max e (bin_timestamp l) (bin_timestamp r)}"
    by (rule merged_bin_ok [OF lr])
  show ?thesis
  proof (rule that)
    show "merge_at e h i = Inr (pre @ b # post)"
      using assms(3) b(1) by (simp add: merge_at_def l_r_pre_post_def)
    show "centers_sorted (pre @ b # post)"
      using assms(1) b(2,3) by (fastforce simp: h centers_sorted_append intro: order_trans)
    show "counts_nonneg (pre @ b # post)" using assms(2) b(4) by (auto simp: h counts_nonneg_def)
    show "stamps_in P (pre @ b # post)"
      using assms(4,5) b(7) by (auto simp: h stamps_in_def stamps_closed_def)
  qed (use b(5,6) in \<open>auto simp: h\<close>)
qed

lemma compress_spec:
  assumes "centers_sorted h" "counts_nonneg h" "stamps_closed e P" "stamps_in P h"
    and "0 < unat bins" "length h \<le> unat bins + 1" "b \<in> set h" "\<not> is_empty_bin b"
  obtains k where "compress_histogram e bins h = Inr k" "centers_sorted k" "counts_nonneg k"
    "length k \<le> unat bins" "weight k \<le> weight h"
    "weight h \<le> weight k + real (length h + 2) * (4 * epsilon_double)" "stamps_in P k"
proof (cases "length h \<le> unat bins")
  case True
  then show ?thesis using assms that [of h] by (auto simp: compress_histogram_def)
next
  case False
  obtain k where k: "remove_empty_bins h = Inr k" "b \<in> set k"
    using remove_empty_bins_ok [OF assms(7,8)] by blast
  then have d: "drops_empty h k" using remove_empty_bins_drops by blast
  have ks: "centers_sorted k" "counts_nonneg k" "stamps_in P k" "length k \<le> unat bins + 1"
    "weight k \<le> weight h"
    using d assms counts_nonneg_subset [of k h] by (auto simp: drops_empty_def stamps_in_def)
  have "weight h \<le> weight k + real (length h - length k) * (4 * epsilon_double)"
    using d assms(2) unfolding drops_empty_def by blast
  also have "\<dots> \<le> weight k + real (length h) * (4 * epsilon_double)"
    by (intro add_left_mono mult_right_mono) simp_all
  finally have wk: "weight h \<le> weight k + real (length h) * (4 * epsilon_double)" .
  show ?thesis
  proof (cases "length k \<le> unat bins")
    case True
    have "real (length h) * (4 * epsilon_double) \<le> real (length h + 2) * (4 * epsilon_double)"
      by (intro mult_right_mono) simp_all
    then have "weight h \<le> weight k + real (length h + 2) * (4 * epsilon_double)"
      using wk by linarith
    then show ?thesis using that [of k] ks k True \<open>\<not> length h \<le> unat bins\<close>
      by (simp add: compress_histogram_def)
  next
    case False
    with assms(5) obtain i c where ic: "best_merge k 0 None = Some (i, c)"
      using best_merge_Some [where h = k and best = None and index = 0] by fastforce
    then have "i + 1 < length k" using best_merge_bound [where best = None and index = 0 and h = k] by simp
    then obtain k' where k': "merge_at e k i = Inr k'" "centers_sorted k'" "counts_nonneg k'"
      "length k' = length k - 1" "weight k' \<le> weight k" "weight k \<le> weight k' + 8 * epsilon_double"
      "stamps_in P k'"
      using merge_at_spec [OF ks(1,2) _ assms(3) ks(3)] by blast
    have "weight h \<le> weight k' + real (length h + 2) * (4 * epsilon_double)"
      using wk k'(6) by (simp add: algebra_simps)
    then show ?thesis
      using that [of k'] k' ks k ic False \<open>\<not> length h \<le> unat bins\<close>
      by (simp add: compress_histogram_def)
  qed
qed

subsection \<open>Quantiles\<close>

text \<open>The volume of a half-bin, and what is left of the weight from a half-bin on.\<close>

definition volume :: "histogram \<Rightarrow> int \<Rightarrow> real" where
  "volume h i = ((if i = -1 then 0 else bin_count (h ! nat i))
     + (if i + 1 = int (length h) then 0 else bin_count (h ! nat (i + 1)))) / 2"

definition rest_weight :: "histogram \<Rightarrow> int \<Rightarrow> real" where
  "rest_weight h i = (if i = -1 \<or> int (length h) \<le> i then 0 else bin_count (h ! nat i)) / 2
     + weight (drop (nat (i + 1)) h)"

lemma quantile_scan_step:
  "quantile_scan h i req =
    (if i < int (length h) \<and> cmp_d (volume h i) req \<le> 0
     then quantile_scan h (i + 1) (req - volume h i) else (i, req))"
  by (subst quantile_scan.simps) (auto simp: volume_def Let_def)

lemma rest_weight_start [simp]: "rest_weight h (-1) = weight h"
  by (simp add: rest_weight_def)

lemma rest_weight_end [simp]: "rest_weight h (int (length h)) = 0"
  by (simp add: rest_weight_def)

lemma rest_weight_step:
  assumes "-1 \<le> i" "i < int (length h)"
  shows "rest_weight h i = volume h i + rest_weight h (i + 1)"
proof (cases "i + 1 = int (length h)")
  case True
  then show ?thesis by (cases "h = []") (auto simp: rest_weight_def volume_def)
next
  case False
  then have "nat (i + 1) < length h" "nat (i + 1 + 1) = Suc (nat (i + 1))" using assms by linarith+
  then have "weight (drop (nat (i + 1)) h)
      = bin_count (h ! nat (i + 1)) + weight (drop (nat (i + 1 + 1)) h)"
    by (metis Cons_nth_drop_Suc weight_simps(2))
  with False assms show ?thesis by (auto simp: rest_weight_def volume_def add_divide_distrib)
qed

lemma rest_weight_nonneg: "counts_nonneg h \<Longrightarrow> -1 \<le> i \<Longrightarrow> 0 \<le> rest_weight h i"
proof -
  assume h: "counts_nonneg h" "-1 \<le> i"
  have "0 \<le> weight (drop (nat (i + 1)) h)"
    using h counts_nonneg_subset [OF set_drop_subset] weight_nonneg by blast
  moreover have "0 \<le> bin_count (h ! nat i)" if "i \<noteq> -1" "i < int (length h)"
    using that h nth_mem [of "nat i" h] by (auto simp: counts_nonneg_def)
  ultimately show ?thesis by (auto simp: rest_weight_def)
qed

lemma quantile_scan_to_end:
  assumes "counts_nonneg h" "-1 \<le> i" "i \<le> int (length h)" "rest_weight h i \<le> req + 4 * epsilon_double"
  shows "fst (quantile_scan h i req) = int (length h)"
  using assms
proof (induction "nat (int (length h) - i)" arbitrary: i req)
  case 0
  then show ?case by (simp add: quantile_scan_step)
next
  case (Suc n)
  then have i: "i < int (length h)" by simp
  have v: "volume h i \<le> req + 4 * epsilon_double"
    using Suc.prems rest_weight_step [OF Suc.prems(2) i] rest_weight_nonneg [of h "i + 1"] by simp
  then have "cmp_d (volume h i) req \<le> 0" by (simp add: cmp_le_0_iff)
  moreover have "fst (quantile_scan h (i + 1) (req - volume h i)) = int (length h)"
    using Suc i rest_weight_step [OF Suc.prems(2) i] by (intro Suc.hyps(1)) auto
  ultimately show ?case using i by (simp add: quantile_scan_step [of h i req])
qed

text \<open>Below the whole weight the scan stops at a bin, with less than the volume of the half-bin
  left to find.\<close>

lemma quantile_scan_stops:
  assumes "-1 \<le> i" "i \<le> int (length h)" "req + 4 * epsilon_double < rest_weight h i"
    and "- (4 * epsilon_double) \<le> req"
  shows "\<exists>j r. quantile_scan h i req = (j, r) \<and> i \<le> j \<and> j < int (length h)
    \<and> r + 4 * epsilon_double < volume h j \<and> - (4 * epsilon_double) \<le> r \<and> (j = i \<longrightarrow> r = req)"
  using assms
proof (induction "nat (int (length h) - i)" arbitrary: i req)
  case 0
  then have "i = int (length h)" by simp
  then show ?case using 0 epsilon_nonneg(1) by simp
next
  case (Suc n)
  then have i: "i < int (length h)" by simp
  show ?case
  proof (cases "cmp_d (volume h i) req \<le> 0")
    case True
    then have lo: "- (4 * epsilon_double) \<le> req - volume h i" by (simp add: cmp_le_0_iff)
    have "req - volume h i + 4 * epsilon_double < rest_weight h (i + 1)"
      using Suc.prems rest_weight_step [OF Suc.prems(1) i] by simp
    then have "\<exists>j r. quantile_scan h (i + 1) (req - volume h i) = (j, r) \<and> i + 1 \<le> j
      \<and> j < int (length h) \<and> r + 4 * epsilon_double < volume h j \<and> - (4 * epsilon_double) \<le> r
      \<and> (j = i + 1 \<longrightarrow> r = req - volume h i)"
      using Suc.hyps(2) Suc.prems lo i by (intro Suc.hyps(1)) auto
    then show ?thesis using True i by (auto simp: quantile_scan_step [of h i req])
  next
    case False
    then have "req + 4 * epsilon_double < volume h i" by (simp add: cmp_le_0_iff)
    then show ?thesis using False i Suc.prems(4) by (simp add: quantile_scan_step [of h i req])
  qed
qed

lemma first_in_unit_errors: "returns (first_in_unit rs) (\<lambda>_. True) (\<lambda>x. x = Logic_error)"
  by (induction rs) (simp_all add: returns_def)

lemma find_z_errors: "returns (find_z a b c) (\<lambda>_. True) (\<lambda>x. x = Logic_error)"
  using solve_quadratic_total [of a b c] first_in_unit_errors by (auto simp: find_z_def)

lemma weighted_average_errors:
  "returns (weighted_average v w v' w') (\<lambda>_. True) (\<lambda>x. x = Logic_error)"
  by (simp add: weighted_average_def returns_def Let_def)

lemma quantile_bins_errors:
  "i < int (length h) \<Longrightarrow> returns (quantile_bins h i) (\<lambda>_. True) (\<lambda>x. x = Logic_error)"
  unfolding quantile_bins_def
  by (auto intro!: returns_Inr returns_bind [OF weighted_average_errors])

lemma light_quadratic:
  "find_z (- 1 / 2 ^ 48) (1 / 32) (1 / 2 ^ 49) = Inl Logic_error"
proof -
  let ?a = "- 1 / 2 ^ 48 :: real" and ?b = "1 / 32 :: real" and ?c = "1 / 2 ^ 49 :: real"
  let ?d = "?b * ?b - 4 * ?a * ?c"
  have lo: "1 / 32 + 1 / 2 ^ 96 < sqrt ?d" by (rule real_less_rsqrt) (simp add: power2_eq_square)
  have reg: "cmp_ld ?a 0 \<noteq> 0" "0 < cmp_ld ?d 0" by (simp_all add: cmp_def epsilon_long_double_def)
  have "cmp_d ((- s - ?b) / 2 / ?a) 1 > 0 \<and> cmp_d ((s - ?b) / 2 / ?a) 0 < 0"
    if "1 / 32 + 1 / 2 ^ 96 < s" for s
    using that by (simp add: cmp_def epsilon_double_def field_simps)
  note roots = this [OF lo]
  show ?thesis
    unfolding find_z_def solve_quadratic_regular [OF reg] using roots by simp
qed

subsection \<open>Properties\<close>

text \<open>C17: A histogram in order, with non-negative counts, at most one bin over its positive limit (as
  \<open>update_histogram\<close> leaves it) and at least one bin not empty, is compressed without an error to one
  in order with at most the configured number of bins; its weight does not grow, and falls by no more
  than four epsilons for each bin and for two more.\<close>

theorem compress_histogram_bounds:
  assumes "centers_sorted h" "counts_nonneg h" "0 < unat bins" "length h \<le> unat bins + 1"
    and "\<exists>b\<in>set h. \<not> is_empty_bin b"
  shows "\<exists>k. compress_histogram e bins h = Inr k \<and> centers_sorted k \<and> counts_nonneg k
    \<and> length k \<le> unat bins \<and> weight k \<le> weight h
    \<and> weight h \<le> weight k + real (length h + 2) * (4 * epsilon_double)"
proof -
  from assms(5) obtain b where "b \<in> set h" "\<not> is_empty_bin b" by blast
  moreover have "stamps_closed e (\<lambda>_. True)" "stamps_in (\<lambda>_. True) h"
    by (simp_all add: stamps_closed_def stamps_in_def)
  ultimately show ?thesis
    using compress_spec [OF assms(1,2) _ _ assms(3,4), of e "\<lambda>_. True" b] by metis
qed

theorem compress_histogram_bounds_witness:
  "\<exists>k. compress_histogram \<lparr>cycles_per_nanosec = 3, ns_offset = 0\<rparr> 1
      [\<lparr>bin_center = 1, bin_count = 2, bin_timestamp = time_point_default\<rparr>,
       \<lparr>bin_center = 3, bin_count = 1, bin_timestamp = time_point_default\<rparr>] = Inr k \<and> length k \<le> 1"
  using compress_histogram_bounds [of
      "[\<lparr>bin_center = 1, bin_count = 2, bin_timestamp = time_point_default\<rparr>,
        \<lparr>bin_center = 3, bin_count = 1, bin_timestamp = time_point_default\<rparr>]" 1
      "\<lparr>cycles_per_nanosec = 3, ns_offset = 0\<rparr>"]
  by (auto simp: counts_nonneg_def is_empty_bin_iff epsilon_double_def)

text \<open>C28: For a histogram of two bins or more with non-negative counts and a weight of more than four
  epsilons, and a probability that is not negative, the quantile extractor reads past the end of the
  histogram exactly when the weight beyond the probability is no more than four epsilons: for every
  probability of one or more, and for smaller ones once the weight has decayed far enough. Otherwise
  it returns, or throws the logic error of \<open>find_z\<close>. (With fewer bins or less weight it returns
  without a look at the bins.)\<close>

theorem quantile_at_out_of_bounds:
  assumes "counts_nonneg h" "2 \<le> length h" "4 * epsilon_double < weight h" "0 \<le> probability"
  shows "(quantile_at h probability = Inl Out_of_bounds)
      = (weight h * (1 - probability) \<le> 4 * epsilon_double)
    \<and> (\<forall>x. quantile_at h probability = Inl x \<longrightarrow> x \<in> {Out_of_bounds, Logic_error})"
proof (cases "weight h * (1 - probability) \<le> 4 * epsilon_double")
  case True
  then have "weight h \<le> weight h * probability + 4 * epsilon_double" by (simp add: algebra_simps)
  then have "fst (quantile_scan h (-1) (weight h * probability)) = int (length h)"
    using assms(1) by (intro quantile_scan_to_end) auto
  then have "quantile_at h probability = Inl Out_of_bounds"
    using assms(2,3)
    by (cases "quantile_scan h (-1) (weight h * probability)")
      (auto simp: quantile_at_def Let_def total_count_weight cmp_le_0_iff quantile_bins_def)
  then show ?thesis using True by simp
next
  case False
  then have "weight h * probability + 4 * epsilon_double < weight h" by (simp add: algebra_simps)
  moreover have "0 \<le> weight h * probability" using assms(1,4) weight_nonneg by simp
  ultimately obtain j r where j: "quantile_scan h (-1) (weight h * probability) = (j, r)" "j < int (length h)"
    using quantile_scan_stops [of "-1" h "weight h * probability"] epsilon_nonneg(1) by force
  have "returns (quantile_at h probability) (\<lambda>_. True) (\<lambda>x. x = Logic_error)"
    using assms(2,3) j(1)
    by (auto simp: quantile_at_def Let_def total_count_weight cmp_le_0_iff
        intro!: returns_Inr returns_bind [OF quantile_bins_errors [OF j(2)]] returns_bind [OF find_z_errors])
  then show ?thesis using False by (auto simp: returns_def)
qed

theorem quantile_at_out_of_bounds_witness:
  "quantile_at [\<lparr>bin_center = 1, bin_count = 4 * epsilon_double, bin_timestamp = time_point_default\<rparr>,
     \<lparr>bin_center = 2, bin_count = 4 * epsilon_double, bin_timestamp = time_point_default\<rparr>] (95 / 100)
   = Inl Out_of_bounds"
  by (subst quantile_at_out_of_bounds [THEN conjunct1])
    (simp_all add: counts_nonneg_def epsilon_double_def)

text \<open>The extractor can throw for the lower quartile: a half-bin that is passed because it is
  larger than what is wanted by no more than the tolerance leaves a negative rest, and with light
  bins its root lies below the interval \<open>find_z\<close> accepts.\<close>

lemma quartile_of_light_bins_throws:
  "quantile_at [\<lparr>bin_center = 1, bin_count = 1 / 64, bin_timestamp = time_point_default\<rparr>,
     \<lparr>bin_center = 2, bin_count = 1 / 64 - 1 / 2 ^ 48, bin_timestamp = time_point_default\<rparr>] (25 / 100)
   = Inl Logic_error"
  using light_quadratic
  by (simp add: quantile_at_def total_count_def cmp_def quantile_scan.simps quantile_bins_def
      epsilon_double_def Let_def)

end
