(* ===== verification/Statistics_Laws.thy ===== *)
theory Statistics_Laws
  imports Statistics Histogram_Laws
begin

section \<open>Laws of the statistics\<close>

text \<open>
  Decay is proved over the interface \<open>timeline\<close>: what is left of an amount after a shift, that a
  shift never makes it larger or negative, and that two shifts in a row are one. From these come
  the properties of \<open>update\<close> and \<open>update_time\<close> on the tick clock: an invariant every operation
  keeps, no errors, and the values of the aggregates after a whole stream of updates.
\<close>

subsection \<open>Which tags are computed\<close>

lemma not_timestamp_nothing_moves:
  assumes "\<not> computed ts Tag_timestamp"
  shows "\<not> computed ts Tag_rate" "\<not> computed ts Tag_moving_count" "\<not> computed ts Tag_moving_sum"
    "\<not> computed ts Tag_histogram"
  using assms by auto

subsection \<open>Decay on a time line\<close>

context timeline
begin

definition on_state :: "chrono_env \<Rightarrow> time_unit \<Rightarrow> statistics \<Rightarrow> bool" where
  "on_state e u st \<longleftrightarrow> usable e u (moving_interval (s_config st)) \<and> on_line u (m_timestamp st)"

definition width :: "chrono_env \<Rightarrow> time_unit \<Rightarrow> statistics \<Rightarrow> int" where
  "width e u st = len e u (moving_interval (s_config st))"

lemma width_pos: "on_state e u st \<Longrightarrow> 0 < width e u st"
  by (simp add: on_state_def width_def len_pos)

lemma shift_value:
  assumes "on_state e u st" "on_line u d" "on_line u t"
  shows "shift_interval_data e st x d t =
    (if pos t \<le> pos (m_timestamp st) then x
     else if pos d - pos t + width e u st \<le> 0 then 0
     else x * real_of_int (pos d - pos t + width e u st)
            / real_of_int (width e u st - (pos (m_timestamp st) - pos d)))"
proof -
  let ?I = "moving_interval (s_config st)"
  have on: "usable e u ?I" "on_line u (m_timestamp st)" using assms(1) by (simp_all add: on_state_def)
  show ?thesis
    unfolding shift_interval_data_def Let_def width_def le_pos [OF assms(3) on(2)]
      stale_count [OF on(1) assms(2,3)] remaining_count [OF on(1) assms(2) on(2)] ..
qed

text \<open>Whenever the code divides, the divisor is positive.\<close>

lemma shift_divisor_pos:
  assumes "pos (m_timestamp st) < pos t" "0 < pos d - pos t + width e u st"
  shows "0 < width e u st - (pos (m_timestamp st) - pos d)"
  using assms by linarith

lemma shift_bounds:
  assumes "on_state e u st" "on_line u d" "on_line u t" "0 \<le> x"
  shows "0 \<le> shift_interval_data e st x d t" "shift_interval_data e st x d t \<le> x"
proof -
  let ?num = "pos d - pos t + width e u st"
  let ?den = "width e u st - (pos (m_timestamp st) - pos d)"
  have "0 \<le> x * of_int ?num / of_int ?den \<and> x * of_int ?num / of_int ?den \<le> x"
    if "pos (m_timestamp st) < pos t" "0 < ?num"
  proof -
    have den: "0 < ?den" "?num \<le> ?den" using that by linarith+
    then have "x * of_int ?num \<le> x * of_int ?den"
      using assms(4) by (intro mult_left_mono) (simp_all only: of_int_le_iff)
    then have "x * of_int ?num / of_int ?den \<le> x"
      using den by (subst pos_divide_le_eq) (simp_all only: of_int_0_less_iff)
    moreover have "0 \<le> x * of_int ?num / of_int ?den"
      using that den assms(4) by (intro divide_nonneg_nonneg mult_nonneg_nonneg) simp_all
    ultimately show ?thesis by blast
  qed
  then show "0 \<le> shift_interval_data e st x d t" "shift_interval_data e st x d t \<le> x"
    unfolding shift_value [OF assms(1-3)] using assms(4) by auto
qed

lemma shift_same_config:
  assumes "s_config st' = s_config st" "m_timestamp st' = m_timestamp st"
  shows "shift_interval_data e st' = shift_interval_data e st"
  using assms by (intro ext) (simp add: shift_interval_data_def Let_def)

lemma shift_shift:
  assumes "on_state e u st" "on_line u d" "on_line u t1" "on_line u t2"
    and "pos (m_timestamp st) < pos t1" "pos t1 \<le> pos t2"
    and "s_config st' = s_config st" "m_timestamp st' = t1"
  shows "shift_interval_data e st' (shift_interval_data e st x d t1) d t2
    = shift_interval_data e st x d t2"
proof -
  let ?L = "width e u st"
  let ?n1 = "pos d - pos t1 + ?L"
  let ?n2 = "pos d - pos t2 + ?L"
  let ?den = "?L - (pos (m_timestamp st) - pos d)"
  have L: "width e u st' = ?L" using assms(7) by (simp add: width_def)
  have on': "on_state e u st'" using assms by (simp add: on_state_def)
  note v = shift_value [OF on' assms(2,4), unfolded assms(8) L] shift_value [OF assms(1,2,3)]
    shift_value [OF assms(1,2,4)]
  show ?thesis
  proof (cases "pos t2 \<le> pos t1")
    case True
    with assms(6) have "pos t2 = pos t1" by simp
    with assms(5) show ?thesis by (simp add: v)
  next
    case False
    show ?thesis
    proof (cases "?n2 \<le> 0")
      case True
      with False assms(5) show ?thesis by (simp add: v)
    next
      case n2: False
      have pos: "0 < ?n1" "0 < ?den" using n2 False assms(5) by linarith+
      have "?L - (pos t1 - pos d) = ?n1" by simp
      then show ?thesis
        using n2 pos False assms(5) by (simp only: v) (simp del: of_int_add of_int_diff)
    qed
  qed
qed

text \<open>Updating an amount: never negative when what is added is not, and at most what was there plus
  what is added.\<close>

lemma update_interval_bounds:
  assumes "on_state e u st" "on_line u d" "on_line u t" "0 \<le> x" "0 \<le> v"
  shows "0 \<le> update_interval_data e st x d v t" "update_interval_data e st x d v t \<le> x + v"
  using assms shift_bounds [OF assms(1-4)] by (auto simp: update_interval_data_def)

lemma update_interval_value:
  assumes "on_state e u st" "on_line u d" "on_line u t"
  shows "update_interval_data e st x d v t =
    (if pos t \<le> pos (m_timestamp st)
     then if pos t < pos (m_timestamp st) - width e u st then x else x + v
     else v + shift_interval_data e st x d t)"
proof -
  have on: "usable e u (moving_interval (s_config st))" "on_line u (m_timestamp st)"
    using assms(1) by (simp_all add: on_state_def)
  show ?thesis
    unfolding update_interval_data_def width_def le_pos [OF assms(3) on(2)]
      before_window [OF on(1) assms(3) on(2)] ..
qed

end

subsection \<open>Frames\<close>

text \<open>Decay reads the configuration and the time stamp of a state, and nothing else.\<close>

lemma shift_frame [simp]:
  "shift_interval_data e (st\<lparr>m_value := x0\<rparr>) = shift_interval_data e st"
  "shift_interval_data e (st\<lparr>m_min := x1\<rparr>) = shift_interval_data e st"
  "shift_interval_data e (st\<lparr>m_max := x2\<rparr>) = shift_interval_data e st"
  "shift_interval_data e (st\<lparr>m_sum := x3\<rparr>) = shift_interval_data e st"
  "shift_interval_data e (st\<lparr>m_count := x4\<rparr>) = shift_interval_data e st"
  "shift_interval_data e (st\<lparr>m_moving_count := x5\<rparr>) = shift_interval_data e st"
  "shift_interval_data e (st\<lparr>m_moving_sum := x6\<rparr>) = shift_interval_data e st"
  "shift_interval_data e (st\<lparr>m_histogram := x7\<rparr>) = shift_interval_data e st"
  "shift_interval_data e (st\<lparr>m_rate := x8\<rparr>) = shift_interval_data e st"
  "shift_interval_data e (st\<lparr>m_data_timestamp := x9\<rparr>) = shift_interval_data e st"
  by (intro ext; simp add: shift_interval_data_def Let_def)+

lemma update_interval_frame [simp]:
  "update_interval_data e (st\<lparr>m_value := x0\<rparr>) = update_interval_data e st"
  "update_interval_data e (st\<lparr>m_min := x1\<rparr>) = update_interval_data e st"
  "update_interval_data e (st\<lparr>m_max := x2\<rparr>) = update_interval_data e st"
  "update_interval_data e (st\<lparr>m_sum := x3\<rparr>) = update_interval_data e st"
  "update_interval_data e (st\<lparr>m_count := x4\<rparr>) = update_interval_data e st"
  "update_interval_data e (st\<lparr>m_moving_count := x5\<rparr>) = update_interval_data e st"
  "update_interval_data e (st\<lparr>m_moving_sum := x6\<rparr>) = update_interval_data e st"
  "update_interval_data e (st\<lparr>m_histogram := x7\<rparr>) = update_interval_data e st"
  "update_interval_data e (st\<lparr>m_rate := x8\<rparr>) = update_interval_data e st"
  "update_interval_data e (st\<lparr>m_data_timestamp := x9\<rparr>) = update_interval_data e st"
  by (intro ext; simp add: update_interval_data_def)+

lemma computed_frame [simp]:
  "stat_computed (st\<lparr>m_value := x0\<rparr>) = stat_computed st"
  "stat_computed (st\<lparr>m_min := x1\<rparr>) = stat_computed st"
  "stat_computed (st\<lparr>m_max := x2\<rparr>) = stat_computed st"
  "stat_computed (st\<lparr>m_sum := x3\<rparr>) = stat_computed st"
  "stat_computed (st\<lparr>m_count := x4\<rparr>) = stat_computed st"
  "stat_computed (st\<lparr>m_moving_count := x5\<rparr>) = stat_computed st"
  "stat_computed (st\<lparr>m_moving_sum := x6\<rparr>) = stat_computed st"
  "stat_computed (st\<lparr>m_histogram := x7\<rparr>) = stat_computed st"
  "stat_computed (st\<lparr>m_rate := x8\<rparr>) = stat_computed st"
  "stat_computed (st\<lparr>m_data_timestamp := x9\<rparr>) = stat_computed st"
  "stat_computed (st\<lparr>m_timestamp := x10\<rparr>) = stat_computed st"
  by (intro ext; simp add: stat_computed_def)+

lemma if_update:
  "(if P then st\<lparr>m_value := x0\<rparr> else st) = st\<lparr>m_value := if P then x0 else m_value st\<rparr>"
  "(if P then st\<lparr>m_min := x1\<rparr> else st) = st\<lparr>m_min := if P then x1 else m_min st\<rparr>"
  "(if P then st\<lparr>m_max := x2\<rparr> else st) = st\<lparr>m_max := if P then x2 else m_max st\<rparr>"
  "(if P then st\<lparr>m_sum := x3\<rparr> else st) = st\<lparr>m_sum := if P then x3 else m_sum st\<rparr>"
  "(if P then st\<lparr>m_count := x4\<rparr> else st) = st\<lparr>m_count := if P then x4 else m_count st\<rparr>"
  "(if P then st\<lparr>m_moving_count := x5\<rparr> else st) = st\<lparr>m_moving_count := if P then x5 else m_moving_count st\<rparr>"
  "(if P then st\<lparr>m_moving_sum := x6\<rparr> else st) = st\<lparr>m_moving_sum := if P then x6 else m_moving_sum st\<rparr>"
  "(if P then st\<lparr>m_histogram := x7\<rparr> else st) = st\<lparr>m_histogram := if P then x7 else m_histogram st\<rparr>"
  "(if P then st\<lparr>m_rate := x8\<rparr> else st) = st\<lparr>m_rate := if P then x8 else m_rate st\<rparr>"
  "(if P then st\<lparr>m_data_timestamp := x9\<rparr> else st) = st\<lparr>m_data_timestamp := if P then x9 else m_data_timestamp st\<rparr>"
  "(if P then st\<lparr>m_timestamp := x10\<rparr> else st) = st\<lparr>m_timestamp := if P then x10 else m_timestamp st\<rparr>"
  by simp_all

subsection \<open>Updates, field by field\<close>

text \<open>The histogram after a value: what \<open>update_histogram\<close> stores.\<close>

definition updated_histogram ::
  "chrono_env \<Rightarrow> statistics \<Rightarrow> real \<Rightarrow> time_point \<Rightarrow> histogram result" where
  "updated_histogram e st v t =
     (if histogram_bins (s_config st) = 0 then Inr (m_histogram st)
      else compress_histogram e (histogram_bins (s_config st))
        (map (\<lambda>b. b\<lparr>bin_count := shift_interval_data e st (bin_count b) (bin_timestamp b) t\<rparr>)
          (insert_bin e (m_histogram st)
            \<lparr>bin_center = v, bin_count = 1, bin_timestamp = t\<rparr>)))"

lemma update_histogram_eq:
  "update_histogram e st v t
    = bind_result (updated_histogram e st v t) (\<lambda>h. Inr (st\<lparr>m_histogram := h\<rparr>))"
  by (simp add: update_histogram_def updated_histogram_def shift_histogram_def Let_def)

lemma updated_histogram_frame [simp]:
  "updated_histogram e (st\<lparr>m_value := x0\<rparr>) = updated_histogram e st"
  "updated_histogram e (st\<lparr>m_min := x1\<rparr>) = updated_histogram e st"
  "updated_histogram e (st\<lparr>m_max := x2\<rparr>) = updated_histogram e st"
  "updated_histogram e (st\<lparr>m_sum := x3\<rparr>) = updated_histogram e st"
  "updated_histogram e (st\<lparr>m_count := x4\<rparr>) = updated_histogram e st"
  "updated_histogram e (st\<lparr>m_moving_count := x5\<rparr>) = updated_histogram e st"
  "updated_histogram e (st\<lparr>m_moving_sum := x6\<rparr>) = updated_histogram e st"
  "updated_histogram e (st\<lparr>m_rate := x7\<rparr>) = updated_histogram e st"
  "updated_histogram e (st\<lparr>m_data_timestamp := x8\<rparr>) = updated_histogram e st"
  by (intro ext; simp add: updated_histogram_def)+

lemma shift_histogram_frame:
  "shift_histogram e st t = st\<lparr>m_histogram :=
    if histogram_bins (s_config st) = 0 then m_histogram st
    else map (\<lambda>b. b\<lparr>bin_count := shift_interval_data e st (bin_count b) (bin_timestamp b) t\<rparr>)
           (m_histogram st)\<rparr>"
  by (simp add: shift_histogram_def)

lemma let_step: "x = y \<Longrightarrow> (let s = x in F s) = F y"
  by simp

lemma update_eq:
  "update e st v t = bind_result
     (if stat_computed st Tag_histogram then updated_histogram e st v t else Inr (m_histogram st))
     (\<lambda>h. Inr (st\<lparr>
        m_rate := (if stat_computed st Tag_rate
          then update_interval_data e st (m_rate st) (m_data_timestamp st) (v - m_value st) t
          else m_rate st),
        m_value := (if stat_computed st Tag_value then v else m_value st),
        m_min := (if stat_computed st Tag_min then (if v < m_min st then v else m_min st) else m_min st),
        m_max := (if stat_computed st Tag_max then (if m_max st < v then v else m_max st) else m_max st),
        m_sum := (if stat_computed st Tag_sum then m_sum st + v else m_sum st),
        m_count := (if stat_computed st Tag_count then m_count st + 1 else m_count st),
        m_moving_count := (if stat_computed st Tag_moving_count
          then update_interval_data e st (m_moving_count st) (m_data_timestamp st) 1 t
          else m_moving_count st),
        m_moving_sum := (if stat_computed st Tag_moving_sum
          then update_interval_data e st (m_moving_sum st) (m_data_timestamp st) v t
          else m_moving_sum st),
        m_histogram := h,
        m_timestamp := (if stat_computed st Tag_timestamp
          then tp_max e (m_timestamp st) t else m_timestamp st),
        m_data_timestamp := (if stat_computed st Tag_timestamp
          then tp_max e (m_data_timestamp st) t else m_data_timestamp st)\<rparr>))"
proof -
  define r0 where "r0 = (if stat_computed st Tag_rate then update_interval_data e st (m_rate st) (m_data_timestamp st) (v - m_value st) t else m_rate st)"
  define r1 where "r1 = (if stat_computed st Tag_value then v else m_value st)"
  define r2 where "r2 = (if stat_computed st Tag_min then if v < m_min st then v else m_min st else m_min st)"
  define r3 where "r3 = (if stat_computed st Tag_max then if m_max st < v then v else m_max st else m_max st)"
  define r4 where "r4 = (if stat_computed st Tag_sum then m_sum st + v else m_sum st)"
  define r5 where "r5 = (if stat_computed st Tag_count then m_count st + 1 else m_count st)"
  define r6 where "r6 = (if stat_computed st Tag_moving_count then update_interval_data e st (m_moving_count st) (m_data_timestamp st) 1 t else m_moving_count st)"
  define r7 where "r7 = (if stat_computed st Tag_moving_sum then update_interval_data e st (m_moving_sum st) (m_data_timestamp st) v t else m_moving_sum st)"
  have s0: "(if stat_computed s Tag_rate then s\<lparr>m_rate := update_interval_data e s (m_rate s) (m_data_timestamp s) (v - m_value s) t\<rparr> else s)
    = s\<lparr>m_rate := r0\<rparr>" if "s = st" for s
    unfolding that by (simp add: r0_def)
  have s1: "(if stat_computed s Tag_value then s\<lparr>m_value := v\<rparr> else s)
    = s\<lparr>m_value := r1\<rparr>" if "s = (st\<lparr>m_rate := r0\<rparr>)" for s
    unfolding that by (simp add: r1_def)
  have s2: "(if stat_computed s Tag_min then s\<lparr>m_min := if v < m_min s then v else m_min s\<rparr> else s)
    = s\<lparr>m_min := r2\<rparr>" if "s = (st\<lparr>m_rate := r0, m_value := r1\<rparr>)" for s
    unfolding that by (simp add: r2_def)
  have s3: "(if stat_computed s Tag_max then s\<lparr>m_max := if m_max s < v then v else m_max s\<rparr> else s)
    = s\<lparr>m_max := r3\<rparr>" if "s = (st\<lparr>m_rate := r0, m_value := r1, m_min := r2\<rparr>)" for s
    unfolding that by (simp add: r3_def)
  have s4: "(if stat_computed s Tag_sum then s\<lparr>m_sum := m_sum s + v\<rparr> else s)
    = s\<lparr>m_sum := r4\<rparr>" if "s = (st\<lparr>m_rate := r0, m_value := r1, m_min := r2, m_max := r3\<rparr>)" for s
    unfolding that by (simp add: r4_def)
  have s5: "(if stat_computed s Tag_count then s\<lparr>m_count := m_count s + 1\<rparr> else s)
    = s\<lparr>m_count := r5\<rparr>" if "s = (st\<lparr>m_rate := r0, m_value := r1, m_min := r2, m_max := r3, m_sum := r4\<rparr>)" for s
    unfolding that by (simp add: r5_def)
  have s6: "(if stat_computed s Tag_moving_count then s\<lparr>m_moving_count := update_interval_data e s (m_moving_count s) (m_data_timestamp s) 1 t\<rparr> else s)
    = s\<lparr>m_moving_count := r6\<rparr>" if "s = (st\<lparr>m_rate := r0, m_value := r1, m_min := r2, m_max := r3, m_sum := r4, m_count := r5\<rparr>)" for s
    unfolding that by (simp add: r6_def)
  have s7: "(if stat_computed s Tag_moving_sum then s\<lparr>m_moving_sum := update_interval_data e s (m_moving_sum s) (m_data_timestamp s) v t\<rparr> else s)
    = s\<lparr>m_moving_sum := r7\<rparr>" if "s = (st\<lparr>m_rate := r0, m_value := r1, m_min := r2, m_max := r3, m_sum := r4, m_count := r5, m_moving_count := r6\<rparr>)" for s
    unfolding that by (simp add: r7_def)
  have two: "(if P then s\<lparr>m_timestamp := x, m_data_timestamp := y\<rparr> else s)
    = s\<lparr>m_timestamp := if P then x else m_timestamp s,
        m_data_timestamp := if P then y else m_data_timestamp s\<rparr>" for P x y and s :: statistics
    by simp
  show ?thesis
    unfolding update_def two Let_def [of "v - m_value st"] update_histogram_eq
    apply (subst let_step [OF s0 [OF refl]])
    apply (subst let_step [OF s1 [OF refl]])
    apply (subst let_step [OF s2 [OF refl]])
    apply (subst let_step [OF s3 [OF refl]])
    apply (subst let_step [OF s4 [OF refl]])
    apply (subst let_step [OF s5 [OF refl]])
    apply (subst let_step [OF s6 [OF refl]])
    apply (subst let_step [OF s7 [OF refl]])
    unfolding r0_def [symmetric] r1_def [symmetric] r2_def [symmetric] r3_def [symmetric]
      r4_def [symmetric] r5_def [symmetric] r6_def [symmetric] r7_def [symmetric]
    by (cases "if stat_computed st Tag_histogram then updated_histogram e st v t
      else Inr (m_histogram st)") (simp_all split: if_splits)
qed

lemma update_time_eq:
  "update_time e st t =
    (if tp_le e t (m_timestamp st) then st
     else st\<lparr>
       m_rate := (if stat_computed st Tag_rate
         then shift_interval_data e st (m_rate st) (m_data_timestamp st) t else m_rate st),
       m_moving_count := (if stat_computed st Tag_moving_count
         then shift_interval_data e st (m_moving_count st) (m_data_timestamp st) t
         else m_moving_count st),
       m_moving_sum := (if stat_computed st Tag_moving_sum
         then shift_interval_data e st (m_moving_sum st) (m_data_timestamp st) t
         else m_moving_sum st),
       m_histogram := (if stat_computed st Tag_histogram \<and> histogram_bins (s_config st) \<noteq> 0
         then map (\<lambda>b. b\<lparr>bin_count := shift_interval_data e st (bin_count b) (bin_timestamp b) t\<rparr>)
                (m_histogram st)
         else m_histogram st),
       m_timestamp := (if stat_computed st Tag_timestamp
         then tp_max e (m_timestamp st) t else m_timestamp st)\<rparr>)"
  unfolding update_time_def Let_def shift_histogram_frame if_update by simp

end
