(* ===== verification/Stat_Streams.thy ===== *)
theory Stat_Streams
  imports Statistics_Laws
begin

section \<open>Streams of values\<close>

text \<open>
  An object of class \<open>statistics\<close> lives through a sequence of \<open>update\<close> and \<open>update_time\<close> calls. This
  theory states the invariant of the class on the tick clock, proves that every call keeps it and
  that no call fails, and gives the value of every aggregate after a whole sequence.
\<close>

subsection \<open>The invariant of the class\<close>

text \<open>
  The interval is at least \<open>2 ^ 13\<close> ticks (a few microseconds): with it the bin that
  \<open>update_histogram\<close> has just inserted, and decays at once, never counts as empty.
\<close>

definition good_interval :: "chrono_env \<Rightarrow> stat_config \<Rightarrow> bool" where
  "good_interval e cfg \<longleftrightarrow> usable_interval e TICK (moving_interval cfg)
     \<and> 2 ^ 13 \<le> interval_len e TICK (moving_interval cfg)"

definition on_clock :: "time_point \<Rightarrow> bool" where
  "on_clock t \<longleftrightarrow> on_tick_line TICK t"

definition good_histogram :: "uint64 \<Rightarrow> histogram \<Rightarrow> bool" where
  "good_histogram bins h \<longleftrightarrow> centers_sorted h \<and> counts_nonneg h \<and> stamps_in on_clock h
     \<and> length h \<le> unat bins"

definition stat_inv :: "chrono_env \<Rightarrow> statistics \<Rightarrow> bool" where
  "stat_inv e st \<longleftrightarrow> good_interval e (s_config st)
     \<and> on_clock (m_timestamp st) \<and> on_clock (m_data_timestamp st)
     \<and> tick_pos (m_data_timestamp st) \<le> tick_pos (m_timestamp st)
     \<and> 0 \<le> m_moving_count st
     \<and> good_histogram (histogram_bins (s_config st)) (m_histogram st)"

lemma on_clock_default [simp]: "on_clock time_point_default"
  unfolding on_clock_def on_tick_line_def time_point_default_def tick_pos_def duration_default_def
  by simp

lemma on_clock_closed: "stamps_closed e on_clock"
  using on_clock_default by (auto simp: stamps_closed_def on_clock_def intro: tick.max_on_line)

lemma stat_inv_state: "stat_inv e st \<Longrightarrow> tick.on_state e TICK st"
  by (simp add: stat_inv_def good_interval_def tick.on_state_def on_clock_def)

lemma shift_inv:
  assumes "stat_inv e st" "on_clock d" "on_clock t" "0 \<le> x"
  shows "0 \<le> shift_interval_data e st x d t" "shift_interval_data e st x d t \<le> x"
  using tick.shift_bounds [OF stat_inv_state [OF assms(1)]] assms(2-4)
  by (simp_all add: on_clock_def)

definition decayed :: "chrono_env \<Rightarrow> statistics \<Rightarrow> time_point \<Rightarrow> histogram \<Rightarrow> histogram" where
  "decayed e st t h =
     map (\<lambda>b. b\<lparr>bin_count := shift_interval_data e st (bin_count b) (bin_timestamp b) t\<rparr>) h"

lemma decayed_centers [simp]: "centers_sorted (decayed e st t h) = centers_sorted h"
  by (simp add: centers_sorted_def decayed_def comp_def)

lemma decayed_stamps [simp]: "stamps_in P (decayed e st t h) = stamps_in P h"
  by (simp add: stamps_in_def decayed_def)

lemma decayed_length [simp]: "length (decayed e st t h) = length h"
  by (simp add: decayed_def)

lemma decayed_counts:
  assumes "stat_inv e st" "on_clock t" "stamps_in on_clock h" "counts_nonneg h"
  shows "counts_nonneg (decayed e st t h)" "weight (decayed e st t h) \<le> weight h"
  using shift_inv [OF assms(1)] assms
  by (auto simp: counts_nonneg_def decayed_def stamps_in_def weight_def comp_def intro!: sum_list_mono)

text \<open>The bin of a value just seen is not empty after the decay.\<close>

lemma new_bin_not_empty:
  assumes "stat_inv e st" "on_clock t"
  shows "4 * epsilon_double < shift_interval_data e st 1 t t"
proof -
  define L m p where "L = tick.width e TICK st" "m = tick_pos (m_timestamp st)" "p = tick_pos t"
  have r: "2 ^ 13 \<le> L" "0 \<le> m" "0 \<le> p" "p < 2 ^ 62"
    using assms by (simp_all add: L_m_p_def tick.width_def stat_inv_def good_interval_def on_clock_def
        on_tick_line_def)
  have v: "shift_interval_data e st 1 t t = (if p \<le> m then 1 else of_int L / of_int (L - (m - p)))"
    using tick.shift_value [OF stat_inv_state [OF assms(1)]] assms(2) r
    by (simp add: on_clock_def L_m_p_def)
  have "4 * epsilon_double < of_int L / of_int (L - (m - p))" if "m < p"
  proof -
    have "L - (m - p) < L + 2 ^ 62" using r by linarith
    also have "L + 2 ^ 62 \<le> L * 2 ^ 50" using r(1) by simp
    finally have "L - (m - p) < L * 2 ^ 50" .
    then have "real_of_int (L - (m - p)) < real_of_int (L * 2 ^ 50)" by (simp only: of_int_less_iff)
    moreover have "0 < real_of_int (L - (m - p))" using r that by simp
    ultimately show ?thesis by (simp add: epsilon_double_def field_simps)
  qed
  then show ?thesis by (simp add: v epsilon_double_def)
qed

text \<open>One histogram update from an invariant state succeeds and leaves a good histogram.\<close>

lemma updated_histogram_good:
  assumes "stat_inv e st" "on_clock t"
  obtains k where "updated_histogram e st v t = Inr k"
    "good_histogram (histogram_bins (s_config st)) k"
    "weight k \<le> weight (m_histogram st) + 1"
proof (cases "histogram_bins (s_config st) = 0")
  case True
  then show ?thesis using assms that [of "m_histogram st"]
    by (simp add: updated_histogram_def stat_inv_def)
next
  case False
  let ?new = "\<lparr>bin_center = v, bin_count = 1, bin_timestamp = t\<rparr>"
  let ?i = "insert_bin e (m_histogram st) ?new"
  let ?h = "decayed e st t ?i"
  have good: "centers_sorted (m_histogram st)" "counts_nonneg (m_histogram st)"
    "stamps_in on_clock (m_histogram st)" "length (m_histogram st) \<le> unat (histogram_bins (s_config st))"
    using assms(1) by (simp_all add: stat_inv_def good_histogram_def)
  have i: "centers_sorted ?i" "counts_nonneg ?i" "stamps_in on_clock ?i"
    using good assms(2) insert_bin_sorted by (simp_all add: counts_nonneg_def stamps_in_def)
  have b: "?new\<lparr>bin_count := shift_interval_data e st 1 t t\<rparr> \<in> set ?h"
    "\<not> is_empty_bin (?new\<lparr>bin_count := shift_interval_data e st 1 t t\<rparr>)"
    using new_bin_not_empty [OF assms] by (auto simp: decayed_def is_empty_bin_iff image_iff)
  have "0 < unat (histogram_bins (s_config st))" using False by (simp add: unat_gt_0)
  then obtain k where k: "compress_histogram e (histogram_bins (s_config st)) ?h = Inr k"
    "centers_sorted k" "counts_nonneg k" "length k \<le> unat (histogram_bins (s_config st))"
    "weight k \<le> weight ?h" "stamps_in on_clock k"
    using compress_spec [where h = ?h and P = on_clock and e = e and b = "?new\<lparr>bin_count := shift_interval_data e st 1 t t\<rparr>"
        and bins = "histogram_bins (s_config st)"]
      i good on_clock_closed b decayed_counts(1) [OF assms i(3,2)] by auto
  have "weight ?h \<le> weight (m_histogram st) + 1"
    using decayed_counts(2) [OF assms i(3,2)] by (simp add: weight_insert_bin)
  then show ?thesis using that [of k] k False
    by (simp add: updated_histogram_def good_histogram_def decayed_def)
qed

lemma max_clock:
  assumes "on_clock a" "on_clock b"
  shows "on_clock (tp_max e a b)" "tick_pos (tp_max e a b) = max (tick_pos a) (tick_pos b)"
  using assms by (simp_all add: on_clock_def tick.max_on_line tick.max_pos)

text \<open>What one update does to the fields the sequences below are about.\<close>

lemma update_inv:
  assumes "stat_inv e st" "on_clock t"
  obtains st' where "update e st v t = Inr st'" "stat_inv e st'" "s_config st' = s_config st"
    "m_value st' = (if stat_computed st Tag_value then v else m_value st)"
    "m_min st' = (if stat_computed st Tag_min then min v (m_min st) else m_min st)"
    "m_max st' = (if stat_computed st Tag_max then max v (m_max st) else m_max st)"
    "m_sum st' = (if stat_computed st Tag_sum then m_sum st + v else m_sum st)"
    "m_count st' = (if stat_computed st Tag_count then m_count st + 1 else m_count st)"
    "m_moving_count st' \<le> m_moving_count st + 1"
    "weight (m_histogram st') \<le> weight (m_histogram st) + 1"
    "m_timestamp st' = (if stat_computed st Tag_timestamp then tp_max e (m_timestamp st) t
       else m_timestamp st)"
proof -
  obtain k where k: "updated_histogram e st v t = Inr k"
    "good_histogram (histogram_bins (s_config st)) k" "weight k \<le> weight (m_histogram st) + 1"
    by (rule updated_histogram_good [OF assms])
  define h where "h = (if stat_computed st Tag_histogram then k else m_histogram st)"
  have h: "good_histogram (histogram_bins (s_config st)) h" "weight h \<le> weight (m_histogram st) + 1"
    using k(2,3) assms(1) by (auto simp: h_def stat_inv_def)
  have res: "(if stat_computed st Tag_histogram then updated_histogram e st v t
      else Inr (m_histogram st)) = Inr h"
    by (simp add: h_def k(1))
  have c: "on_clock (m_timestamp st)" "on_clock (m_data_timestamp st)"
    "tick_pos (m_data_timestamp st) \<le> tick_pos (m_timestamp st)" "0 \<le> m_moving_count st"
    using assms(1) by (simp_all add: stat_inv_def)
  let ?mc = "update_interval_data e st (m_moving_count st) (m_data_timestamp st) 1 t"
  have mc: "0 \<le> ?mc" "?mc \<le> m_moving_count st + 1"
    using tick.update_interval_bounds [OF stat_inv_state [OF assms(1)] c(2) [unfolded on_clock_def]
        assms(2) [unfolded on_clock_def] c(4)] by simp_all
  show ?thesis
    by (rule that, unfold update_eq res bind_result.simps, rule refl)
      (use assms c mc h max_clock in \<open>auto simp: stat_inv_def\<close>)
qed

lemma update_time_inv:
  assumes "stat_inv e st" "on_clock t"
  shows "stat_inv e (update_time e st t)" "s_config (update_time e st t) = s_config st"
    "m_value (update_time e st t) = m_value st" "m_min (update_time e st t) = m_min st"
    "m_max (update_time e st t) = m_max st" "m_sum (update_time e st t) = m_sum st"
    "m_count (update_time e st t) = m_count st"
    "m_moving_count (update_time e st t) \<le> m_moving_count st"
    "weight (m_histogram (update_time e st t)) \<le> weight (m_histogram st)"
    "m_timestamp (update_time e st t) =
       (if stat_computed st Tag_timestamp then tp_max e (m_timestamp st) t else m_timestamp st)"
proof -
  have c: "on_clock (m_timestamp st)" "on_clock (m_data_timestamp st)"
    "tick_pos (m_data_timestamp st) \<le> tick_pos (m_timestamp st)" "0 \<le> m_moving_count st"
    using assms(1) by (simp_all add: stat_inv_def)
  note mc = shift_inv [OF assms(1) c(2) assms(2) c(4)]
  have good: "good_histogram (histogram_bins (s_config st)) (m_histogram st)"
    using assms(1) by (simp add: stat_inv_def)
  then have h: "good_histogram (histogram_bins (s_config st)) (decayed e st t (m_histogram st))"
    "weight (decayed e st t (m_histogram st)) \<le> weight (m_histogram st)"
    using decayed_counts [OF assms] by (simp_all add: good_histogram_def)
  show "stat_inv e (update_time e st t)"
    using assms c mc good h(1) max_clock [OF c(1) assms(2), of e]
    by (auto simp: stat_inv_def update_time_eq decayed_def [symmetric])
  have "tp_le e t (m_timestamp st) \<Longrightarrow> tp_max e (m_timestamp st) t = m_timestamp st"
    using c(1) assms(2) by (auto simp: tick.le_pos on_clock_def intro: tick.max_absorb1)
  then show "m_timestamp (update_time e st t) =
       (if stat_computed st Tag_timestamp then tp_max e (m_timestamp st) t else m_timestamp st)"
    by (simp add: update_time_eq)
qed (use shift_inv [OF assms(1)] assms decayed_counts [OF assms] in
    \<open>auto simp: update_time_eq decayed_def [symmetric] stat_inv_def good_histogram_def\<close>)

subsection \<open>Sequences of calls\<close>

datatype stat_op = Op_update real time_point | Op_time time_point

fun run_op :: "chrono_env \<Rightarrow> statistics \<Rightarrow> stat_op \<Rightarrow> statistics result" where
  "run_op e st (Op_update v t) = update e st v t"
| "run_op e st (Op_time t) = Inr (update_time e st t)"

fun run_ops :: "chrono_env \<Rightarrow> statistics \<Rightarrow> stat_op list \<Rightarrow> statistics result" where
  "run_ops e st [] = Inr st"
| "run_ops e st (op # ops) = bind_result (run_op e st op) (\<lambda>st. run_ops e st ops)"

fun op_time :: "stat_op \<Rightarrow> time_point" where
  "op_time (Op_update v t) = t"
| "op_time (Op_time t) = t"

fun op_values :: "stat_op list \<Rightarrow> real list" where
  "op_values [] = []"
| "op_values (Op_update v t # ops) = v # op_values ops"
| "op_values (Op_time t # ops) = op_values ops"

definition on_clock_ops :: "stat_op list \<Rightarrow> bool" where
  "on_clock_ops ops \<longleftrightarrow> (\<forall>op\<in>set ops. on_clock (op_time op))"

lemma on_clock_ops_simps [simp]:
  "on_clock_ops []" "on_clock_ops (op # ops) \<longleftrightarrow> on_clock (op_time op) \<and> on_clock_ops ops"
  by (auto simp: on_clock_ops_def)

lemma statistics_new_inv: "good_interval e cfg \<Longrightarrow> stat_inv e (statistics_new cfg)"
  by (simp add: stat_inv_def statistics_new_def reset_def good_histogram_def counts_nonneg_def
      stamps_in_def)

text \<open>The general induction: any relation between a state and the values still to come that every
  call transports.\<close>

lemma run_ops_induct:
  assumes "stat_inv e st" "on_clock_ops ops" "set (op_values ops) \<subseteq> V" "R st"
    and upd: "\<And>st st' v t. stat_inv e st \<Longrightarrow> on_clock t \<Longrightarrow> v \<in> V
      \<Longrightarrow> R st \<Longrightarrow> update e st v t = Inr st' \<Longrightarrow> R st'"
    and time: "\<And>st t. stat_inv e st \<Longrightarrow> on_clock t \<Longrightarrow> R st \<Longrightarrow> R (update_time e st t)"
  shows "\<exists>st'. run_ops e st ops = Inr st' \<and> stat_inv e st' \<and> R st'"
  using assms(1-4)
proof (induction ops arbitrary: st)
  case (Cons op ops)
  show ?case
  proof (cases op)
    case (Op_update v t)
    then obtain st' where st': "update e st v t = Inr st'" "stat_inv e st'"
      using update_inv [OF Cons.prems(1)] Cons.prems(2) by (metis on_clock_ops_simps(2) op_time.simps(1))
    moreover have "R st'" using Cons.prems(1,2,3,4) Op_update st'(1) by (auto intro: upd)
    ultimately show ?thesis using Cons.IH [OF st'(2)] Cons.prems(2,3) Op_update by simp
  next
    case (Op_time t)
    then have "on_clock t" using Cons.prems(2) by simp
    note u = update_time_inv(1) [OF Cons.prems(1) this] time [OF Cons.prems(1) this Cons.prems(4)]
    show ?thesis using Cons.IH [OF u(1) _ _ u(2)] Cons.prems(2,3) Op_time by simp
  qed
qed simp

text \<open>What a stream of values makes of the running aggregates.\<close>

definition summary :: "statistics \<Rightarrow> real list \<Rightarrow> statistics \<Rightarrow> bool" where
  "summary st vs st' \<longleftrightarrow> s_config st' = s_config st
    \<and> m_moving_count st' \<le> m_moving_count st + real (length vs)
    \<and> weight (m_histogram st') \<le> weight (m_histogram st) + real (length vs)
    \<and> m_count st' = (if stat_computed st Tag_count then m_count st + of_nat (length vs) else m_count st)
    \<and> m_sum st' = (if stat_computed st Tag_sum then m_sum st + sum_list vs else m_sum st)
    \<and> m_min st' = (if stat_computed st Tag_min then foldl min (m_min st) vs else m_min st)
    \<and> m_max st' = (if stat_computed st Tag_max then foldl max (m_max st) vs else m_max st)
    \<and> m_value st' = (if stat_computed st Tag_value then last (m_value st # vs) else m_value st)"

lemma summary_refl: "summary st [] st"
  by (simp add: summary_def)

lemma summary_trans:
  assumes "summary st vs st'" "summary st' ws st''"
  shows "summary st (vs @ ws) st''"
proof -
  have c: "stat_computed st' = stat_computed st"
    using assms(1) by (intro ext) (simp add: summary_def stat_computed_def)
  have l: "last (last (x # vs) # ws) = last (x # vs @ ws)" for x :: real
    by (cases ws) auto
  show ?thesis
    using assms unfolding summary_def c by (simp add: l del: last.simps)
qed

lemma update_summary:
  assumes "stat_inv e st" "on_clock t"
  obtains st' where "update e st v t = Inr st'" "stat_inv e st'" "summary st [v] st'"
proof (rule update_inv [OF assms, of v])
  fix st' assume st': "update e st v t = Inr st'" "stat_inv e st'" "s_config st' = s_config st"
    "m_value st' = (if stat_computed st Tag_value then v else m_value st)"
    "m_min st' = (if stat_computed st Tag_min then min v (m_min st) else m_min st)"
    "m_max st' = (if stat_computed st Tag_max then max v (m_max st) else m_max st)"
    "m_sum st' = (if stat_computed st Tag_sum then m_sum st + v else m_sum st)"
    "m_count st' = (if stat_computed st Tag_count then m_count st + 1 else m_count st)"
    "m_moving_count st' \<le> m_moving_count st + 1"
    "weight (m_histogram st') \<le> weight (m_histogram st) + 1"
  then have "summary st [v] st'" by (simp add: summary_def min.commute max.commute)
  with st'(1,2) show thesis by (rule that)
qed

lemma update_time_summary:
  assumes "stat_inv e st" "on_clock t"
  shows "summary st [] (update_time e st t)"
  using update_time_inv [OF assms] by (simp add: summary_def)

lemma run_ops_summary:
  assumes "stat_inv e st" "on_clock_ops ops"
  shows "\<exists>st'. run_ops e st ops = Inr st' \<and> stat_inv e st' \<and> summary st (op_values ops) st'"
  using assms
proof (induction ops arbitrary: st)
  case Nil
  then show ?case by (simp add: summary_refl)
next
  case (Cons op ops)
  have "\<exists>st1. run_op e st op = Inr st1 \<and> stat_inv e st1 \<and> summary st (op_values [op]) st1"
  proof (cases op)
    case (Op_update v t)
    then show ?thesis using update_summary [OF Cons.prems(1), of t v] Cons.prems(2) by auto
  next
    case (Op_time t)
    then show ?thesis
      using update_time_summary [OF Cons.prems(1)] update_time_inv(1) [OF Cons.prems(1)] Cons.prems(2) by simp
  qed
  then obtain st1 where st1: "run_op e st op = Inr st1" "stat_inv e st1" "summary st (op_values [op]) st1"
    by blast
  moreover obtain st2 where "run_ops e st1 ops = Inr st2" "stat_inv e st2" "summary st1 (op_values ops) st2"
    using Cons.IH [OF st1(2)] Cons.prems(2) by auto
  moreover have "op_values (op # ops) = op_values [op] @ op_values ops" by (cases op) simp_all
  ultimately show ?case using summary_trans by (simp only: run_ops.simps bind_result.simps) metis
qed

subsection \<open>Moving averages\<close>

lemma shift_linear: "shift_interval_data e st x d t = x * shift_interval_data e st 1 d t"
  by (simp add: shift_interval_data_def Let_def)

text \<open>The moving sum lies between the moving count times the least and the greatest value.\<close>

definition sum_between :: "real \<Rightarrow> real \<Rightarrow> statistics \<Rightarrow> bool" where
  "sum_between lo hi st \<longleftrightarrow> stat_computed st Tag_moving_avg
     \<and> lo * m_moving_count st \<le> m_moving_sum st \<and> m_moving_sum st \<le> hi * m_moving_count st"

lemma moving_avg_computed:
  assumes "stat_computed st Tag_moving_avg"
  shows "stat_computed st Tag_moving_count" "stat_computed st Tag_moving_sum"
  using assms by (simp_all add: stat_computed_def)

lemma shift_between:
  assumes "stat_inv e st" "on_clock d" "on_clock t" "lo * c \<le> s" "s \<le> hi * c"
  shows "lo * shift_interval_data e st c d t \<le> shift_interval_data e st s d t
    \<and> shift_interval_data e st s d t \<le> hi * shift_interval_data e st c d t"
proof -
  define f where "f = shift_interval_data e st 1 d t"
  have "0 \<le> f" using shift_inv(1) [OF assms(1-3), of 1] by (simp add: f_def)
  then have "lo * c * f \<le> s * f" "s * f \<le> hi * c * f"
    using assms(4,5) by (simp_all add: mult_right_mono)
  then show ?thesis
    unfolding shift_linear [of e st c d t] shift_linear [of e st s d t] f_def [symmetric]
    by (simp add: mult.assoc)
qed

lemma update_between:
  assumes "stat_inv e st" "on_clock t" "sum_between lo hi st" "lo \<le> v" "v \<le> hi"
    and "update e st v t = Inr st'"
  shows "sum_between lo hi st'"
proof -
  have m: "stat_computed st Tag_moving_count" "stat_computed st Tag_moving_sum"
    using assms(3) moving_avg_computed by (simp_all add: sum_between_def)
  let ?u = "\<lambda>x y. update_interval_data e st x (m_data_timestamp st) y t"
  have "stat_computed st' = stat_computed st"
    "m_moving_count st' = ?u (m_moving_count st) 1" "m_moving_sum st' = ?u (m_moving_sum st) v"
    using assms(6) m unfolding update_eq
    by (auto simp: stat_computed_def fun_eq_iff bind_result_Inr_iff)
  moreover have "on_clock (m_data_timestamp st)" using assms(1) by (simp add: stat_inv_def)
  then have "lo * shift_interval_data e st (m_moving_count st) (m_data_timestamp st) t
      \<le> shift_interval_data e st (m_moving_sum st) (m_data_timestamp st) t
    \<and> shift_interval_data e st (m_moving_sum st) (m_data_timestamp st) t
      \<le> hi * shift_interval_data e st (m_moving_count st) (m_data_timestamp st) t"
    using assms(3) by (intro shift_between [OF assms(1) _ assms(2)]) (simp_all add: sum_between_def)
  then have "lo * ?u (m_moving_count st) 1 \<le> ?u (m_moving_sum st) v
    \<and> ?u (m_moving_sum st) v \<le> hi * ?u (m_moving_count st) 1"
    using assms(3-5) by (auto simp: update_interval_data_def sum_between_def distrib_left)
  ultimately show ?thesis using assms(3) by (simp add: sum_between_def)
qed

lemma update_time_between:
  assumes "stat_inv e st" "on_clock t" "sum_between lo hi st"
  shows "sum_between lo hi (update_time e st t)"
proof -
  have "on_clock (m_data_timestamp st)" using assms(1) by (simp add: stat_inv_def)
  then show ?thesis
    using assms(3) moving_avg_computed [of st] shift_between [OF assms(1) _ assms(2)]
    by (auto simp: sum_between_def update_time_eq stat_computed_def)
qed

subsection \<open>Time passing\<close>

text \<open>Any two calls of \<open>update_time\<close> in order have the effect of the last.\<close>

lemma shift_tick_shift:
  assumes "stat_inv e st" "on_clock d" "on_clock t1" "on_clock t2"
    and "tick_pos (m_timestamp st) < tick_pos t1" "tick_pos t1 \<le> tick_pos t2"
    and "s_config st' = s_config st" "m_timestamp st' = t1"
  shows "shift_interval_data e st' (shift_interval_data e st x d t1) d t2 = shift_interval_data e st x d t2"
  using assms by (intro tick.shift_shift [OF stat_inv_state]) (simp_all add: on_clock_def)

lemma update_time_not_later:
  "on_clock t \<Longrightarrow> stat_inv e st \<Longrightarrow> tick_pos t \<le> tick_pos (m_timestamp st) \<Longrightarrow> update_time e st t = st"
  by (simp add: update_time_eq stat_inv_def on_clock_def tick.le_pos)

lemma update_time_fields:
  assumes "\<not> tp_le e t (m_timestamp st)"
  shows "m_rate (update_time e st t) = (if stat_computed st Tag_rate
      then shift_interval_data e st (m_rate st) (m_data_timestamp st) t else m_rate st)"
    "m_moving_count (update_time e st t) = (if stat_computed st Tag_moving_count
      then shift_interval_data e st (m_moving_count st) (m_data_timestamp st) t else m_moving_count st)"
    "m_moving_sum (update_time e st t) = (if stat_computed st Tag_moving_sum
      then shift_interval_data e st (m_moving_sum st) (m_data_timestamp st) t else m_moving_sum st)"
    "m_histogram (update_time e st t) =
      (if stat_computed st Tag_histogram \<and> histogram_bins (s_config st) \<noteq> 0
       then decayed e st t (m_histogram st) else m_histogram st)"
    "m_timestamp (update_time e st t) =
      (if stat_computed st Tag_timestamp then tp_max e (m_timestamp st) t else m_timestamp st)"
    "m_data_timestamp (update_time e st t) = m_data_timestamp st"
    "s_config (update_time e st t) = s_config st" "m_value (update_time e st t) = m_value st"
    "m_min (update_time e st t) = m_min st" "m_max (update_time e st t) = m_max st"
    "m_sum (update_time e st t) = m_sum st" "m_count (update_time e st t) = m_count st"
  using assms by (simp_all add: update_time_eq decayed_def)

lemma update_time_twice:
  assumes "stat_inv e st" "on_clock t1" "on_clock t2" "tick_pos t1 \<le> tick_pos t2"
  shows "update_time e (update_time e st t1) t2 = update_time e st t2"
proof -
  have c: "on_clock (m_timestamp st)" "on_clock (m_data_timestamp st)"
    and h: "stamps_in on_clock (m_histogram st)"
    using assms(1) by (simp_all add: stat_inv_def good_histogram_def)
  consider "tick_pos t1 \<le> tick_pos (m_timestamp st)"
    | "tick_pos (m_timestamp st) < tick_pos t1" "\<not> stat_computed st Tag_timestamp"
    | "tick_pos (m_timestamp st) < tick_pos t1" "stat_computed st Tag_timestamp" by linarith
  then show ?thesis
  proof cases
    case 1
    then show ?thesis using assms by (simp add: update_time_not_later)
  next
    case 2
    then have "update_time e st t = st" for t
      using not_timestamp_nothing_moves [of "tags (s_config st)"]
      by (simp add: update_time_eq stat_computed_def)
    then show ?thesis by simp
  next
    case 3
    define st1 where "st1 = update_time e st t1"
    have le1: "\<not> tp_le e t1 (m_timestamp st)" "\<not> tp_le e t2 (m_timestamp st)"
      and max: "tp_max e (m_timestamp st) t1 = t1" "tp_max e (m_timestamp st) t2 = t2"
      using 3 assms c by (auto simp: on_clock_def tick.le_pos tick.max_absorb)
    note f1 = update_time_fields [OF le1(1), folded st1_def] and f2 = update_time_fields [OF le1(2)]
    have st1: "s_config st1 = s_config st" "m_timestamp st1 = t1" "stat_computed st1 = stat_computed st"
      using 3 max by (simp_all add: f1 stat_computed_def fun_eq_iff)
    have shift: "shift_interval_data e st1 (shift_interval_data e st x d t1) d t2
        = shift_interval_data e st x d t2" if "on_clock d" for x d
      using shift_tick_shift [OF assms(1) that assms(2,3) 3(1) assms(4) st1(1,2)] .
    show ?thesis
    proof (cases "tick_pos t2 \<le> tick_pos t1")
      case True
      with assms have "t1 = t2" by (auto simp: on_clock_def intro: tick.inj_pos)
      then show ?thesis
        using update_time_not_later [OF assms(3) update_time_inv(1) [OF assms(1,3)]] st1(2)
        by (simp add: st1_def)
    next
      case False
      then have le2: "\<not> tp_le e t2 t1" and max2: "tp_max e t1 t2 = t2"
        using assms by (auto simp: on_clock_def tick.le_pos tick.max_absorb)
      then have f3: "\<not> tp_le e t2 (m_timestamp st1)" by (simp add: st1)
      have "m_histogram (update_time e st1 t2) = m_histogram (update_time e st t2)"
        using shift h by (simp add: update_time_fields [OF f3] f1 f2 st1 decayed_def stamps_in_def)
      then have "update_time e st1 t2 = update_time e st t2"
        using max max2 shift [OF c(2)] 3(2)
        by (intro statistics.equality) (simp_all add: update_time_fields [OF f3] f1 f2 st1)
      then show ?thesis by (simp add: st1_def)
    qed
  qed
qed

subsection \<open>Properties\<close>

text \<open>A concrete machine (two cycles per nanosecond) for the examples.\<close>

abbreviation example_env :: chrono_env where
  "example_env \<equiv> \<lparr>cycles_per_nanosec = 2, ns_offset = 0\<rparr>"

abbreviation tick_time :: "int64 \<Rightarrow> time_point" where
  "tick_time n \<equiv> tpt (dur n TICK) TSC"

lemma example_interval: "good_interval example_env stat_config_default"
  by (simp add: good_interval_def usable_interval_def interval_len_def stat_config_default_def
      dur_convert_to_def real_to_int64_def trunc_def fits64_def less_eq_time_unit_def)

lemma example_clock:
  "on_clock (tick_time 0)" "on_clock (tick_time 5)" "on_clock (tick_time 1000)"
  "on_clock (tick_time 9000000000)"
  by (simp_all add: on_clock_def on_tick_line_def tick_pos_def)

lemma default_computes:
  "stat_computed (statistics_new stat_config_default) t \<longleftrightarrow>
     t \<in> {Tag_value, Tag_min, Tag_max, Tag_count, Tag_sum, Tag_avg, Tag_moving_count, Tag_moving_sum,
       Tag_moving_avg, Tag_timestamp}"
  by (cases t) (simp_all add: stat_computed_def statistics_new_def reset_def stat_config_default_def
      enabled_def)

text \<open>C1: No sequence of updates and time updates of a new statistics object, in any order of time
  stamps, fails; the class invariant holds afterwards: the configuration is unchanged, time stamps
  stay on the clock with data not newer than time, the histogram is sorted, has no negative count
  and at most the configured number of bins, and neither the moving count nor the weight of the
  histogram exceeds the number of values seen.\<close>

theorem run_ops_keeps_invariant:
  assumes "good_interval e cfg" "on_clock_ops ops"
  shows "\<exists>st. run_ops e (statistics_new cfg) ops = Inr st \<and> stat_inv e st \<and> s_config st = cfg
    \<and> m_moving_count st \<le> real (length (op_values ops))
    \<and> weight (m_histogram st) \<le> real (length (op_values ops))"
  using run_ops_summary [OF statistics_new_inv [OF assms(1)] assms(2)]
  by (fastforce simp: summary_def statistics_new_def reset_def)

theorem run_ops_keeps_invariant_witness:
  "\<exists>st. run_ops example_env (statistics_new stat_config_default)
      [Op_update 4 (tick_time 1000), Op_update 2 (tick_time 5), Op_time (tick_time 9000000000)] = Inr st
    \<and> stat_inv example_env st \<and> s_config st = stat_config_default \<and> m_moving_count st \<le> 2
    \<and> weight (m_histogram st) \<le> 2"
  using run_ops_keeps_invariant [of example_env stat_config_default
      "[Op_update 4 (tick_time 1000), Op_update 2 (tick_time 5), Op_time (tick_time 9000000000)]"]
  by (simp add: example_interval example_clock)

lemma run_ops_aggregates:
  assumes "good_interval e cfg" "on_clock_ops ops"
    and "\<forall>t\<in>{Tag_count, Tag_sum, Tag_min, Tag_max, Tag_value}. stat_computed (statistics_new cfg) t"
  shows "\<exists>st. run_ops e (statistics_new cfg) ops = Inr st
    \<and> stat_count st = Inr (of_nat (length (op_values ops)))
    \<and> stat_sum st = Inr (sum_list (op_values ops))
    \<and> stat_min st = Inr (foldl min double_max (op_values ops))
    \<and> stat_max st = Inr (foldl max double_min (op_values ops))
    \<and> stat_value st = Inr (last (0 # op_values ops))"
proof -
  obtain st where st: "run_ops e (statistics_new cfg) ops = Inr st"
    "summary (statistics_new cfg) (op_values ops) st"
    using run_ops_summary [OF statistics_new_inv [OF assms(1)] assms(2)] by blast
  then have "stat_computed st = stat_computed (statistics_new cfg)"
    by (intro ext) (simp add: summary_def stat_computed_def)
  then show ?thesis
    using st assms(3)
    by (simp add: summary_def stat_count_def stat_sum_def stat_min_def stat_max_def stat_value_def
        get_def get_impl_def get_impl_count_def get_impl_sum_def get_impl_min_def get_impl_max_def
        get_impl_value_def statistics_new_def reset_def)
qed

text \<open>C18: After any sequence of calls with times on the tick clock, for options with a usable moving
  interval and the five tags computed, the running aggregates are those of the list of values: their
  number (modulo \<open>2 ^ 64\<close>), their sum, the least of them and of the largest finite double, the
  greatest of them and of \<open>double_min\<close>, the smallest positive normal double, where the code starts
  (so not the greatest value when none is as large), and the last one, or 0 when there is none.\<close>

theorem run_ops_computes_aggregates:
  assumes "good_interval e cfg" "on_clock_ops ops"
    and "\<forall>t\<in>{Tag_count, Tag_sum, Tag_min, Tag_max, Tag_value}. stat_computed (statistics_new cfg) t"
  shows "\<exists>st. run_ops e (statistics_new cfg) ops = Inr st
    \<and> stat_count st = Inr (of_nat (length (op_values ops)))
    \<and> stat_sum st = Inr (sum_list (op_values ops))
    \<and> stat_min st = Inr (foldl min double_max (op_values ops))
    \<and> stat_max st = Inr (foldl max double_min (op_values ops))
    \<and> stat_value st = Inr (last (0 # op_values ops))"
  by (rule run_ops_aggregates [OF assms])

theorem run_ops_computes_aggregates_witness:
  "\<exists>st. run_ops example_env (statistics_new stat_config_default)
      [Op_update 4 (tick_time 1000), Op_update 2 (tick_time 5), Op_time (tick_time 9000000000)] = Inr st
    \<and> stat_count st = Inr 2 \<and> stat_sum st = Inr 6 \<and> stat_min st = Inr (min (min double_max 4) 2)
    \<and> stat_max st = Inr (max (max double_min 4) 2) \<and> stat_value st = Inr 2"
  using run_ops_computes_aggregates [of example_env stat_config_default
      "[Op_update 4 (tick_time 1000), Op_update 2 (tick_time 5), Op_time (tick_time 9000000000)]"]
  by (simp add: example_interval example_clock default_computes)

text \<open>C35: When every value seen is negative (with a usable moving interval, times on the tick clock and
  the maximum computed) the reported maximum is none of them: it is exactly
  \<open>2 ^ (-1022)\<close>, the smallest positive normal double, because \<open>reset\<close> starts the maximum at
  \<open>numeric_limits<double>::min()\<close>.\<close>

theorem max_of_negative_values_is_positive:
  assumes "good_interval e cfg" "on_clock_ops ops" "stat_computed (statistics_new cfg) Tag_max"
    and "\<forall>v\<in>set (op_values ops). v < 0"
  shows "\<exists>st. run_ops e (statistics_new cfg) ops = Inr st \<and> stat_max st = Inr (1 / 2 ^ 1022)
    \<and> 1 / 2 ^ 1022 \<notin> set (op_values ops)"
proof -
  obtain st where st: "run_ops e (statistics_new cfg) ops = Inr st"
    "summary (statistics_new cfg) (op_values ops) st"
    using run_ops_summary [OF statistics_new_inv [OF assms(1)] assms(2)] by blast
  have pos: "0 < double_min" by (simp add: double_min_def)
  have "foldl max x vs = x" if "\<forall>v\<in>set vs. v < 0" "0 < x" for x :: real and vs
    using that by (induction vs) (auto simp: max_def)
  then have "m_max st = double_min"
    using st(2) assms(3,4) pos by (simp add: summary_def statistics_new_def reset_def)
  moreover have "stat_computed st Tag_max"
    using st(2) assms(3) by (simp add: summary_def stat_computed_def)
  ultimately have "stat_max st = Inr double_min"
    by (simp add: stat_max_def get_def get_impl_max_def get_impl_def)
  moreover have "double_min \<notin> set (op_values ops)" using pos assms(4) by fastforce
  ultimately show ?thesis using st(1) unfolding double_min_def by blast
qed

theorem max_of_negative_values_is_positive_witness:
  "\<exists>st. run_ops example_env (statistics_new stat_config_default)
      [Op_update (-3) (tick_time 1000), Op_update (-7) (tick_time 5)] = Inr st
    \<and> stat_max st = Inr (1 / 2 ^ 1022)"
  using max_of_negative_values_is_positive [of example_env stat_config_default
      "[Op_update (-3) (tick_time 1000), Op_update (-7) (tick_time 5)]"]
  by (simp add: example_interval example_clock default_computes)

text \<open>C9: Whatever the times of the updates and however they decay, the moving average lies between
  the bounds of the values seen, unless it is reported as 0 because the moving count is negligible.\<close>

theorem moving_average_is_between:
  assumes "good_interval e cfg" "on_clock_ops ops" "stat_computed (statistics_new cfg) Tag_moving_avg"
    and "\<forall>v\<in>set (op_values ops). lo \<le> v \<and> v \<le> hi"
  shows "\<exists>st a. run_ops e (statistics_new cfg) ops = Inr st \<and> stat_moving_avg st = Inr a
    \<and> (a = 0 \<and> m_moving_count st \<le> 4 * epsilon_double \<or> lo \<le> a \<and> a \<le> hi)"
proof -
  have start: "sum_between lo hi (statistics_new cfg)"
    using assms(3) by (simp add: sum_between_def statistics_new_def reset_def)
  have "set (op_values ops) \<subseteq> {lo..hi}" using assms(4) by auto
  then have "\<exists>st. run_ops e (statistics_new cfg) ops = Inr st \<and> stat_inv e st \<and> sum_between lo hi st"
    by (rule run_ops_induct [where R = "sum_between lo hi" and V = "{lo..hi}",
          OF statistics_new_inv [OF assms(1)] assms(2) _ start])
      (auto intro: update_between update_time_between)
  then obtain st where st: "run_ops e (statistics_new cfg) ops = Inr st" "sum_between lo hi st"
    by blast
  have b: "lo * m_moving_count st \<le> m_moving_sum st" "m_moving_sum st \<le> hi * m_moving_count st"
    "stat_computed st Tag_moving_avg"
    using st(2) by (simp_all add: sum_between_def)
  have empty: "cmp_d (m_moving_count st) 0 \<le> 0 \<longleftrightarrow> m_moving_count st \<le> 4 * epsilon_double"
    using epsilon_pos(1) by (auto simp: cmp_le_0_iff)
  show ?thesis
  proof (cases "m_moving_count st \<le> 4 * epsilon_double")
    case True
    then show ?thesis using st(1) b(3) empty
      by (simp add: stat_moving_avg_def get_def get_impl_moving_avg_def get_impl_def)
  next
    case False
    then have pos: "0 < m_moving_count st" using epsilon_pos(1) by linarith
    have "lo \<le> m_moving_sum st / m_moving_count st" "m_moving_sum st / m_moving_count st \<le> hi"
      using b pos by (simp_all add: pos_le_divide_eq pos_divide_le_eq)
    then show ?thesis using False st(1) b(3) empty
      by (simp add: stat_moving_avg_def get_def get_impl_moving_avg_def get_impl_def)
  qed
qed

theorem moving_average_is_between_witness:
  "\<exists>st a. run_ops example_env (statistics_new stat_config_default)
      [Op_update 4 (tick_time 1000), Op_update 2 (tick_time 5)] = Inr st \<and> stat_moving_avg st = Inr a
    \<and> (a = 0 \<and> m_moving_count st \<le> 4 * epsilon_double \<or> 1 \<le> a \<and> a \<le> 5)"
  using moving_average_is_between [of example_env stat_config_default
      "[Op_update 4 (tick_time 1000), Op_update 2 (tick_time 5)]" 1 5]
  by (simp add: example_interval example_clock default_computes)

lemma update_time_steps:
  assumes "stat_inv e st" "\<forall>t\<in>set ts. on_clock t" "sorted (map tick_pos ts)" "ts \<noteq> []"
  shows "foldl (update_time e) st ts = update_time e st (last ts)"
  using assms
proof (induction ts arbitrary: st rule: induct_list012)
  case (3 t1 t2 ts)
  then have "foldl (update_time e) st (t1 # t2 # ts) = foldl (update_time e) st (t2 # ts)"
    using update_time_twice [of e st t1 t2] by simp
  then show ?case using 3 by simp
qed simp_all

text \<open>C21: Telling a statistics object about the passing of time step by step, in order, leaves it as
  one call with the last time stamp does: decay does not depend on how often it is applied.\<close>

theorem time_passes_in_any_steps:
  assumes "stat_inv e st" "\<forall>t\<in>set ts. on_clock t" "sorted (map tick_pos ts)" "ts \<noteq> []"
  shows "foldl (update_time e) st ts = update_time e st (last ts)"
  by (rule update_time_steps [OF assms])

theorem time_passes_in_any_steps_witness:
  "foldl (update_time example_env) (statistics_new stat_config_default)
      [tick_time 5, tick_time 1000, tick_time 9000000000]
    = update_time example_env (statistics_new stat_config_default) (tick_time 9000000000)"
  using time_passes_in_any_steps [OF statistics_new_inv [OF example_interval],
      of "[tick_time 5, tick_time 1000, tick_time 9000000000]"]
  by (simp add: example_clock tick_pos_def)

lemma shift_after_interval:
  assumes "stat_inv e st" "on_clock d" "on_clock t" "tick_pos d \<le> tick_pos (m_timestamp st)"
    and "tick_pos (m_timestamp st) + interval_len e TICK (moving_interval (s_config st)) \<le> tick_pos t"
  shows "shift_interval_data e st x d t = 0"
proof -
  have "0 < tick.width e TICK st" using tick.width_pos [OF stat_inv_state [OF assms(1)]] .
  then show ?thesis
    using tick.shift_value [OF stat_inv_state [OF assms(1)]] assms
    by (simp add: on_clock_def tick.width_def)
qed

text \<open>C34: After a whole moving interval without a value the moving count, the moving sum, the moving
  average and the rate are zero.\<close>

theorem silence_clears_the_moving_statistics:
  assumes "stat_inv e st" "on_clock t"
    and "\<forall>t\<in>{Tag_moving_avg, Tag_rate}. stat_computed st t"
    and "tick_pos (m_timestamp st) + interval_len e TICK (moving_interval (s_config st)) \<le> tick_pos t"
  shows "stat_moving_count (update_time e st t) = Inr 0 \<and> stat_moving_sum (update_time e st t) = Inr 0
    \<and> stat_moving_avg (update_time e st t) = Inr 0 \<and> m_rate (update_time e st t) = 0"
proof -
  have d: "on_clock (m_data_timestamp st)" "on_clock (m_timestamp st)"
    "tick_pos (m_data_timestamp st) \<le> tick_pos (m_timestamp st)"
    using assms(1) by (simp_all add: stat_inv_def)
  have "0 < interval_len e TICK (moving_interval (s_config st))"
    using assms(1) by (simp add: stat_inv_def good_interval_def usable_interval_def)
  then have late: "\<not> tp_le e t (m_timestamp st)"
    using assms(2,4) d(2) by (simp add: on_clock_def tick.le_pos)
  have c: "stat_computed (update_time e st t) = stat_computed st"
    by (intro ext) (simp add: stat_computed_def update_time_fields [OF late])
  note zero = shift_after_interval [OF assms(1) d(1) assms(2) d(3) assms(4)]
  have "m_moving_count (update_time e st t) = 0" "m_moving_sum (update_time e st t) = 0"
    "m_rate (update_time e st t) = 0"
    using assms(3) moving_avg_computed [of st] by (simp_all add: update_time_fields [OF late] zero)
  then show ?thesis
    using assms(3) moving_avg_computed [of st] c epsilon_pos(1)
    by (simp add: stat_moving_count_def stat_moving_sum_def stat_moving_avg_def get_def get_impl_def
        get_impl_moving_count_def get_impl_moving_sum_def get_impl_moving_avg_def cmp_def)
qed

abbreviation rate_config :: stat_config where
  "rate_config \<equiv> stat_config_default\<lparr>tags := or (tag_type Tag_moving_avg)
     (or (tag_type Tag_rate) (tag_type Tag_histogram))\<rparr>"

lemma rate_config_interval: "good_interval example_env rate_config"
  using example_interval by (simp add: good_interval_def)

lemma rate_config_computes:
  "stat_computed (statistics_new rate_config) Tag_moving_avg"
  "stat_computed (statistics_new rate_config) Tag_rate"
  "stat_computed (statistics_new rate_config) Tag_histogram"
  by (simp_all add: stat_computed_def statistics_new_def reset_def enabled_def)

lemma new_timestamp: "m_timestamp (statistics_new cfg) = tick_time 0"
  by (simp add: statistics_new_def reset_def time_point_default_def duration_default_def)

lemma new_fields: "s_config (statistics_new cfg) = cfg" "m_histogram (statistics_new cfg) = []"
  by (simp_all add: statistics_new_def reset_def)

lemma example_len: "interval_len example_env TICK (moving_interval stat_config_default) = 2000000000"
  by (simp add: interval_len_def stat_config_default_def dur_convert_to_def real_to_int64_def trunc_def
      fits64_def)

theorem silence_clears_the_moving_statistics_witness:
  "stat_moving_count (update_time example_env (statistics_new rate_config) (tick_time 9000000000)) = Inr 0"
  using silence_clears_the_moving_statistics [OF statistics_new_inv [OF rate_config_interval] example_clock(4)]
    rate_config_computes example_len
  by (simp add: new_timestamp new_fields tick_pos_def)

text \<open>The bin a value enters with count 1 is decayed in the same call, as if the value had been
  there since the previous time stamp: the first value of a histogram weighs less than 1, and the
  less the longer nothing happened before.\<close>

lemma fresh_bin_is_decayed:
  assumes "stat_inv e st" "on_clock t" "stat_computed st Tag_histogram"
    and "histogram_bins (s_config st) \<noteq> 0" "m_histogram st = []"
    and "tick_pos (m_timestamp st) < tick_pos t"
  shows "\<exists>st' w. update e st v t = Inr st'
    \<and> m_histogram st' = [\<lparr>bin_center = v, bin_count = w, bin_timestamp = t\<rparr>] \<and> w < 1
    \<and> w = of_int (interval_len e TICK (moving_interval (s_config st)))
        / of_int (interval_len e TICK (moving_interval (s_config st))
            + (tick_pos t - tick_pos (m_timestamp st)))"
proof -
  define L where "L = interval_len e TICK (moving_interval (s_config st))"
  define w where "w = shift_interval_data e st 1 t t"
  have L: "0 < L"
    using assms(1) by (simp add: L_def stat_inv_def good_interval_def usable_interval_def)
  have w: "w = of_int L / of_int (L + (tick_pos t - tick_pos (m_timestamp st)))"
    using tick.shift_value [OF stat_inv_state [OF assms(1)]] assms(2,6) L
    by (simp add: on_clock_def w_def L_def tick.width_def algebra_simps)
  have "real_of_int L < real_of_int (L + (tick_pos t - tick_pos (m_timestamp st)))"
    using assms(6) by simp
  then have "w < 1" unfolding w using L by (subst pos_divide_less_eq) (simp_all del: of_int_add of_int_diff)
  moreover have "1 \<le> unat (histogram_bins (s_config st))"
    using assms(4) by (simp add: unat_gt_0 Suc_leI)
  then have "updated_histogram e st v t = Inr [\<lparr>bin_center = v, bin_count = w, bin_timestamp = t\<rparr>]"
    using assms(4,5)
    by (simp add: updated_histogram_def insert_bin_def lower_bound.simps compress_histogram_def w_def)
  ultimately show ?thesis
    using assms(3) w by (simp add: update_eq L_def)
qed

text \<open>Every accessor throws \<open>invalid_tag_error\<close> exactly when its tag is not computed, and the
  accessors of plain fields never throw anything else.\<close>

lemma accessors_throw_for_uncomputed_tags:
  "(stat_value st = Inl x) = (x = Invalid_tag_error \<and> \<not> stat_computed st Tag_value)
   \<and> (stat_min st = Inl x) = (x = Invalid_tag_error \<and> \<not> stat_computed st Tag_min)
   \<and> (stat_max st = Inl x) = (x = Invalid_tag_error \<and> \<not> stat_computed st Tag_max)
   \<and> (stat_count st = Inl x) = (x = Invalid_tag_error \<and> \<not> stat_computed st Tag_count)
   \<and> (stat_sum st = Inl x) = (x = Invalid_tag_error \<and> \<not> stat_computed st Tag_sum)
   \<and> (stat_avg st = Inl x) = (x = Invalid_tag_error \<and> \<not> stat_computed st Tag_avg)
   \<and> (stat_moving_count st = Inl x) = (x = Invalid_tag_error \<and> \<not> stat_computed st Tag_moving_count)
   \<and> (stat_moving_sum st = Inl x) = (x = Invalid_tag_error \<and> \<not> stat_computed st Tag_moving_sum)
   \<and> (stat_moving_avg st = Inl x) = (x = Invalid_tag_error \<and> \<not> stat_computed st Tag_moving_avg)
   \<and> (stat_histogram st = Inl x) = (x = Invalid_tag_error \<and> \<not> stat_computed st Tag_histogram)
   \<and> (stat_timestamp st = Inl x) = (x = Invalid_tag_error \<and> \<not> stat_computed st Tag_timestamp)
   \<and> stat_quantile st p = (if stat_computed st Tag_quantile then quantile_at (m_histogram st) p
       else Inl Invalid_tag_error)"
  by (auto simp: stat_value_def stat_min_def stat_max_def stat_count_def stat_sum_def stat_avg_def
      stat_moving_count_def stat_moving_sum_def stat_moving_avg_def stat_histogram_def
      stat_timestamp_def stat_quantile_def get_def get_impl_def get_impl_value_def get_impl_min_def
      get_impl_max_def get_impl_count_def get_impl_sum_def get_impl_avg_def get_impl_moving_count_def
      get_impl_moving_sum_def get_impl_moving_avg_def get_impl_histogram_def get_impl_timestamp_def
      get_impl_quantile_def)

end
