(* ===== verification/Metrics_Laws.thy ===== *)
theory Metrics_Laws
  imports Metrics Stat_Streams
begin

section \<open>Laws of the metrics\<close>

text \<open>
  Counters report their running value, timers forget instances that stay idle, and the moment a
  timer collects them cannot be observed: the last is proved in a locale for maps whose entries
  expire, interpreted on the instances of a timer.
\<close>

subsection \<open>Metrics that age\<close>

text \<open>What the processing loop relies on when it tells a metric the time.\<close>

locale aging =
  fixes vals :: "'m \<Rightarrow> statistics"
    and age :: "chrono_env \<Rightarrow> 'm \<Rightarrow> time_point \<Rightarrow> 'm"
    and replace :: "'m \<Rightarrow> statistics \<Rightarrow> 'm"
  assumes age_replace: "age e m t = replace m (update_time e (vals m) t)"
    and vals_replace: "vals (replace m st) = st"
    and replace_replace: "replace (replace m st) st' = replace m st'"
    and replace_vals: "replace m (vals m) = m"
begin

lemma vals_age: "vals (age e m t) = update_time e (vals m) t"
  by (simp add: age_replace vals_replace)

lemma age_inv: "stat_inv e (vals m) \<Longrightarrow> on_clock t \<Longrightarrow> stat_inv e (vals (age e m t))"
  by (simp add: vals_age update_time_inv)

lemma ages_replace: "foldl (age e) m ts = replace m (foldl (update_time e) (vals m) ts)"
  by (induction ts arbitrary: m)
    (simp_all add: replace_vals age_replace vals_replace replace_replace)

lemma age_steps:
  assumes "stat_inv e (vals m)" "\<forall>t\<in>set ts. on_clock t" "sorted (map tick_pos ts)" "ts \<noteq> []"
  shows "foldl (age e) m ts = age e m (last ts)"
  using update_time_steps [OF assms] by (simp add: ages_replace age_replace)

end

interpretation gauge_aging: aging g_values gauge_update_statistics "\<lambda>g st. g\<lparr>g_values := st\<rparr>"
  by unfold_locales (simp_all add: gauge_update_statistics_def)

interpretation counter_aging: aging c_values counter_update_statistics "\<lambda>c st. c\<lparr>c_values := st\<rparr>"
  by unfold_locales (simp_all add: counter_update_statistics_def)

interpretation timer_aging: aging t_values timer_update_statistics "\<lambda>t st. t\<lparr>t_values := st\<rparr>"
  by unfold_locales (simp_all add: timer_update_statistics_def)

subsection \<open>Maps whose entries expire\<close>

locale expiring =
  fixes dead :: "'t \<Rightarrow> 's \<Rightarrow> bool"
    and later :: "'t \<Rightarrow> 't \<Rightarrow> bool"
    and good :: "'s \<Rightarrow> bool"
  assumes dead_later: "good s \<Longrightarrow> later t t' \<Longrightarrow> dead t s \<Longrightarrow> dead t' s"
begin

text \<open>One map is the other with some dead entries removed.\<close>

definition collected :: "'t \<Rightarrow> ('k \<rightharpoonup> 's) \<Rightarrow> ('k \<rightharpoonup> 's) \<Rightarrow> bool" where
  "collected t m n \<longleftrightarrow> (\<forall>k. m k = n k \<or> (m k = None \<and> (\<exists>s. n k = Some s \<and> dead t s)))
     \<and> (\<forall>s\<in>ran n. good s)"

definition sweep :: "'t \<Rightarrow> ('k \<rightharpoonup> 's) \<Rightarrow> ('k \<rightharpoonup> 's)" where
  "sweep t m = (\<lambda>k. case m k of None \<Rightarrow> None | Some s \<Rightarrow> if dead t s then None else Some s)"

lemma collected_later: "collected t m n \<Longrightarrow> later t t' \<Longrightarrow> collected t' m n"
  unfolding collected_def by (metis dead_later ranI)

lemma collected_sweep: "collected t m n \<Longrightarrow> collected t (sweep t m) n"
  unfolding collected_def sweep_def by (auto split: option.splits) (metis option.distinct(1) option.inject)+

lemma collected_upd: "collected t m n \<Longrightarrow> good s \<Longrightarrow> collected t (m(k \<mapsto> s)) (n(k \<mapsto> s))"
  by (auto simp: collected_def ran_def)

lemma collected_erase: "collected t m n \<Longrightarrow> collected t (m(k := None)) (n(k := None))"
  by (auto simp: collected_def ran_def)

lemma collected_erase_dead: "collected t m n \<Longrightarrow> m k = None \<Longrightarrow> collected t m (n(k := None))"
  by (auto simp: collected_def ran_def)

lemma collected_cases:
  assumes "collected t m n"
  obtains "n k = None" "m k = None" | s where "n k = Some s" "dead t s" "m k = None"
    | s where "n k = Some s" "m k = Some s" "good s"
  using assms unfolding collected_def by (metis not_None_eq ranI)

lemma sweep_same: "collected t m n \<Longrightarrow> sweep t m = sweep t n"
  unfolding collected_def sweep_def by (rule ext) (auto split: option.splits, (metis option.distinct(1) option.inject)+)

end

subsection \<open>Expiry on the tick clock\<close>

definition timeout_ok :: "chrono_env \<Rightarrow> duration \<Rightarrow> bool" where
  "timeout_ok e I \<longleftrightarrow> 0 \<le> interval_len e TICK I \<and> interval_len e TICK I < 2 ^ 62"

lemma tick_least: "min_unit TICK u = TICK"
  by (cases u) (simp_all add: min_unit_def unit_less_def)

lemma expired_iff:
  assumes "timeout_ok e I" "on_clock t" "on_clock (heartbeat_timestamp s)"
  shows "expired e I t s \<longleftrightarrow> interval_len e TICK I < tick_pos t - tick_pos (heartbeat_timestamp s)"
proof -
  let ?h = "heartbeat_timestamp s"
  have on: "on_tick_line TICK t" "on_tick_line TICK ?h" using assms by (simp_all add: on_clock_def)
  then have d: "tp_diff e t ?h = dur (m_rep (m_since_epoch t) - m_rep (m_since_epoch ?h)) TICK"
    by (simp add: tp_diff_def dur_sub_same on_tick_line_def)
  have r: "sint (m_rep (m_since_epoch t) - m_rep (m_since_epoch ?h)) = tick_pos t - tick_pos ?h"
    using on by (simp add: no_wrap fits64_def on_tick_line_def tick_pos_def)
  have gt: "tp_gt e t ?h \<longleftrightarrow> tick_pos ?h < tick_pos t"
    using on by (simp add: tp_gt_def dur_gt_def on_tick_line_def tick_pos_def)
  have "dur_gt e (tp_diff e t ?h) I \<longleftrightarrow> interval_len e TICK I < tick_pos t - tick_pos ?h"
    by (simp add: d dur_gt_def tick_least Let_def r interval_len_def dur_convert_to_def)
  then show ?thesis using assms(1) by (auto simp: expired_def gt timeout_ok_def)
qed

definition clock_le :: "time_point \<Rightarrow> time_point \<Rightarrow> bool" where
  "clock_le t t' \<longleftrightarrow> on_clock t \<and> on_clock t' \<and> tick_pos t \<le> tick_pos t'"

interpretation instances: expiring
  "\<lambda>(e, I, t). expired e I t"
  "\<lambda>(e, I, t) (e', I', t'). e' = e \<and> I' = I \<and> timeout_ok e I \<and> clock_le t t'"
  "\<lambda>s. on_clock (heartbeat_timestamp s)"
  by unfold_locales (auto simp: expired_iff clock_le_def)

lemma erase_expired_sweep: "erase_expired e I t m = instances.sweep (e, I, t) m"
  by (rule ext) (simp add: erase_expired_def instances.sweep_def split: option.split)

subsection \<open>Timers against timers that never collect\<close>

datatype timer_op =
    T_start instance_id | T_stop instance_id | T_heartbeat instance_id | T_discard instance_id
  | T_set duration

fun timer_step :: "chrono_env \<Rightarrow> timer \<Rightarrow> timer_op \<times> time_point \<Rightarrow> timer result" where
  "timer_step e tm (T_start i, t) = Inr (timer_start e tm i t)"
| "timer_step e tm (T_stop i, t) = timer_stop e tm i t"
| "timer_step e tm (T_heartbeat i, t) = Inr (timer_heartbeat e tm i t)"
| "timer_step e tm (T_discard i, t) = Inr (timer_discard e tm i t)"
| "timer_step e tm (T_set d, t) = timer_set e tm d t"

fun timer_run :: "chrono_env \<Rightarrow> timer \<Rightarrow> (timer_op \<times> time_point) list \<Rightarrow> timer result" where
  "timer_run e tm [] = Inr tm"
| "timer_run e tm (op # ops) = bind_result (timer_step e tm op) (\<lambda>tm. timer_run e tm ops)"

text \<open>The specification: the set of open instances and the statistics, with no collection at all. An
  expired instance is ignored when it is stopped or kept alive.\<close>

record timer_spec =
  sp_values :: statistics
  sp_open :: "instance_id \<rightharpoonup> instance_state"

fun spec_step ::
  "chrono_env \<Rightarrow> duration \<Rightarrow> timer_spec \<Rightarrow> timer_op \<times> time_point \<Rightarrow> timer_spec result" where
  "spec_step e I sp (T_start i, t) =
     Inr (sp\<lparr>sp_open := (sp_open sp)(i \<mapsto> \<lparr>start_timestamp = t, heartbeat_timestamp = t\<rparr>)\<rparr>)"
| "spec_step e I sp (T_stop i, t) =
     (case sp_open sp i of
        None \<Rightarrow> Inr sp
      | Some s \<Rightarrow>
          if expired e I t s then Inr (sp\<lparr>sp_open := (sp_open sp)(i := None)\<rparr>)
          else bind_result (update e (sp_values sp) (real_of_int (sint (m_rep
                 (dur_convert_to e USEC (tp_diff e t (start_timestamp s)))))) t)
                 (\<lambda>st. Inr (sp\<lparr>sp_values := st, sp_open := (sp_open sp)(i := None)\<rparr>)))"
| "spec_step e I sp (T_heartbeat i, t) =
     Inr (case sp_open sp i of
        None \<Rightarrow> sp
      | Some s \<Rightarrow> sp\<lparr>sp_open := (sp_open sp)(i :=
          if expired e I t s then None else Some (s\<lparr>heartbeat_timestamp := t\<rparr>))\<rparr>)"
| "spec_step e I sp (T_discard i, t) = Inr (sp\<lparr>sp_open := (sp_open sp)(i := None)\<rparr>)"
| "spec_step e I sp (T_set d, t) =
     bind_result (update e (sp_values sp) (real_of_int (sint (m_rep (dur_convert_to e USEC d)))) t)
       (\<lambda>st. Inr (sp\<lparr>sp_values := st\<rparr>))"

fun spec_run ::
  "chrono_env \<Rightarrow> duration \<Rightarrow> timer_spec \<Rightarrow> (timer_op \<times> time_point) list \<Rightarrow> timer_spec result" where
  "spec_run e I sp [] = Inr sp"
| "spec_run e I sp (op # ops) = bind_result (spec_step e I sp op) (\<lambda>sp. spec_run e I sp ops)"

definition timer_sim :: "chrono_env \<Rightarrow> time_point \<Rightarrow> timer \<Rightarrow> timer_spec \<Rightarrow> bool" where
  "timer_sim e t tm sp \<longleftrightarrow> t_values tm = sp_values sp \<and> stat_inv e (sp_values sp)
     \<and> timeout_ok e (t_idle_timeout tm)
     \<and> instances.collected (e, t_idle_timeout tm, t) (t_instances tm) (sp_open sp)"

lemma check_idle_fields:
  "t_values (check_idle_timeout e tm t f) = t_values tm"
  "t_idle_timeout (check_idle_timeout e tm t f) = t_idle_timeout tm"
  by (simp_all add: check_idle_timeout_def Let_def)

lemma check_idle_sim:
  assumes "timer_sim e t tm sp" "clock_le t t'"
  shows "timer_sim e t' (check_idle_timeout e tm t' f) sp"
proof -
  have "instances.collected (e, t_idle_timeout tm, t') (t_instances tm) (sp_open sp)"
    using assms by (auto simp: timer_sim_def intro: instances.collected_later)
  then have "instances.collected (e, t_idle_timeout tm, t')
      (t_instances (check_idle_timeout e tm t' f)) (sp_open sp)"
    by (simp add: check_idle_timeout_def erase_expired_sweep instances.collected_sweep Let_def)
  then show ?thesis using assms(1) by (simp add: timer_sim_def check_idle_fields)
qed

lemma update_ok: "stat_inv e st \<Longrightarrow> on_clock t \<Longrightarrow> \<exists>st'. update e st v t = Inr st' \<and> stat_inv e st'"
  by (metis update_inv)

lemma timer_step_sim:
  assumes "timer_sim e t tm sp" "clock_le t t'"
  shows "\<exists>tm' sp'. timer_step e tm (op, t') = Inr tm' \<and> spec_step e (t_idle_timeout tm) sp (op, t') = Inr sp'
    \<and> timer_sim e t' tm' sp' \<and> t_idle_timeout tm' = t_idle_timeout tm"
proof -
  define c where "c = check_idle_timeout e tm t' False"
  have c: "timer_sim e t' c sp" "t_idle_timeout c = t_idle_timeout tm" "t_values c = t_values tm"
    using check_idle_sim [OF assms] by (simp_all add: c_def check_idle_fields)
  then have col: "instances.collected (e, t_idle_timeout tm, t') (t_instances c) (sp_open sp)"
    and inv: "stat_inv e (sp_values sp)" and vals: "t_values tm = sp_values sp"
    and ok: "timeout_ok e (t_idle_timeout tm)"
    by (simp_all add: timer_sim_def)
  have t': "on_clock t'" using assms(2) by (simp add: clock_le_def)
  note erase = instances.collected_erase [OF col]
  show ?thesis
  proof (cases op)
    case (T_start i)
    then show ?thesis
      using col c t' by (simp add: timer_start_def c_def [symmetric] timer_sim_def instances.collected_upd)
  next
    case (T_stop i)
    show ?thesis
      using col
    proof (cases rule: instances.collected_cases [of _ _ _ i])
      case (3 s)
      obtain st where st: "update e (sp_values sp) (real_of_int (sint (m_rep
          (dur_convert_to e USEC (tp_diff e t' (start_timestamp s)))))) t' = Inr st" "stat_inv e st"
        using update_ok [OF inv t'] by blast
      then show ?thesis
        using 3 T_stop c erase vals ok inv
        by (simp add: timer_stop_def c_def [symmetric] timer_sim_def value_unit_def)
    qed (use c T_stop instances.collected_erase_dead [OF col] in
        \<open>simp_all add: timer_stop_def c_def [symmetric] timer_sim_def\<close>)
  next
    case (T_heartbeat i)
    show ?thesis
      using col
    proof (cases rule: instances.collected_cases [of _ _ _ i])
      case (3 s)
      then show ?thesis
        using T_heartbeat c erase col t'
        by (simp add: timer_heartbeat_def c_def [symmetric] timer_sim_def instances.collected_upd)
    qed (use c T_heartbeat instances.collected_erase_dead [OF col] in
        \<open>simp_all add: timer_heartbeat_def c_def [symmetric] timer_sim_def\<close>)
  next
    case (T_discard i)
    then show ?thesis
      using c erase by (simp add: timer_discard_def c_def [symmetric] timer_sim_def)
  next
    case (T_set d)
    obtain st where "update e (sp_values sp) (real_of_int (sint (m_rep (dur_convert_to e USEC d)))) t'
        = Inr st" "stat_inv e st"
      using update_ok [OF inv t'] by blast
    moreover have "timer_sim e t' tm sp"
      using assms by (auto simp: timer_sim_def intro: instances.collected_later)
    ultimately show ?thesis
      using T_set by (simp add: timer_set_def timer_sim_def value_unit_def)
  qed
qed

definition clock_sorted :: "time_point list \<Rightarrow> bool" where
  "clock_sorted ts \<longleftrightarrow> (\<forall>t\<in>set ts. on_clock t) \<and> sorted (map tick_pos ts)"

lemma timer_run_sim:
  assumes "timer_sim e t tm sp" "clock_sorted (t # map snd ops)"
  shows "\<exists>tm' sp'. timer_run e tm ops = Inr tm' \<and> spec_run e (t_idle_timeout tm) sp ops = Inr sp'
    \<and> timer_sim e (last (t # map snd ops)) tm' sp' \<and> t_idle_timeout tm' = t_idle_timeout tm"
  using assms
proof (induction ops arbitrary: t tm sp)
  case (Cons a ops)
  obtain op t' where a: "a = (op, t')" by force
  have le: "clock_le t t'" "clock_sorted (t' # map snd ops)"
    using Cons.prems(2) by (auto simp: a clock_sorted_def clock_le_def)
  obtain tm' sp' where step: "timer_step e tm (op, t') = Inr tm'"
    "spec_step e (t_idle_timeout tm) sp (op, t') = Inr sp'" "timer_sim e t' tm' sp'"
    "t_idle_timeout tm' = t_idle_timeout tm"
    using timer_step_sim [OF Cons.prems(1) le(1)] by blast
  then show ?case using Cons.IH [OF step(3) le(2)] by (simp add: a)
qed simp

lemma timer_new_sim:
  assumes "good_interval e (to_values opts)" "timeout_ok e (to_idle_timeout opts)"
  shows "timer_sim e t (timer_new opts)
    \<lparr>sp_values = statistics_new (to_values opts), sp_open = Map.empty\<rparr>"
  using assms by (simp add: timer_sim_def timer_new_def statistics_new_inv instances.collected_def)

subsection \<open>Counters as streams of running values\<close>

datatype counter_op = C_init int64 | C_increment int64 | C_decrement int64

fun counter_step :: "chrono_env \<Rightarrow> counter \<Rightarrow> counter_op \<times> time_point \<Rightarrow> counter result" where
  "counter_step e c (C_init v, t) = counter_init e c v t"
| "counter_step e c (C_increment v, t) = counter_increment e c v t"
| "counter_step e c (C_decrement v, t) = counter_decrement e c v t"

fun counter_run ::
  "chrono_env \<Rightarrow> counter \<Rightarrow> (counter_op \<times> time_point) list \<Rightarrow> counter result" where
  "counter_run e c [] = Inr c"
| "counter_run e c (op # ops) = bind_result (counter_step e c op) (\<lambda>c. counter_run e c ops)"

fun delta :: "counter_op \<Rightarrow> int64" where
  "delta (C_init v) = 0"
| "delta (C_increment v) = v"
| "delta (C_decrement v) = - v"

text \<open>The updates a value of \<open>v\<close> at time \<open>m\<close> and further changes amount to.\<close>

fun running ::
  "chrono_env \<Rightarrow> int64 \<Rightarrow> time_point \<Rightarrow> (counter_op \<times> time_point) list \<Rightarrow> stat_op list" where
  "running e v m [] = []"
| "running e v m ((op, t) # ops) =
     Op_update (real_of_int (sint (v + delta op))) (tp_max e m t)
       # running e (v + delta op) (tp_max e m t) ops"

definition only_changes :: "(counter_op \<times> time_point) list \<Rightarrow> bool" where
  "only_changes ops \<longleftrightarrow> (\<forall>(op, t)\<in>set ops. on_clock t \<and> (\<forall>v. op \<noteq> C_init v))"

lemma reset_new: "reset st = statistics_new (s_config st)"
  by (simp add: reset_def statistics_new_def)

lemma started_iff: "on_clock t \<Longrightarrow> tp_eq e t time_point_default \<longleftrightarrow> tick_pos t = 0"
  by (auto simp: on_clock_def on_tick_line_def tp_eq_def dur_eq_def time_point_default_def
      duration_default_def tick_pos_def)

lemma counter_change:
  assumes "on_clock (c_timestamp c)" "0 < tick_pos (c_timestamp c)" "\<forall>v. op \<noteq> C_init v"
  shows "counter_step e c (op, t) = counter_report e
    (c\<lparr>c_value := c_value c + delta op, c_timestamp := tp_max e (c_timestamp c) t\<rparr>)"
  using assms by (cases op)
    (simp_all add: counter_increment_def counter_decrement_def started_iff Let_def tp_max_def)

lemma counter_run_running:
  assumes "on_clock (c_timestamp c)" "0 < tick_pos (c_timestamp c)" "only_changes ops"
  shows "counter_run e c ops = bind_result
    (run_ops e (c_values c) (running e (c_value c) (c_timestamp c) ops))
    (\<lambda>st. Inr \<lparr>c_values = st, c_value = foldl (\<lambda>v op. v + delta (fst op)) (c_value c) ops,
       c_timestamp = foldl (\<lambda>m op. tp_max e m (snd op)) (c_timestamp c) ops\<rparr>)"
  using assms
proof (induction ops arbitrary: c)
  case (Cons a ops)
  obtain op t where a: "a = (op, t)" by force
  have t: "on_clock t" "\<forall>v. op \<noteq> C_init v" and rest: "only_changes ops"
    using Cons.prems(3) by (auto simp: a only_changes_def)
  note step = counter_change [OF Cons.prems(1,2) t(2)]
  have m: "on_clock (tp_max e (c_timestamp c) t)" "0 < tick_pos (tp_max e (c_timestamp c) t)"
    using max_clock [OF Cons.prems(1) t(1)] Cons.prems(2) by simp_all
  show ?case
    using Cons.IH [of "c\<lparr>c_value := c_value c + delta op, c_timestamp := tp_max e (c_timestamp c) t,
        c_values := st\<rparr>" for st] m rest
    by (simp add: a step counter_report_def bind_result_assoc)
qed simp

subsection \<open>No operation of a sound metric fails\<close>

fun metric_ok :: "chrono_env \<Rightarrow> metric \<Rightarrow> bool" where
  "metric_ok e (M_gauge g) \<longleftrightarrow> stat_inv e (g_values g)"
| "metric_ok e (M_counter c) \<longleftrightarrow> stat_inv e (c_values c) \<and> on_clock (c_timestamp c)"
| "metric_ok e (M_timer tm) \<longleftrightarrow> stat_inv e (t_values tm)"
| "metric_ok e (M_attribute a) \<longleftrightarrow> True"

abbreviation never :: "exn \<Rightarrow> bool" where
  "never \<equiv> \<lambda>x. False"

lemma update_returns: "stat_inv e st \<Longrightarrow> on_clock t \<Longrightarrow> returns (update e st v t) (stat_inv e) never"
  using update_ok [of e st t v] by (auto simp: returns_def)

lemma gauge_set_returns:
  "metric_ok e (M_gauge g) \<Longrightarrow> on_clock t \<Longrightarrow>
     returns (gauge_set e g v t) (\<lambda>g. metric_ok e (M_gauge g)) never"
  unfolding gauge_set_def by (rule returns_bind [OF update_returns]) (simp_all add: returns_Inr)

lemma counter_report_returns:
  "metric_ok e (M_counter c) \<Longrightarrow> returns (counter_report e c) (\<lambda>c. metric_ok e (M_counter c)) never"
  unfolding counter_report_def by (rule returns_bind [OF update_returns]) (simp_all add: returns_Inr)

lemma reset_inv: "stat_inv e st \<Longrightarrow> stat_inv e (reset st)"
  by (simp add: reset_def stat_inv_def good_histogram_def counts_nonneg_def stamps_in_def)

lemma counter_init_returns:
  "metric_ok e (M_counter c) \<Longrightarrow> on_clock t \<Longrightarrow>
     returns (counter_init e c v t) (\<lambda>c. metric_ok e (M_counter c)) never"
  unfolding counter_init_def Let_def by (rule counter_report_returns) (simp add: reset_inv)

lemma counter_change_returns:
  assumes "metric_ok e (M_counter c)" "on_clock t"
  shows "returns (counter_increment e c v t) (\<lambda>c. metric_ok e (M_counter c)) never"
    "returns (counter_decrement e c v t) (\<lambda>c. metric_ok e (M_counter c)) never"
  unfolding counter_increment_def counter_decrement_def Let_def
  by (intro returns_bind [where R = "\<lambda>c. metric_ok e (M_counter c)"] returns_if
      counter_init_returns counter_report_returns returns_Inr; use assms in simp)+

lemma check_idle_ok: "metric_ok e (M_timer tm) \<Longrightarrow> metric_ok e (M_timer (check_idle_timeout e tm t f))"
  by (simp add: check_idle_fields)

lemma timer_start_ok:
  "metric_ok e (M_timer tm) \<Longrightarrow> metric_ok e (M_timer (timer_start e tm i t))"
  by (simp add: timer_start_def Let_def check_idle_fields)

lemma timer_heartbeat_ok:
  "metric_ok e (M_timer tm) \<Longrightarrow> metric_ok e (M_timer (timer_heartbeat e tm i t))"
  by (simp add: timer_heartbeat_def Let_def check_idle_fields split: option.split)

lemma timer_discard_ok:
  "metric_ok e (M_timer tm) \<Longrightarrow> metric_ok e (M_timer (timer_discard e tm i t))"
  by (simp add: timer_discard_def Let_def check_idle_fields)

lemma timer_stop_returns:
  assumes "metric_ok e (M_timer tm)" "on_clock t"
  shows "returns (timer_stop e tm i t) (\<lambda>tm. metric_ok e (M_timer tm)) never"
  using assms check_idle_ok [OF assms(1)] unfolding timer_stop_def Let_def
  by (auto split: option.split intro!: returns_Inr returns_bind [OF update_returns])

lemma timer_set_returns:
  "metric_ok e (M_timer tm) \<Longrightarrow> on_clock t \<Longrightarrow>
     returns (timer_set e tm d t) (\<lambda>tm. metric_ok e (M_timer tm)) never"
  unfolding timer_set_def by (rule returns_bind [OF update_returns]) (simp_all add: returns_Inr)

lemma gauge_new_ok: "good_interval e (go_values opts) \<Longrightarrow> metric_ok e (M_gauge (gauge_new opts))"
  by (simp add: gauge_new_def statistics_new_inv)

lemma counter_new_ok: "good_interval e (co_values opts) \<Longrightarrow> metric_ok e (M_counter (counter_new opts))"
  by (simp add: counter_new_def statistics_new_inv)

lemma timer_new_ok: "good_interval e (to_values opts) \<Longrightarrow> metric_ok e (M_timer (timer_new opts))"
  by (simp add: timer_new_def statistics_new_inv)

subsection \<open>Properties\<close>

lemma example_timeout: "timeout_ok example_env (to_idle_timeout timer_opts_default)"
  "good_interval example_env (to_values timer_opts_default)"
  using example_interval
  by (simp_all add: timeout_ok_def timer_opts_default_def interval_len_def dur_convert_to_def
      real_to_int64_def trunc_def fits64_def)

text \<open>C8: When its operations come in the order of their times, and with a usable moving interval and an
  idle timeout that is not negative and below \<open>2 ^ 62\<close> ticks, a timer records exactly what the
  specification without any collection of idle instances records: when and how often
  \<open>check_idle_timeout\<close> sweeps the hash map is not observable, neither in the statistics nor in the
  instances still alive at any later time; and no operation fails. (Out of order it is observable: an
  operation with a far later time sweeps an instance that an earlier stop would still have recorded.)\<close>

theorem timer_refines_spec:
  assumes "good_interval e (to_values opts)" "timeout_ok e (to_idle_timeout opts)"
    and "clock_sorted (t # map snd ops)"
  shows "\<exists>tm sp. timer_run e (timer_new opts) ops = Inr tm
    \<and> spec_run e (to_idle_timeout opts)
        \<lparr>sp_values = statistics_new (to_values opts), sp_open = Map.empty\<rparr> ops = Inr sp
    \<and> t_values tm = sp_values sp
    \<and> (\<forall>t'. clock_le (last (t # map snd ops)) t' \<longrightarrow>
         erase_expired e (to_idle_timeout opts) t' (t_instances tm)
           = erase_expired e (to_idle_timeout opts) t' (sp_open sp))"
proof -
  have I: "t_idle_timeout (timer_new opts) = to_idle_timeout opts" by (simp add: timer_new_def)
  obtain tm sp where r: "timer_run e (timer_new opts) ops = Inr tm"
    "spec_run e (to_idle_timeout opts)
      \<lparr>sp_values = statistics_new (to_values opts), sp_open = Map.empty\<rparr> ops = Inr sp"
    "timer_sim e (last (t # map snd ops)) tm sp" "t_idle_timeout tm = to_idle_timeout opts"
    using timer_run_sim [OF timer_new_sim [OF assms(1,2)] assms(3)] unfolding I by blast
  have "erase_expired e (to_idle_timeout opts) t' (t_instances tm)
      = erase_expired e (to_idle_timeout opts) t' (sp_open sp)"
    if "clock_le (last (t # map snd ops)) t'" for t'
  proof -
    have "instances.collected (e, to_idle_timeout opts, t') (t_instances tm) (sp_open sp)"
      by (rule instances.collected_later [where t = "(e, to_idle_timeout opts, last (t # map snd ops))"])
        (use r(3,4) that assms(2) in \<open>simp_all add: timer_sim_def\<close>)
    then show ?thesis unfolding erase_expired_sweep by (rule instances.sweep_same)
  qed
  then show ?thesis using r by (auto simp: timer_sim_def)
qed

theorem timer_refines_spec_witness:
  "\<exists>tm sp. timer_run example_env (timer_new timer_opts_default)
      [(T_start 1, tick_time 5), (T_stop 1, tick_time 9000000000)] = Inr tm
    \<and> spec_run example_env (to_idle_timeout timer_opts_default)
        \<lparr>sp_values = statistics_new (to_values timer_opts_default), sp_open = Map.empty\<rparr>
        [(T_start 1, tick_time 5), (T_stop 1, tick_time 9000000000)] = Inr sp
    \<and> t_values tm = sp_values sp"
  using timer_refines_spec [OF example_timeout(2,1), of "tick_time 0"
      "[(T_start 1, tick_time 5), (T_stop 1, tick_time 9000000000)]"]
  by (simp add: clock_sorted_def example_clock tick_pos_def del: timer_run.simps spec_run.simps) blast

text \<open>Starting an instance and stopping it later records one value, the elapsed time in
  microseconds at the time of the stop, unless the idle timeout has passed in between, when
  nothing is recorded. Either way the instance is gone.\<close>

lemma timer_measures_an_instance:
  assumes "stat_inv e (t_values tm)" "timeout_ok e (t_idle_timeout tm)" "clock_le t1 t2"
  shows "\<exists>tm'. timer_run e tm [(T_start i, t1), (T_stop i, t2)] = Inr tm' \<and> t_instances tm' i = None
    \<and> (if interval_len e TICK (t_idle_timeout tm) < tick_pos t2 - tick_pos t1
       then t_values tm' = t_values tm
       else update e (t_values tm)
              (real_of_int (sint (m_rep (dur_convert_to e USEC (tp_diff e t2 t1))))) t2
            = Inr (t_values tm'))"
proof -
  let ?s = "\<lparr>start_timestamp = t1, heartbeat_timestamp = t1\<rparr>"
  define a where "a = timer_start e tm i t1"
  define c where "c = check_idle_timeout e a t2 False"
  have t: "on_clock t1" "on_clock t2" using assms(3) by (simp_all add: clock_le_def)
  have a: "t_values a = t_values tm" "t_idle_timeout a = t_idle_timeout tm" "t_instances a i = Some ?s"
    by (simp_all add: a_def timer_start_def Let_def check_idle_fields)
  have x: "expired e (t_idle_timeout tm) t2 ?s
      \<longleftrightarrow> interval_len e TICK (t_idle_timeout tm) < tick_pos t2 - tick_pos t1"
    using expired_iff [OF assms(2) t(2), of ?s] t(1) by simp
  have c: "t_values c = t_values tm" "t_idle_timeout c = t_idle_timeout tm"
    "t_instances c i = None \<and> expired e (t_idle_timeout tm) t2 ?s \<or> t_instances c i = Some ?s"
    using a by (simp_all add: c_def check_idle_fields) (simp add: check_idle_timeout_def erase_expired_def Let_def)
  obtain st where st: "update e (t_values tm)
      (real_of_int (sint (m_rep (dur_convert_to e USEC (tp_diff e t2 t1))))) t2 = Inr st"
    using update_ok [OF assms(1) t(2)] by blast
  show ?thesis
    using c(3)
  proof (elim disjE conjE)
    assume "t_instances c i = None" "expired e (t_idle_timeout tm) t2 ?s"
    then show ?thesis
      using c(1) x by (simp add: timer_stop_def a_def [symmetric] c_def [symmetric])
  next
    assume "t_instances c i = Some ?s"
    then show ?thesis
      using c(1,2) x st
      by (cases "expired e (t_idle_timeout tm) t2 ?s") (simp_all add: timer_stop_def a_def [symmetric] c_def [symmetric] value_unit_def)
  qed
qed

text \<open>C22: A fresh counter starts from 0 at the time of the first change; from then on its
  statistics are exactly those of the stream of its running 64-bit values, at time stamps that
  never go back, and its value is the sum of the changes modulo \<open>2 ^ 64\<close>.\<close>

theorem counter_reports_running_total:
  assumes "only_changes ((op, t) # ops)" "0 < tick_pos t"
  shows "counter_run e (counter_new opts) ((op, t) # ops) = bind_result
    (run_ops e (statistics_new (co_values opts)) (Op_update 0 t # running e 0 t ((op, t) # ops)))
    (\<lambda>st. Inr \<lparr>c_values = st, c_value = foldl (\<lambda>v op. v + delta (fst op)) 0 ((op, t) # ops),
       c_timestamp = foldl (\<lambda>m op. tp_max e m (snd op)) t ((op, t) # ops)\<rparr>)"
proof -
  have t: "on_clock t" "\<forall>v. op \<noteq> C_init v" using assms(1) by (simp_all add: only_changes_def)
  have start: "tp_eq e (c_timestamp (counter_new opts)) time_point_default"
    by (simp add: counter_new_def started_iff)
       (simp add: time_point_default_def tick_pos_def duration_default_def)
  have init: "counter_init e (counter_new opts) 0 t = bind_result
      (update e (statistics_new (co_values opts)) 0 t)
      (\<lambda>st. Inr \<lparr>c_values = st, c_value = 0, c_timestamp = t\<rparr>)"
    by (simp add: counter_init_def counter_new_def counter_report_def reset_new Let_def)
      (simp add: statistics_new_def reset_def)
  have "counter_step e (counter_new opts) (op, t)
      = bind_result (counter_init e (counter_new opts) 0 t) (\<lambda>c. counter_step e c (op, t))"
  proof -
    have "\<not> tp_eq e t time_point_default" using t(1) assms(2) by (simp add: started_iff)
    then show ?thesis
      using start t(2) unfolding init
      by (cases op; cases "update e (statistics_new (co_values opts)) 0 t")
        (simp_all add: counter_increment_def counter_decrement_def init)
  qed
  then have "counter_run e (counter_new opts) ((op, t) # ops)
    = bind_result (update e (statistics_new (co_values opts)) 0 t)
        (\<lambda>st. counter_run e \<lparr>c_values = st, c_value = 0, c_timestamp = t\<rparr> ((op, t) # ops))"
    by (simp add: init bind_result_assoc)
  then show ?thesis
    using counter_run_running [where c = "\<lparr>c_values = st, c_value = 0, c_timestamp = t\<rparr>" and e = e
        and ops = "(op, t) # ops" for st] t(1) assms
    by (simp add: bind_result_assoc)
qed

theorem counter_reports_running_total_witness:
  "counter_run example_env (counter_new counter_opts_default)
      [(C_increment 5, tick_time 1000), (C_decrement 7, tick_time 5)] = bind_result
    (run_ops example_env (statistics_new stat_config_default)
      [Op_update 0 (tick_time 1000), Op_update 5 (tick_time 1000), Op_update (-2) (tick_time 1000)])
    (\<lambda>st. Inr \<lparr>c_values = st, c_value = -2, c_timestamp = tick_time 1000\<rparr>)"
proof -
  have "tp_max example_env (tick_time 1000) (tick_time 5) = tick_time 1000"
    "tp_max example_env (tick_time 1000) (tick_time 1000) = tick_time 1000"
    by (simp_all add: tp_max_def tp_lt_def dur_lt_def)
  then show ?thesis
    using counter_reports_running_total [of "C_increment 5" "tick_time 1000"
        "[(C_decrement 7, tick_time 5)]" example_env counter_opts_default]
    by (simp add: only_changes_def example_clock tick_pos_def counter_opts_default_def
        del: counter_run.simps run_ops.simps)
qed

end
