(* ===== verification/Internal_Laws.thy ===== *)
theory Internal_Laws
  imports Internal Config_Laws Metrics_Laws
begin

section \<open>Laws of the metrics map\<close>

text \<open>
  When every name is used with one kind of metric, no message makes the processing fail; when a
  name is used with two, the payload is read with the wrong type. An init event forgets the
  options of the matching pattern.
\<close>

subsection \<open>Messages for a metric of their kind\<close>

fun dest_of :: "metric \<Rightarrow> char_code" where
  "dest_of (M_counter c) = DEST_COUNTER"
| "dest_of (M_gauge g) = DEST_GAUGE"
| "dest_of (M_timer tm) = DEST_TIMER"
| "dest_of (M_attribute a) = DEST_ATTRIBUTE"

definition globals_ok :: "chrono_env \<Rightarrow> 'v config_state \<Rightarrow> bool" where
  "globals_ok e cfg \<longleftrightarrow> good_interval e (co_values (cfg_counter cfg))
     \<and> good_interval e (go_values (cfg_gauge cfg)) \<and> good_interval e (to_values (cfg_timer cfg))"

definition patterns_ok :: "chrono_env \<Rightarrow> 'v rapidjson \<Rightarrow> 'v config_state \<Rightarrow> bool" where
  "patterns_ok e J cfg \<longleftrightarrow> (\<forall>(ns, v)\<in>set (pattern_opts cfg).
     returns (configure_counter J (cfg_counter cfg) v) (\<lambda>c. good_interval e (co_values c)) never
     \<and> returns (configure_gauge J (cfg_gauge cfg) v) (\<lambda>g. good_interval e (go_values g)) never
     \<and> returns (configure_timer J (cfg_timer cfg) v) (\<lambda>t. good_interval e (to_values t)) never)"

lemmas process_counter_defs = process_counter_event_def process_counter_init_event_def
  process_increment_event_def process_decrement_event_def

lemmas process_gauge_defs = process_gauge_event_def process_gauge_init_event_def
  process_gauge_set_event_def

lemmas process_timer_defs = process_timer_event_def process_timer_init_event_def
  process_start_event_def process_stop_event_def process_discard_event_def
  process_heartbeat_event_def process_timer_set_event_def

lemmas process_attribute_defs = process_attribute_event_def process_attribute_set_event_def

lemma counter_event_returns:
  assumes "created msg" "destination_type msg = DEST_COUNTER" "on_clock (timestamp msg)"
    and "metric_ok e (M_counter c)" "good_interval e (co_values opts)"
  shows "returns (process_counter_event e opts c msg) (\<lambda>c. metric_ok e (M_counter c)) never"
  using assms
  by cases
    (auto simp: create_defs codes process_counter_defs simp del: metric_ok.simps
      intro: counter_init_returns counter_change_returns counter_new_ok)

lemma gauge_event_returns:
  assumes "created msg" "destination_type msg = DEST_GAUGE" "on_clock (timestamp msg)"
    and "metric_ok e (M_gauge g)" "good_interval e (go_values opts)"
  shows "returns (process_gauge_event e opts g msg) (\<lambda>g. metric_ok e (M_gauge g)) never"
  using assms
  by cases
    (auto simp: create_defs codes process_gauge_defs simp del: metric_ok.simps
      intro: gauge_set_returns gauge_new_ok)

lemma timer_event_returns:
  assumes "created msg" "destination_type msg = DEST_TIMER" "on_clock (timestamp msg)"
    and "metric_ok e (M_timer tm)" "good_interval e (to_values opts)"
  shows "returns (process_timer_event e opts tm msg) (\<lambda>tm. metric_ok e (M_timer tm)) never"
  using assms
  by cases
    (auto simp: create_defs codes process_timer_defs simp del: metric_ok.simps
      intro: returns_Inr timer_start_ok timer_heartbeat_ok timer_discard_ok timer_stop_returns
        timer_set_returns timer_new_ok)

lemma attribute_event_returns:
  assumes "created msg" "destination_type msg = DEST_ATTRIBUTE"
  shows "returns (process_attribute_event a msg) (\<lambda>a. True) never"
  using assms by cases (auto simp: create_defs codes process_attribute_defs intro: returns_Inr)

lemma process_event_returns:
  assumes "created msg" "destination_type msg = dest_of m" "on_clock (timestamp msg)"
    and "metric_ok e m" "globals_ok e cfg"
  shows "returns (process_event e cfg m msg) (\<lambda>m'. metric_ok e m' \<and> dest_of m' = dest_of m) never"
proof (cases m)
  case (M_counter c)
  show ?thesis
    unfolding M_counter process_event.simps
    by (rule returns_bind [OF counter_event_returns])
      (use assms M_counter in \<open>simp_all add: globals_ok_def returns_Inr\<close>)
next
  case (M_gauge g)
  show ?thesis
    unfolding M_gauge process_event.simps
    by (rule returns_bind [OF gauge_event_returns])
      (use assms M_gauge in \<open>simp_all add: globals_ok_def returns_Inr\<close>)
next
  case (M_timer tm)
  show ?thesis
    unfolding M_timer process_event.simps
    by (rule returns_bind [OF timer_event_returns])
      (use assms M_timer in \<open>simp_all add: globals_ok_def returns_Inr\<close>)
next
  case (M_attribute a)
  show ?thesis
    unfolding M_attribute process_event.simps
    by (rule returns_bind [OF attribute_event_returns])
      (use assms M_attribute in \<open>simp_all add: returns_Inr\<close>)
qed

subsection \<open>New metrics\<close>

lemma select_pattern_in: "select_pattern f groups name = Some v \<Longrightarrow> \<exists>ns. (ns, v) \<in> set groups"
  by (induction f groups name rule: select_pattern.induct) (auto split: if_splits)

lemma make_metric_returns:
  assumes "globals_ok e cfg" "patterns_ok e J cfg" "created msg"
  shows "returns (make_metric J cfg (select_pattern f (pattern_opts cfg) name) (destination_type msg))
    (\<lambda>x. \<exists>m. x = Some m \<and> metric_ok e m \<and> dest_of m = destination_type msg) never"
proof -
  have d: "destination_type msg \<in> {DEST_COUNTER, DEST_GAUGE, DEST_TIMER, DEST_ATTRIBUTE}"
    using assms(3) by cases (simp_all add: create_defs)
  let ?p = "select_pattern f (pattern_opts cfg) name"
  have "returns (case ?p of None \<Rightarrow> Inr (cfg_counter cfg) | Some v \<Rightarrow> configure_counter J (cfg_counter cfg) v)
      (\<lambda>c. good_interval e (co_values c)) never"
    "returns (case ?p of None \<Rightarrow> Inr (cfg_gauge cfg) | Some v \<Rightarrow> configure_gauge J (cfg_gauge cfg) v)
      (\<lambda>c. good_interval e (go_values c)) never"
    "returns (case ?p of None \<Rightarrow> Inr (cfg_timer cfg) | Some v \<Rightarrow> configure_timer J (cfg_timer cfg) v)
      (\<lambda>c. good_interval e (to_values c)) never"
    using assms(1,2) select_pattern_in
    by (fastforce simp: globals_ok_def patterns_ok_def intro: returns_Inr split: option.split)+
  note opts = this
  show ?thesis
    using d unfolding make_metric_def
    by (auto simp: codes intro!: returns_if returns_bind [OF opts(1)] returns_bind [OF opts(2)]
        returns_bind [OF opts(3)] returns_Inr counter_new_ok gauge_new_ok timer_new_ok
        simp del: metric_ok.simps) simp_all
qed

subsection \<open>The invariant of the map\<close>

text \<open>\<open>kinds\<close> says which kind of metric each name is used with.\<close>

definition entries_ok :: "chrono_env \<Rightarrow> (string \<Rightarrow> char_code) \<Rightarrow> metrics_map \<Rightarrow> bool" where
  "entries_ok e kinds ms \<longleftrightarrow>
     (\<forall>n x. map_of ms n = Some x \<longrightarrow> (\<exists>m. x = Some m \<and> metric_ok e m \<and> dest_of m = kinds n))"

definition internal_inv :: "chrono_env \<Rightarrow> (string \<Rightarrow> char_code) \<Rightarrow> internal_state \<Rightarrow> bool" where
  "internal_inv e kinds st \<longleftrightarrow> entries_ok e kinds (metrics st) \<and> distinct (map fst (metrics st))
     \<and> metric_ok e (M_gauge (stats_size st)) \<and> metric_ok e (M_gauge (stats_process_time st))"

definition message_ok :: "(string \<Rightarrow> char_code) \<Rightarrow> event_message \<Rightarrow> bool" where
  "message_ok kinds msg \<longleftrightarrow> created msg \<and> on_clock (timestamp msg)
     \<and> destination_type msg = kinds (destination_name msg)"

lemma entries_ok_update:
  "entries_ok e kinds ms \<Longrightarrow> metric_ok e m \<Longrightarrow> dest_of m = kinds n \<Longrightarrow>
     entries_ok e kinds (AList.update n (Some m) ms)"
  by (auto simp: entries_ok_def update_conv')

lemma process_event_message_returns:
  assumes "internal_inv e kinds st" "message_ok kinds msg" "on_clock t2"
    and "globals_ok e cfg" "patterns_ok e J cfg"
  shows "returns (process_event_message e J fnm cfg t1 t2 msg st) (\<lambda>st'. internal_inv e kinds st'
    \<and> dom (map_of (metrics st')) = insert (destination_name msg) (dom (map_of (metrics st)))) never"
proof -
  let ?n = "destination_name msg"
  let ?entry = "case map_of (metrics st) ?n of None \<Rightarrow> None | Some x \<Rightarrow> x"
  let ?ok = "\<lambda>m. metric_ok e m \<and> dest_of m = destination_type msg"
  have msg: "created msg" "on_clock (timestamp msg)" "destination_type msg = kinds ?n"
    using assms(2) by (simp_all add: message_ok_def)
  have find: "returns (case ?entry of Some m \<Rightarrow> Inr (Some m)
      | None \<Rightarrow> make_metric J cfg (select_pattern fnm (pattern_opts cfg) ?n) (destination_type msg))
    (\<lambda>x. \<exists>m. x = Some m \<and> ?ok m) never"
  proof (cases "map_of (metrics st) ?n")
    case None
    then show ?thesis using make_metric_returns [OF assms(4,5) msg(1)] by simp
  next
    case (Some x)
    have "\<exists>m. x = Some m \<and> ?ok m"
      using assms(1) Some msg(3) unfolding internal_inv_def entries_ok_def by metis
    then show ?thesis using Some by (auto simp: returns_def)
  qed
  have apply_to: "returns (case x of None \<Rightarrow> Inl Null_pointer | Some m \<Rightarrow> process_event e cfg m msg) ?ok never"
    if "\<exists>m. x = Some m \<and> ?ok m" for x
  proof -
    from that obtain m where m: "x = Some m" "metric_ok e m" "destination_type msg = dest_of m" by auto
    show ?thesis using process_event_returns [OF msg(1) m(3) msg(2) m(2) assms(4)] m by simp
  qed
  have store: "internal_inv e kinds (st\<lparr>metrics := AList.update ?n (Some m) (metrics st)\<rparr>)" if "?ok m" for m
    using assms(1) that msg(3) entries_ok_update
    by (simp add: internal_inv_def distinct_update)
  show ?thesis
    unfolding process_event_message_def Let_def
  proof (rule returns_bind [OF find], rule returns_bind [OF apply_to], assumption)
    fix m assume "?ok m"
    from store [OF this]
    show "returns (bind_result (gauge_set e
          (stats_process_time (st\<lparr>metrics := AList.update ?n (Some m) (metrics st)\<rparr>))
          (real_of_int (sint (m_rep (dur_convert_to e value_unit (tp_diff e t2 t1))))) t2)
        (\<lambda>pt. bind_result (gauge_set e
            (stats_size (st\<lparr>metrics := AList.update ?n (Some m) (metrics st)\<rparr>))
            (real (internal_size (st\<lparr>metrics := AList.update ?n (Some m) (metrics st)\<rparr>))) t2)
          (\<lambda>sz. Inr (st\<lparr>metrics := AList.update ?n (Some m) (metrics st),
              stats_process_time := pt, stats_size := sz\<rparr>))))
      (\<lambda>st'. internal_inv e kinds st'
        \<and> dom (map_of (metrics st')) = insert ?n (dom (map_of (metrics st)))) never"
      by (intro returns_bind [OF gauge_set_returns] returns_Inr)
        (use assms(1,3) in \<open>simp_all add: internal_inv_def update_conv'\<close>)
  qed
qed

lemma internal_stats_reset_returns:
  assumes "good_interval e stat_config_default" "on_clock now"
  shows "returns (internal_stats_reset e now st) (\<lambda>st'. metrics st' = metrics st
    \<and> metric_ok e (M_gauge (stats_size st')) \<and> metric_ok e (M_gauge (stats_process_time st'))) never"
proof -
  have i: "good_interval e (go_values internal_size_opts)" "good_interval e (go_values process_time_opts)"
    using assms(1)
    by (simp_all add: internal_size_opts_def process_time_opts_def good_interval_def stat_config_default_def)
  show ?thesis
    unfolding internal_stats_reset_def
    by (rule returns_bind [OF gauge_set_returns [OF gauge_new_ok [OF i(1)] assms(2)]], rule returns_Inr)
      (use gauge_new_ok [OF i(2)] in simp)
qed

subsection \<open>Sequences of messages\<close>

fun process_messages ::
  "chrono_env \<Rightarrow> 'v rapidjson \<Rightarrow> (string \<Rightarrow> string \<Rightarrow> bool) \<Rightarrow> 'v config_state
     \<Rightarrow> (time_point \<times> time_point \<times> event_message) list \<Rightarrow> internal_state \<Rightarrow> internal_state result" where
  "process_messages e J fnm cfg [] st = Inr st"
| "process_messages e J fnm cfg ((t1, t2, msg) # ms) st =
     bind_result (process_event_message e J fnm cfg t1 t2 msg st) (process_messages e J fnm cfg ms)"

lemma process_messages_returns:
  assumes "internal_inv e kinds st" "\<forall>(t1, t2, msg)\<in>set ms. message_ok kinds msg \<and> on_clock t2"
    and "globals_ok e cfg" "patterns_ok e J cfg"
  shows "returns (process_messages e J fnm cfg ms st) (\<lambda>st'. internal_inv e kinds st'
    \<and> dom (map_of (metrics st')) =
        (\<lambda>(t1, t2, msg). destination_name msg) ` set ms \<union> dom (map_of (metrics st))) never"
  using assms(1,2)
proof (induction ms arbitrary: st)
  case Nil
  then show ?case by (simp add: returns_Inr)
next
  case (Cons x ms)
  obtain t1 t2 msg where x: "x = (t1, t2, msg)" by (cases x)
  have "message_ok kinds msg" "on_clock t2" using Cons.prems(2) by (auto simp: x)
  note first = process_event_message_returns [OF Cons.prems(1) this assms(3,4), of fnm t1]
  show ?case
    unfolding x process_messages.simps
  proof (rule returns_bind [OF first], elim conjE)
    fix st1 assume st1: "internal_inv e kinds st1"
      "dom (map_of (metrics st1)) = insert (destination_name msg) (dom (map_of (metrics st)))"
    show "returns (process_messages e J fnm cfg ms st1) (\<lambda>st'. internal_inv e kinds st'
      \<and> dom (map_of (metrics st')) = (\<lambda>(t1, t2, msg). destination_name msg) ` set ((t1, t2, msg) # ms)
          \<union> dom (map_of (metrics st))) never"
      using Cons.IH [OF st1(1)] Cons.prems(2) st1(2) by (simp add: x)
  qed
qed

subsection \<open>What init events do to options\<close>

fun metric_config :: "metric \<Rightarrow> stat_config option" where
  "metric_config (M_counter c) = Some (s_config (c_values c))"
| "metric_config (M_gauge g) = Some (s_config (g_values g))"
| "metric_config (M_timer tm) = Some (s_config (t_values tm))"
| "metric_config (M_attribute a) = None"

fun global_config :: "'v config_state \<Rightarrow> metric \<Rightarrow> stat_config option" where
  "global_config cfg (M_counter c) = Some (co_values (cfg_counter cfg))"
| "global_config cfg (M_gauge g) = Some (go_values (cfg_gauge cfg))"
| "global_config cfg (M_timer tm) = Some (to_values (cfg_timer cfg))"
| "global_config cfg (M_attribute a) = None"

lemma update_config: "update e st v t = Inr st' \<Longrightarrow> s_config st' = s_config st"
  unfolding update_eq by (auto simp: bind_result_Inr_iff)

lemma new_config: "s_config (statistics_new cfg) = cfg"
  by (simp add: statistics_new_def reset_def)

lemma process_init_config:
  assumes "process_event e cfg m msg = Inr m'" "event_type msg = 0"
  shows "metric_config m' = global_config cfg m \<and> dest_of m' = dest_of m"
  using assms
  by (cases m)
    (auto simp: process_counter_defs process_gauge_defs process_timer_defs process_attribute_defs codes
      bind_result_Inr_iff counter_init_def counter_report_def counter_new_def gauge_set_def
      gauge_new_def timer_start_def timer_new_def check_idle_fields reset_new new_config Let_def
      dest: update_config)

subsection \<open>Messages of another kind\<close>

text \<open>The codes of the events a metric has.\<close>

fun event_codes :: "metric \<Rightarrow> char_code set" where
  "event_codes (M_counter c) = {counter_INIT, counter_INCREMENT, counter_DECREMENT}"
| "event_codes (M_gauge g) = {gauge_INIT, gauge_SET}"
| "event_codes (M_timer tm) =
     {timer_INIT, timer_START, timer_STOP, timer_DISCARD, timer_HEARTBEAT, timer_SET}"
| "event_codes (M_attribute a) = {attribute_SET}"

text \<open>A payload of the type the events of the metric have.\<close>

fun same_payload :: "metric \<Rightarrow> payload \<Rightarrow> bool" where
  "same_payload (M_gauge g) d \<longleftrightarrow> is_ok (read_double d)"
| "same_payload (M_attribute a) d \<longleftrightarrow> is_ok (read_attribute d)"
| "same_payload m d \<longleftrightarrow> is_ok (read_word d)"

text \<open>The event that a counter or a timer takes a message of the other for: the one with its code.\<close>

fun as_own :: "metric \<Rightarrow> event_message \<Rightarrow> event_message" where
  "as_own (M_counter c) msg =
     (let make = (if event_type msg = counter_INIT then create_counter_init_event
                  else if event_type msg = counter_INCREMENT then create_increment_event
                  else create_decrement_event)
      in make (destination_name msg) (projr (read_word (event_data msg))) (timestamp msg))"
| "as_own (M_timer tm) msg =
     (let make = (if event_type msg = timer_INIT then create_timer_init_event
                  else if event_type msg = timer_START then create_start_event
                  else create_stop_event)
      in make (destination_name msg) (projr (read_word (event_data msg))) (timestamp msg))"
| "as_own m msg = msg"

lemmas misread_defs = create_defs codes process_counter_defs process_gauge_defs process_timer_defs
  process_attribute_defs Let_def

subsection \<open>Properties\<close>

definition internal_unset :: internal_state where
  "internal_unset = \<lparr>metrics = [], stats_size = gauge_new gauge_opts_default,
     stats_process_time = gauge_new gauge_opts_default\<rparr>"

lemma reset_globals_ok: "globals_ok example_env config_reset" "patterns_ok e J config_reset"
  using example_interval
  by (simp_all add: globals_ok_def patterns_ok_def config_reset_def gauge_opts_default_def
      counter_opts_default_def timer_opts_default_def)

text \<open>C10: As long as every name is used with one kind of metric, the options of all kinds and of all
  patterns are usable (they can be read without an error and have moving intervals the statistics
  can use) and the times are on the tick clock, no sequence of messages makes the processing fail;
  afterwards the map has a metric for exactly the names that occurred, each of the right kind and
  with its statistics invariant.\<close>

theorem consistent_messages_never_fail:
  assumes "good_interval e stat_config_default" "globals_ok e cfg" "patterns_ok e J cfg" "on_clock now"
    and "\<forall>(t1, t2, msg)\<in>set ms. message_ok kinds msg \<and> on_clock t2"
    and "metrics st = []"
  shows "\<exists>st'. bind_result (internal_initialize e now st) (process_messages e J fnm cfg ms) = Inr st'
    \<and> internal_inv e kinds st'
    \<and> dom (map_of (metrics st')) = (\<lambda>(t1, t2, msg). destination_name msg) ` set ms"
proof -
  obtain st0 where st0: "internal_initialize e now st = Inr st0" "metrics st0 = []"
    "internal_inv e kinds st0"
    using internal_stats_reset_returns [OF assms(1,4), of st] assms(6)
    by (auto simp: internal_initialize_def returns_def internal_inv_def entries_ok_def split: sum.splits)
  show ?thesis
    using process_messages_returns [OF st0(3) assms(5,2,3), of fnm] st0
    by (auto simp: returns_def split: sum.splits)
qed

theorem consistent_messages_never_fail_witness:
  "\<exists>st'. bind_result (internal_initialize example_env (tick_time 5) internal_unset)
      (process_messages example_env example_json (=) config_reset
        [(tick_time 5, tick_time 1000, create_increment_event ''c'' 2 (tick_time 5)),
         (tick_time 5, tick_time 1000, create_start_event ''t'' 7 (tick_time 5))]) = Inr st'
    \<and> internal_inv example_env (\<lambda>n. if n = ''c'' then DEST_COUNTER else DEST_TIMER) st'
    \<and> dom (map_of (metrics st')) = {''c'', ''t''}"
proof -
  have "message_ok (\<lambda>n. if n = ''c'' then DEST_COUNTER else DEST_TIMER)
      (create_increment_event ''c'' 2 (tick_time 5))"
    "message_ok (\<lambda>n. if n = ''c'' then DEST_COUNTER else DEST_TIMER)
      (create_start_event ''t'' 7 (tick_time 5))"
    using created.intros(2,7) example_clock(2) by (auto simp: message_ok_def create_defs)
  then show ?thesis
    using consistent_messages_never_fail [OF example_interval reset_globals_ok(1)
        reset_globals_ok(2) [of example_env example_json] example_clock(2),
        where kinds = "\<lambda>n. if n = ''c'' then DEST_COUNTER else DEST_TIMER" and fnm = "(=)"
        and st = internal_unset
        and ms = "[(tick_time 5, tick_time 1000, create_increment_event ''c'' 2 (tick_time 5)),
         (tick_time 5, tick_time 1000, create_start_event ''t'' 7 (tick_time 5))]"]
      example_clock(3)
    by (simp add: internal_unset_def create_defs insert_commute del: process_messages.simps)
qed

text \<open>A message changes the metric of its own name and no other.\<close>

lemma messages_touch_one_metric:
  assumes "process_event_message e J fnm cfg t1 t2 msg st = Inr st'" "n \<noteq> destination_name msg"
  shows "map_of (metrics st') n = map_of (metrics st) n
    \<and> map_of (metrics st') (destination_name msg) \<noteq> None"
proof -
  obtain m where "metrics st' = AList.update (destination_name msg) (Some m) (metrics st)"
    using assms(1) by (auto simp: process_event_message_def Let_def bind_result_Inr_iff)
  then show ?thesis using assms(2) by (simp add: update_conv')
qed

text \<open>C31: The processing trusts the name, not the message. A message of one kind whose name holds a
  metric of another kind is treated by the code of its event type, as the metric numbers its own
  event types. If the metric has no event of this code, the message is ignored. If it has one, but
  with a payload of another type, the payload is read as the wrong type (the error
  \<open>Wrong_payload\<close>, which ends the processing; the program goes on with whatever the bits mean).
  Otherwise, which happens between counters and timers only, the message does what the metric's own
  event of this code does: on a counter the start of a timer instance adds the identifier of the
  instance and its stop subtracts it; on a timer a counter's increment starts the instance that the
  value identifies and a decrement stops it; and an init event is an init event.\<close>

theorem mixed_kinds_are_misread:
  assumes "map_of (metrics st) (destination_name msg) = Some (Some m)" "created msg"
    and "destination_type msg \<noteq> dest_of m"
  shows "process_event e cfg m msg =
      (if event_type msg \<notin> event_codes m then Inr m
       else if \<not> same_payload m (event_data msg) then Inl Wrong_payload
       else process_event e cfg m (as_own m msg))
    \<and> (event_type msg \<in> event_codes m \<and> \<not> same_payload m (event_data msg)
        \<longrightarrow> process_event_message e J fnm cfg t1 t2 msg st = Inl Wrong_payload)
    \<and> (event_type msg \<in> event_codes m \<and> same_payload m (event_data msg)
        \<longrightarrow> {dest_of m, destination_type msg} = {DEST_COUNTER, DEST_TIMER}
          \<and> process_event_message e J fnm cfg t1 t2 msg st
              = process_event_message e J fnm cfg t1 t2 (as_own m msg) st)"
proof -
  have event: "process_event e cfg m msg =
      (if event_type msg \<notin> event_codes m then Inr m
       else if \<not> same_payload m (event_data msg) then Inl Wrong_payload
       else process_event e cfg m (as_own m msg))"
    and kinds: "event_type msg \<in> event_codes m \<and> same_payload m (event_data msg)
        \<longrightarrow> {dest_of m, destination_type msg} = {DEST_COUNTER, DEST_TIMER}"
    using assms(2,3) by (cases m; cases rule: created.cases; simp add: misread_defs insert_commute)+
  have "destination_name (as_own m msg) = destination_name msg"
    by (cases m) (simp_all add: create_defs)
  then show ?thesis
    using event kinds assms(1) by (auto simp: process_event_message_def Let_def)
qed

theorem mixed_kinds_are_misread_witness:
  "process_event_message example_env example_json (=) config_reset (tick_time 5) (tick_time 5)
      (create_gauge_set_event ''x'' 1 (tick_time 5))
      (internal_unset\<lparr>metrics := [(''x'', Some (M_counter (counter_new counter_opts_default)))]\<rparr>)
    = Inl Wrong_payload
  \<and> process_event example_env (config_reset :: example_value config_state)
      (M_counter (counter_new counter_opts_default)) (create_start_event ''x'' 7 (tick_time 5))
    = process_event example_env (config_reset :: example_value config_state) (M_counter (counter_new counter_opts_default))
      (create_increment_event ''x'' 7 (tick_time 5))"
proof -
  let ?c = "M_counter (counter_new counter_opts_default)"
  let ?st = "internal_unset\<lparr>metrics := [(''x'', Some ?c)]\<rparr>"
  let ?cfg = "config_reset :: example_value config_state"
  have g: "created (create_gauge_set_event ''x'' 1 (tick_time 5))"
    "created (create_start_event ''x'' 7 (tick_time 5))" by (rule created.intros)+
  have "process_event_message example_env example_json (=) config_reset (tick_time 5) (tick_time 5)
      (create_gauge_set_event ''x'' 1 (tick_time 5)) ?st = Inl Wrong_payload"
    using conjunct1 [OF conjunct2 [OF mixed_kinds_are_misread [of ?st _ ?c, OF _ g(1),
        where fnm = "(=)"]]]
    by (simp add: create_defs codes)
  moreover have "process_event example_env ?cfg ?c (create_start_event ''x'' 7 (tick_time 5))
      = process_event example_env ?cfg ?c (create_increment_event ''x'' 7 (tick_time 5))"
    using conjunct1 [OF mixed_kinds_are_misread [of ?st _ ?c, OF _ g(2),
        where e = example_env and cfg = ?cfg]]
    by (simp add: create_defs codes del: process_event.simps)
  ultimately show ?thesis ..
qed

text \<open>C30: After an init event for a counter, gauge or timer the metric has the global options of its
  kind, also when a pattern with other options matches its name.\<close>

theorem init_events_forget_pattern_options:
  assumes "process_event_message e J fnm cfg t1 t2 msg st = Inr st'" "event_type msg = 0"
  shows "\<exists>m. map_of (metrics st') (destination_name msg) = Some (Some m)
    \<and> metric_config m = global_config cfg m"
proof -
  obtain m0 m where "metrics st' = AList.update (destination_name msg) (Some m) (metrics st)"
    "process_event e cfg m0 msg = Inr m"
    using assms(1) by (auto simp: process_event_message_def Let_def bind_result_Inr_iff split: option.splits)
  moreover have "global_config cfg m = global_config cfg m0" if "dest_of m = dest_of m0"
    using that by (cases m; cases m0) (simp_all add: codes)
  ultimately show ?thesis
    using process_init_config [OF _ assms(2)] by (fastforce simp: update_conv')
qed

theorem init_events_forget_pattern_options_witness:
  "\<exists>st' m. process_event_message example_env example_json (=)
      (config_reset\<lparr>pattern_opts := [([''x''], E_object [(''histogram-bins'', E_uint 5)])]\<rparr>)
      (tick_time 5) (tick_time 5) (create_counter_init_event ''x'' 1 (tick_time 5)) internal_unset = Inr st'
    \<and> map_of (metrics st') ''x'' = Some (Some m)
    \<and> metric_config m = global_config (config_reset :: example_value config_state) m"
proof -
  let ?cfg = "config_reset\<lparr>pattern_opts := [([''x''], E_object [(''histogram-bins'', E_uint 5)])]\<rparr>
    :: example_value config_state"
  let ?v = "E_object [(''histogram-bins'', E_uint 5)]"
  have "moving_interval (stat_config_default\<lparr>histogram_bins := 5\<rparr>) = moving_interval stat_config_default"
    by simp
  then have good: "good_interval example_env (stat_config_default\<lparr>histogram_bins := 5\<rparr>)"
    using example_interval by (simp only: good_interval_def)
  have "configure_statistics example_json stat_config_default ?v
      = Inr (stat_config_default\<lparr>histogram_bins := 5\<rparr>)"
    by (simp add: configure_statistics_def example_defs Let_def)
  then have p: "patterns_ok example_env example_json ?cfg"
    using good
    by (simp add: patterns_ok_def config_reset_def configure_counter_def configure_gauge_def
        configure_timer_def gauge_opts_default_def counter_opts_default_def timer_opts_default_def
        returns_def)
      (simp add: example_defs Let_def)
  have g: "globals_ok example_env ?cfg" using reset_globals_ok(1) by (simp add: globals_ok_def)
  have i: "internal_inv example_env (\<lambda>n. DEST_COUNTER) internal_unset"
    using example_interval
    by (simp add: internal_inv_def internal_unset_def entries_ok_def gauge_new_def
        gauge_opts_default_def statistics_new_inv)
  have "message_ok (\<lambda>n. DEST_COUNTER) (create_counter_init_event ''x'' 1 (tick_time 5))"
    using created.intros(1) example_clock(2) by (auto simp: message_ok_def create_defs)
  then obtain st' where "process_event_message example_env example_json (=) ?cfg
      (tick_time 5) (tick_time 5) (create_counter_init_event ''x'' 1 (tick_time 5)) internal_unset = Inr st'"
    using returns_ex [OF process_event_message_returns [OF i _ example_clock(2) g p]] by blast
  moreover from init_events_forget_pattern_options [OF this]
  obtain m where "map_of (metrics st') ''x'' = Some (Some m)"
    "metric_config m = global_config ?cfg m"
    by (auto simp: create_defs codes)
  moreover have "global_config ?cfg m = global_config (config_reset :: example_value config_state) m"
    by (cases m) simp_all
  ultimately show ?thesis by auto
qed

end
