(* ===== verification/Message_Queue_Laws.thy ===== *)
theory Message_Queue_Laws
  imports Message_Queue Metrics_Laws
begin

section \<open>Laws of the message queue\<close>

text \<open>
  The message count is the length of the queue, popping never fails, and \<open>finalize\<close> empties the
  queue and frees every message.
\<close>

definition mq_contents :: "mq_state \<Rightarrow> node_id list" where
  "mq_contents st = (case event_message_queue st of None \<Rightarrow> [] | Some q \<Rightarrow> queue_contents q)"

definition mq_stats_ok :: "chrono_env \<Rightarrow> mq_state \<Rightarrow> bool" where
  "mq_stats_ok e st \<longleftrightarrow> metric_ok e (M_gauge (mq_stats_size st))
     \<and> metric_ok e (M_gauge (mq_message_wait_time st)) \<and> metric_ok e (M_counter (mq_pop_count st))"

definition mq_inv :: "chrono_env \<Rightarrow> mq_state \<Rightarrow> bool" where
  "mq_inv e st \<longleftrightarrow> mq_stats_ok e st \<and> unat (mq_size st) = length (mq_contents st)
     \<and> (case event_message_queue st of None \<Rightarrow> True | Some q \<Rightarrow> good_queue q)"

definition one_second_ok :: "chrono_env \<Rightarrow> bool" where
  "one_second_ok e \<longleftrightarrow> good_interval e (stat_config_default\<lparr>moving_interval := one_second\<rparr>)"

lemma mq_stats_reset_returns:
  assumes "one_second_ok e" "on_clock now"
  shows "returns (mq_stats_reset e now st) (\<lambda>st'. mq_stats_ok e st' \<and> mq_size st' = mq_size st
    \<and> event_message_queue st' = event_message_queue st) never"
proof -
  have good: "good_interval e (cfg\<lparr>moving_interval := one_second\<rparr>)" for cfg
    using assms(1) by (simp add: one_second_ok_def good_interval_def)
  have i: "good_interval e (go_values mq_size_opts)" "good_interval e (go_values mq_wait_time_opts)"
    "good_interval e (co_values mq_pop_count_opts)"
    using good by (simp_all add: mq_size_opts_def mq_wait_time_opts_def mq_pop_count_opts_def)
  show ?thesis
    unfolding mq_stats_reset_def
    by (rule returns_bind [OF gauge_set_returns [OF gauge_new_ok [OF i(1)] assms(2)]], rule returns_Inr)
      (use gauge_new_ok [OF i(2)] counter_new_ok [OF i(3)] in \<open>simp add: mq_stats_ok_def\<close>)
qed

lemma mq_record_returns:
  assumes "mq_stats_ok e st" "on_clock now"
  shows "returns (mq_record e m now st) (\<lambda>st'. mq_stats_ok e st' \<and> mq_size st' = mq_size st
    \<and> event_message_queue st' = event_message_queue st) never"
proof -
  have ok: "metric_ok e (M_gauge (mq_stats_size st))" "metric_ok e (M_gauge (mq_message_wait_time st))"
    "metric_ok e (M_counter (mq_pop_count st))" using assms(1) by (simp_all add: mq_stats_ok_def)
  show ?thesis
    unfolding mq_record_def Let_def
    by (rule returns_bind [OF gauge_set_returns [OF ok(1) assms(2)]],
        rule returns_bind [OF counter_change_returns(1) [where t = now]],
        (use ok assms(2) in simp), (use assms(2) in simp),
        rule returns_bind [OF gauge_set_returns [where t = now]])
      (use ok assms(2) in \<open>simp_all add: mq_stats_ok_def returns_Inr\<close>)
qed

lemma mq_push_inv:
  assumes "mq_inv e st" "event_message_queue st \<noteq> None" "n \<noteq> Stub" "n \<notin> set (mq_contents st)"
    and "length (mq_contents st) + 1 < 2 ^ 64"
  shows "mq_inv e (mq_push st n)" "mq_contents (mq_push st n) = mq_contents st @ [n]"
proof -
  obtain q where q: "event_message_queue st = Some q" using assms(2) by blast
  note push = push_contents [of q n]
  have "unat (mq_size st + 1) = unat (mq_size st) + 1"
    using assms(1,5) unat_add_lem [of "mq_size st" 1] by (simp add: mq_inv_def)
  then show "mq_inv e (mq_push st n)" "mq_contents (mq_push st n) = mq_contents st @ [n]"
    using assms q push by (auto simp: mq_inv_def mq_contents_def mq_push_def mq_stats_ok_def)
qed

lemma mq_pop_inv:
  assumes "mq_inv e st" "on_clock now"
  shows "\<exists>st'. mq_inv e st' \<and> (case mq_contents st of
      [] \<Rightarrow> mq_pop e msgs now st = Inr (st', None) \<and> mq_contents st' = []
    | n # ns \<Rightarrow> mq_pop e msgs now st = Inr (st', Some n) \<and> mq_contents st' = ns)"
proof (cases "event_message_queue st")
  case None
  then show ?thesis using assms(1) by (auto simp: mq_pop_def mq_contents_def)
next
  case (Some q)
  have good: "good_queue q" using assms(1) Some by (simp add: mq_inv_def)
  obtain q' r where p: "queue_pop q = (q', r)" by force
  note pop = pop_contents [OF good, unfolded p fst_conv snd_conv]
  show ?thesis
  proof (cases "queue_contents q")
    case Nil
    then show ?thesis
      using assms(1) Some p pop
      by (intro exI [of _ "st\<lparr>event_message_queue := Some q'\<rparr>"])
        (simp add: mq_pop_def mq_contents_def mq_inv_def mq_stats_ok_def)
  next
    case (Cons n ns)
    define st1 where "st1 = st\<lparr>event_message_queue := Some q', mq_size := mq_size st - 1\<rparr>"
    have len: "unat (mq_size st) = Suc (length ns)"
      using assms(1) Some Cons by (simp add: mq_inv_def mq_contents_def)
    then have size: "unat (mq_size st1) = length ns"
      by (simp add: st1_def unat_minus_one unat_eq_zero [symmetric] del: unat_eq_zero)
    have "mq_stats_ok e st1" using assms(1) by (simp add: st1_def mq_inv_def mq_stats_ok_def)
    then obtain st2 where st2: "mq_record e (msgs n) now st1 = Inr st2" "mq_stats_ok e st2"
      "mq_size st2 = mq_size st1" "event_message_queue st2 = Some q'"
      using mq_record_returns [of e st1 now "msgs n"] assms(2)
      by (auto simp: returns_def st1_def split: sum.splits)
    then have "mq_pop e msgs now st = Inr (st2, Some n)"
      using Some p pop(2) Cons by (simp add: mq_pop_def st1_def)
    then show ?thesis
      using st2 size pop Cons Some
      by (intro exI [of _ st2]) (simp add: mq_contents_def mq_inv_def)
  qed
qed

lemma mq_drain_frees_all:
  assumes "mq_inv e st" "\<And>i. on_clock (clock i)" "length (mq_contents st) \<le> fuel"
  shows "\<exists>st'. mq_drain fuel e msgs clock st = Some (Inr (st',
      map (\<lambda>n. (n, delete_event_message (Some (msgs n)))) (mq_contents st)))
    \<and> mq_inv e st' \<and> mq_contents st' = []"
  using assms
proof (induction fuel arbitrary: st)
  case 0
  then have "mq_contents st = []" "mq_empty st"
    by (simp_all add: mq_inv_def mq_empty_def unat_eq_zero)
  then show ?case using 0 by (auto simp: mq_drain.simps)
next
  case (Suc fuel)
  show ?case
  proof (cases "mq_contents st")
    case Nil
    then have "mq_empty st" using Suc.prems(1) by (simp add: mq_inv_def mq_empty_def unat_eq_zero)
    then show ?thesis using Suc.prems(1) Nil by (auto simp: mq_drain.simps)
  next
    case (Cons n ns)
    then have "\<not> mq_empty st" using Suc.prems(1) by (auto simp: mq_inv_def mq_empty_def)
    moreover obtain st1 where st1: "mq_inv e st1" "mq_pop e msgs (clock fuel) st = Inr (st1, Some n)"
      "mq_contents st1 = ns"
      using mq_pop_inv [OF Suc.prems(1,2), of msgs fuel] Cons by auto
    moreover obtain st2 where "mq_drain fuel e msgs clock st1 = Some (Inr (st2,
        map (\<lambda>n. (n, delete_event_message (Some (msgs n)))) ns))" "mq_inv e st2" "mq_contents st2 = []"
      using Suc.IH [OF st1(1) Suc.prems(2)] Suc.prems(3) Cons st1(3) by auto
    ultimately show ?thesis by (simp add: mq_drain.simps [of "Suc fuel"] Cons)
  qed
qed

subsection \<open>Begin and end\<close>

lemma example_second: "one_second_ok example_env"
  using example_interval by (simp add: one_second_ok_def one_second_def stat_config_default_def)

definition mq_unset :: mq_state where
  "mq_unset = \<lparr>event_message_queue = None, mq_size = 0, mq_stats_size = gauge_new gauge_opts_default,
     mq_message_wait_time = gauge_new gauge_opts_default, mq_pop_count = counter_new counter_opts_default\<rparr>"

lemma mq_initialize_inv:
  assumes "one_second_ok e" "on_clock now" "event_message_queue st = None"
  shows "\<exists>st'. mq_initialize e now st = Inr st' \<and> mq_inv e st' \<and> mq_contents st' = []
    \<and> event_message_queue st' \<noteq> None"
  using mq_stats_reset_returns [OF assms(1,2), of "st\<lparr>event_message_queue := Some queue_new, mq_size := 0\<rparr>"]
    assms(3) queue_new_empty
  by (auto simp: mq_initialize_def returns_def mq_inv_def mq_contents_def split: sum.splits)

text \<open>Finalizing the queue frees every message that was waiting exactly once, in order.\<close>

lemma finalize_frees_all:
  assumes "mq_inv e st" "one_second_ok e" "\<forall>i. on_clock (clock i)" "on_clock now"
    and "length (mq_contents st) \<le> fuel"
  shows "\<exists>st'. mq_finalize fuel e msgs clock now st = Some (Inr (st',
      map (\<lambda>n. (n, delete_event_message (Some (msgs n)))) (mq_contents st)))
    \<and> event_message_queue st' = None \<and> mq_size st' = 0"
proof -
  obtain st1 where st1: "mq_drain fuel e msgs clock st = Some (Inr (st1,
      map (\<lambda>n. (n, delete_event_message (Some (msgs n)))) (mq_contents st)))"
    using mq_drain_frees_all [OF assms(1) _ assms(5)] assms(3) by blast
  then show ?thesis
    using mq_stats_reset_returns [OF assms(2,4), of "st1\<lparr>mq_size := 0, event_message_queue := None\<rparr>"]
    by (auto simp: mq_finalize_def returns_def split: sum.splits)
qed

end
