(* ===== verification/Dump_Laws.thy ===== *)
theory Dump_Laws
  imports Metrics_Dump Internal_Laws Message_Queue_Laws
begin

section \<open>Laws of the metrics dump\<close>

text \<open>
  What a dump holds, name by name, and that building and publishing one never fails and leaves the
  invariants of the metrics map and of the message queue as they are.
\<close>

subsection \<open>Bringing the metrics up to date\<close>

definition entries_there :: "metrics_map \<Rightarrow> bool" where
  "entries_there ms \<longleftrightarrow> (\<forall>x\<in>set ms. snd x \<noteq> None)"

lemma update_entries_map:
  "entries_there ms \<Longrightarrow>
     update_entries e t ms = Inr (map (\<lambda>(n, x). (n, map_option (update_metric e t) x)) ms)"
  by (induction ms rule: update_entries.induct) (auto simp: entries_there_def)

lemma map_of_updated:
  "map_of (map (\<lambda>(n, x). (n, map_option f x)) ms) n = map_option (map_option f) (map_of ms n)"
  by (induction ms) auto

lemma inv_entries_there:
  assumes "internal_inv e kinds ist"
  shows "entries_there (metrics ist)"
proof -
  have "snd x \<noteq> None" if "x \<in> set (metrics ist)" for x
  proof -
    have "map_of (metrics ist) (fst x) = Some (snd x)"
      using that assms by (simp add: internal_inv_def)
    then show ?thesis using assms unfolding internal_inv_def entries_ok_def by fastforce
  qed
  then show ?thesis by (simp add: entries_there_def)
qed

lemma update_metric_ok:
  assumes "metric_ok e m" "on_clock t"
  shows "metric_ok e (update_metric e t m)" "dest_of (update_metric e t m) = dest_of m"
  using assms gauge_aging.age_inv counter_aging.age_inv timer_aging.age_inv
  by (cases m; simp add: counter_update_statistics_def)+

lemma gauge_update_ok:
  "metric_ok e (M_gauge g) \<Longrightarrow> on_clock t \<Longrightarrow> metric_ok e (M_gauge (gauge_update_statistics e g t))"
  using update_metric_ok(1) [of e "M_gauge g"] by simp

lemma counter_update_ok:
  "metric_ok e (M_counter c) \<Longrightarrow> on_clock t \<Longrightarrow>
     metric_ok e (M_counter (counter_update_statistics e c t))"
  using update_metric_ok(1) [of e "M_counter c"] by simp

lemma update_metrics_returns:
  assumes "internal_inv e kinds ist" "on_clock t"
  shows "returns (update_metrics e t ist) (\<lambda>ist'. internal_inv e kinds ist'
    \<and> map_of (metrics ist') = (\<lambda>n. map_option (map_option (update_metric e t)) (map_of (metrics ist) n)))
    never"
proof -
  let ?ms = "map (\<lambda>(n, x). (n, map_option (update_metric e t) x)) (metrics ist)"
  have "entries_ok e kinds ?ms"
    using assms update_metric_ok
    unfolding internal_inv_def entries_ok_def map_of_updated by fastforce
  moreover have "map fst ?ms = map fst (metrics ist)" by (induction "metrics ist") auto
  then have "distinct (map fst ?ms)" using assms(1) by (simp only: internal_inv_def)
  ultimately have "internal_inv e kinds (ist\<lparr>metrics := ?ms\<rparr>)"
    using assms(1) unfolding internal_inv_def by simp
  then show ?thesis
    using update_entries_map [OF inv_entries_there [OF assms(1)], of e t]
    by (simp add: update_metrics_def returns_Inr map_of_updated fun_eq_iff)
qed

lemma internal_stats_update_inv:
  "internal_inv e kinds ist \<Longrightarrow> on_clock t \<Longrightarrow> internal_inv e kinds (internal_stats_update e t ist)"
  using gauge_update_ok
  by (simp add: internal_inv_def internal_stats_update_def del: metric_ok.simps)

lemma mq_stats_update_inv:
  "mq_inv e mq \<Longrightarrow> on_clock t \<Longrightarrow> mq_inv e (mq_stats_update e t mq)
     \<and> mq_contents (mq_stats_update e t mq) = mq_contents mq
     \<and> event_message_queue (mq_stats_update e t mq) = event_message_queue mq"
  using gauge_update_ok counter_update_ok
  by (simp add: mq_inv_def mq_stats_ok_def mq_stats_update_def mq_contents_def del: metric_ok.simps)

subsection \<open>What a dump holds\<close>

lemma dump_insert_at: "dump_insert k m d n = (if n = k \<and> d k = None then Some m else d n)"
  by (simp add: dump_insert_def)

lemma dump_metrics_at:
  assumes "entries_there ms" "distinct (map fst ms)"
  shows "\<exists>d'. dump_metrics ms d = Inr d' \<and> (\<forall>n. d' n = (case d n of Some m \<Rightarrow> Some m
    | None \<Rightarrow> (case map_of ms n of Some (Some m) \<Rightarrow> if shown m then Some m else None | _ \<Rightarrow> None)))"
  using assms
proof (induction ms d rule: dump_metrics.induct)
  case (3 n m ms d)
  then obtain d' where d': "dump_metrics ms (if shown m then dump_insert n m d else d) = Inr d'"
    "\<forall>k. d' k = (case (if shown m then dump_insert n m d else d) k of Some m \<Rightarrow> Some m
      | None \<Rightarrow> (case map_of ms k of Some (Some m) \<Rightarrow> if shown m then Some m else None | _ \<Rightarrow> None))"
    by (auto simp: entries_there_def)
  moreover have "map_of ms n = None" using 3(3) by (simp add: map_of_eq_None_iff)
  ultimately show ?case
    by (intro exI [of _ d']) (auto simp: dump_insert_at split: option.split)
qed (auto simp: entries_there_def split: option.split)

text \<open>The name, and the metric of the library that a dump shows under it if the program has none.\<close>

definition visible :: "internal_state \<Rightarrow> metrics_dump" where
  "visible ist = (\<lambda>n. case map_of (metrics ist) n of
     Some (Some m) \<Rightarrow> if shown m then Some m else None | _ \<Rightarrow> None)"

definition own_entries ::
  "chrono_env \<Rightarrow> duration \<Rightarrow> time_point \<Rightarrow> internal_state \<Rightarrow> mq_state \<Rightarrow> gauge \<Rightarrow> (string \<times> metric) list" where
  "own_entries e interval system_timestamp ist mq dump_time =
     own_statistics ist mq @
     [(''handystats.config.dump_interval'', dump_interval_attr e interval),
      (''handystats.dump_timestamp'', timestamp_attr e system_timestamp),
      (''handystats.metrics_dump.dump_time'', M_gauge dump_time)]"

lemma insert_all_at:
  assumes "distinct (map fst xs)"
  shows "foldl (\<lambda>d (n, m). dump_insert n m d) d xs n
    = (case d n of Some m \<Rightarrow> Some m | None \<Rightarrow> map_of xs n)"
  using assms
  by (induction xs arbitrary: d)
    (auto simp: dump_insert_at map_of_eq_None_iff [symmetric] split: option.splits if_splits)

lemma create_dump_returns:
  assumes "internal_inv e kinds ist" "metric_ok e (M_gauge dt)" "on_clock (dump_end_time clk)"
  shows "returns (create_dump e interval clk ist mq dt) (\<lambda>(d, dt'). metric_ok e (M_gauge dt')
    \<and> (\<exists>ts. tp_convert_to (dump_env clk) SYSTEM (dump_now clk) = Inr ts
        \<and> d = (\<lambda>n. case visible ist n of Some m \<Rightarrow> Some m
                    | None \<Rightarrow> map_of (own_entries e interval ts ist mq dt') n))) never"
proof -
  have "distinct (map fst (metrics ist))" using assms(1) by (simp add: internal_inv_def)
  from dump_metrics_at [OF inv_entries_there [OF assms(1)] this, of Map.empty]
  obtain d0 where d0: "dump_metrics (metrics ist) Map.empty = Inr d0" "d0 = visible ist"
    by (auto simp: visible_def fun_eq_iff)
  obtain ts where ts: "tp_convert_to (dump_env clk) SYSTEM (dump_now clk) = Inr ts"
    by (cases "m_clock (dump_now clk) = SYSTEM") (auto simp: tp_convert_to_def)
  obtain dt' where dt': "gauge_set e dt (real_of_int (sint (m_rep (dur_convert_to e value_unit
      (tp_diff e (dump_end_time clk) (dump_start_time clk)))))) (dump_end_time clk) = Inr dt'"
    "metric_ok e (M_gauge dt')"
    using returns_ex [OF gauge_set_returns [OF assms(2,3)]] by blast
  have "distinct (map fst (own_entries e interval ts ist mq dt'))"
    by (simp add: own_entries_def own_statistics_def)
  from insert_all_at [OF this, of "visible ist"]
  have "(\<lambda>n. case visible ist n of Some m \<Rightarrow> Some m
      | None \<Rightarrow> map_of (own_entries e interval ts ist mq dt') n)
    = foldl (\<lambda>d (n, m). dump_insert n m d) (visible ist) (own_entries e interval ts ist mq dt')"
    by (simp only: fun_eq_iff) simp
  then show ?thesis
    using d0 ts dt'
    by (simp add: create_dump_def returns_Inr own_entries_def)
qed

subsection \<open>Publishing\<close>

definition due :: "chrono_env \<Rightarrow> duration \<Rightarrow> time_point \<Rightarrow> dump_state \<Rightarrow> bool" where
  "due e interval t ds \<longleftrightarrow>
     m_rep interval \<noteq> 0 \<and> dur_gt e (tp_diff e t (dump_timestamp ds)) interval"

text \<open>
  The promise of a publication at \<open>t\<close>, with the metrics brought to \<open>it\<close>: every metric ages in place,
  and the dump shows each under its name, and under its other names the library's own.
\<close>

fun published ::
  "chrono_env \<Rightarrow> duration \<Rightarrow> dump_clock \<Rightarrow> time_point \<Rightarrow> time_point \<Rightarrow> internal_state
     \<Rightarrow> internal_state \<times> mq_state \<times> dump_state \<Rightarrow> bool" where
  "published e interval clk t it ist (ist', mq', ds') \<longleftrightarrow>
     map_of (metrics ist') = (\<lambda>n. map_option (map_option (update_metric e it)) (map_of (metrics ist) n))
   \<and> dump_timestamp ds' = t
   \<and> (\<exists>ts. tp_convert_to (dump_env clk) SYSTEM (dump_now clk) = Inr ts
        \<and> dump ds' = (\<lambda>n. case visible ist' n of Some m \<Rightarrow> Some m
            | None \<Rightarrow> map_of (own_entries e interval ts ist' mq' (stats_dump_time ds')) n))"

fun dump_inv :: "chrono_env \<Rightarrow> (string \<Rightarrow> char_code) \<Rightarrow> mq_state
     \<Rightarrow> internal_state \<times> mq_state \<times> dump_state \<Rightarrow> bool" where
  "dump_inv e kinds mq (ist', mq', ds') \<longleftrightarrow> internal_inv e kinds ist' \<and> mq_inv e mq'
     \<and> metric_ok e (M_gauge (stats_dump_time ds')) \<and> mq_contents mq' = mq_contents mq
     \<and> event_message_queue mq' = event_message_queue mq"

lemma update_dump_not_due:
  "\<not> due e interval t ds \<Longrightarrow> update_dump e interval clk t it (ist, mq, ds) = Inr (ist, mq, ds)"
  by (auto simp: due_def update_dump_def)

lemma update_dump_due:
  assumes "internal_inv e kinds ist" "mq_inv e mq" "metric_ok e (M_gauge (stats_dump_time ds))"
    and "on_clock t" "on_clock it" "on_clock (dump_end_time clk)" "due e interval t ds"
  shows "returns (update_dump e interval clk t it (ist, mq, ds))
    (\<lambda>s. dump_inv e kinds mq s \<and> published e interval clk t it ist s) never"
proof -
  have gauge: "metric_ok e (M_gauge (stats_dump_time (dump_stats_update e t ds)))"
    using gauge_update_ok [OF assms(3,4)] by (simp add: dump_stats_update_def)
  have guard: "m_rep interval \<noteq> 0" "dur_gt e (tp_diff e t (dump_timestamp ds)) interval"
    using assms(7) by (simp_all add: due_def)
  show ?thesis
    unfolding update_dump_def Let_def prod.case if_not_P [OF guard(1)] if_P [OF guard(2)]
  proof (rule returns_bind [OF update_metrics_returns [OF assms(1,5)]], elim conjE)
    fix ist1 assume ist1: "internal_inv e kinds ist1"
      "map_of (metrics ist1) = (\<lambda>n. map_option (map_option (update_metric e it)) (map_of (metrics ist) n))"
    let ?ist = "internal_stats_update e t ist1" and ?mq = "mq_stats_update e t mq"
    have inv: "internal_inv e kinds ?ist" by (rule internal_stats_update_inv [OF ist1(1) assms(4)])
    have same: "metrics ?ist = metrics ist1" by (simp add: internal_stats_update_def)
    show "returns (bind_result (create_dump e interval clk ?ist ?mq (stats_dump_time (dump_stats_update e t ds)))
        (\<lambda>(new_dump, dump_time). Inr (?ist, ?mq, (dump_stats_update e t ds)\<lparr>stats_dump_time := dump_time,
           dump := new_dump, dump_timestamp := t\<rparr>)))
      (\<lambda>s. dump_inv e kinds mq s \<and> published e interval clk t it ist s) never"
      by (rule returns_bind [OF create_dump_returns [OF inv gauge assms(6)]])
        (use inv same ist1(2) mq_stats_update_inv [OF assms(2,4)] in
          \<open>auto simp: fun_eq_iff intro!: returns_Inr simp del: metric_ok.simps split: option.split\<close>)
  qed
qed

lemma update_dump_returns:
  assumes "internal_inv e kinds ist" "mq_inv e mq" "metric_ok e (M_gauge (stats_dump_time ds))"
    and "on_clock t" "on_clock it" "on_clock (dump_end_time clk)"
  shows "returns (update_dump e interval clk t it (ist, mq, ds)) (\<lambda>s. dump_inv e kinds mq s
    \<and> dom (map_of (metrics (fst s))) = dom (map_of (metrics ist))) never"
proof (cases "due e interval t ds")
  case True
  show ?thesis
    using update_dump_due [OF assms True]
    by (auto simp: returns_def dom_def split: sum.splits)
next
  case False
  then show ?thesis using assms by (simp add: update_dump_not_due returns_Inr)
qed

subsection \<open>Properties\<close>

definition own_names :: "string set" where
  "own_names = {''handystats.internal.size'', ''handystats.internal.process_time'',
     ''handystats.message_queue.size'', ''handystats.message_queue.message_wait_time'',
     ''handystats.message_queue.pop_count'', ''handystats.config.dump_interval'',
     ''handystats.dump_timestamp'', ''handystats.metrics_dump.dump_time''}"

lemma own_entries_names: "dom (map_of (own_entries e interval ts ist mq dt)) = own_names"
  by (simp add: own_entries_def own_statistics_def own_names_def dom_map_of_conv_image_fst)

lemma update_time_config: "s_config (update_time e st t) = s_config st"
  by (simp add: update_time_eq)

lemma shown_later: "shown (update_metric e t m) = shown m"
  by (cases m) (simp_all add: gauge_update_statistics_def counter_update_statistics_def
      timer_update_statistics_def stat_tags_def update_time_config)

text \<open>C20: When a dump is due it is published: it shows every metric of the program that has a tag,
  under its name and brought to the time of the last message, and statistics about the library
  under eight names of its own, except where a metric of the program has taken the name.\<close>

theorem due_dump_shows_every_metric:
  assumes "internal_inv e kinds ist" "mq_inv e mq" "metric_ok e (M_gauge (stats_dump_time ds))"
    and "on_clock t" "on_clock it" "on_clock (dump_end_time clk)" "due e interval t ds"
  shows "\<exists>ist' mq' ds' own. update_dump e interval clk t it (ist, mq, ds) = Inr (ist', mq', ds')
    \<and> dump_timestamp ds' = t \<and> dom own = own_names
    \<and> get_dump ds' = (\<lambda>n. case map_of (metrics ist) n of
        Some (Some m) \<Rightarrow> if shown m then Some (update_metric e it m) else own n | _ \<Rightarrow> own n)"
proof -
  from returns_ex [OF update_dump_due [OF assms]] obtain ist' mq' ds' where s:
    "update_dump e interval clk t it (ist, mq, ds) = Inr (ist', mq', ds')"
    "published e interval clk t it ist (ist', mq', ds')" by (metis prod_cases3)
  then obtain ts where d: "dump ds' = (\<lambda>n. case visible ist' n of Some m \<Rightarrow> Some m
      | None \<Rightarrow> map_of (own_entries e interval ts ist' mq' (stats_dump_time ds')) n)" by auto
  have "visible ist' n = (case map_of (metrics ist) n of
      Some (Some m) \<Rightarrow> if shown m then Some (update_metric e it m) else None | _ \<Rightarrow> None)" for n
    using s(2) by (simp add: visible_def shown_later split: option.split)
  then show ?thesis
    using s d own_entries_names [of e interval ts ist' mq' "stats_dump_time ds'"]
    by (intro exI [of _ ist'] exI [of _ mq'] exI [of _ ds']
        exI [of _ "map_of (own_entries e interval ts ist' mq' (stats_dump_time ds'))"])
      (auto simp: get_dump_def fun_eq_iff split: option.split)
qed

theorem due_dump_shows_every_metric_witness:
  "\<exists>ist' mq' ds'. update_dump example_env dump_interval_default
      \<lparr>dump_start_time = tick_time 5, dump_now = tick_time 5, dump_env = example_env,
       dump_end_time = tick_time 1000\<rparr> (tick_time 9000000000) (tick_time 1000)
      (internal_unset\<lparr>metrics := [(''y'', Some (M_attribute attribute_new))]\<rparr>, mq_unset,
       \<lparr>stats_dump_time = gauge_new gauge_opts_default, dump_timestamp = tick_time 0, dump = Map.empty\<rparr>)
      = Inr (ist', mq', ds')
    \<and> dump_timestamp ds' = tick_time 9000000000 \<and> get_dump ds' ''y'' = Some (M_attribute attribute_new)"
proof -
  let ?ist = "internal_unset\<lparr>metrics := [(''y'', Some (M_attribute attribute_new))]\<rparr>"
  let ?ds = "\<lparr>stats_dump_time = gauge_new gauge_opts_default, dump_timestamp = tick_time 0, dump = Map.empty\<rparr>"
  have gauge: "metric_ok example_env (M_gauge (gauge_new gauge_opts_default))"
    by (rule gauge_new_ok) (simp add: gauge_opts_default_def example_interval)
  have counter: "metric_ok example_env (M_counter (counter_new counter_opts_default))"
    by (rule counter_new_ok) (simp add: counter_opts_default_def example_interval)
  have ist: "internal_inv example_env (\<lambda>n. DEST_ATTRIBUTE) ?ist"
    using gauge by (simp add: internal_inv_def internal_unset_def entries_ok_def)
  have mq: "mq_inv example_env mq_unset"
    using gauge counter by (simp add: mq_inv_def mq_unset_def mq_stats_ok_def mq_contents_def)
  have due: "due example_env dump_interval_default (tick_time 9000000000) ?ds"
    by (simp add: due_def dump_interval_default_def tp_diff_def dur_sub_def dur_gt_def
        dur_convert_to_def real_to_int64_def trunc_def less_eq_time_unit_def)
  show ?thesis
    using due_dump_shows_every_metric [OF ist mq _ _ _ _ due, of "tick_time 1000"
        "\<lparr>dump_start_time = tick_time 5, dump_now = tick_time 5, dump_env = example_env,
          dump_end_time = tick_time 1000\<rparr>"] gauge example_clock
    by (auto simp del: metric_ok.simps)
qed

end
