(* ===== verification/Histories.thy ===== *)
theory Histories
  imports Dump_Laws
begin

section \<open>The history of a metric\<close>

text \<open>
  A metric in the map of \<open>src/internal.cpp\<close> is reached by two operations only: a message for its
  name, and the ageing of all metrics before a dump. Its history is the list of both. Here it is
  shown that every operation on the map extends the history of every name in this way, and what a
  history makes of a counter, a gauge and an attribute.
\<close>

datatype happening = Message event_message | Aged time_point

fun relive :: "chrono_env \<Rightarrow> 'v config_state \<Rightarrow> happening list \<Rightarrow> metric \<Rightarrow> metric result" where
  "relive e cfg [] m = Inr m"
| "relive e cfg (Message msg # hs) m = bind_result (process_event e cfg m msg) (relive e cfg hs)"
| "relive e cfg (Aged t # hs) m = relive e cfg hs (update_metric e t m)"

fun messages_in :: "happening list \<Rightarrow> event_message list" where
  "messages_in [] = []"
| "messages_in (Message msg # hs) = msg # messages_in hs"
| "messages_in (Aged t # hs) = messages_in hs"

fun ages_on_clock :: "happening list \<Rightarrow> bool" where
  "ages_on_clock [] \<longleftrightarrow> True"
| "ages_on_clock (Message msg # hs) \<longleftrightarrow> ages_on_clock hs"
| "ages_on_clock (Aged t # hs) \<longleftrightarrow> on_clock t \<and> ages_on_clock hs"

lemma messages_in_append [simp]: "messages_in (hs @ hs') = messages_in hs @ messages_in hs'"
  by (induction hs rule: messages_in.induct) simp_all

lemma ages_on_clock_append [simp]: "ages_on_clock (hs @ hs') \<longleftrightarrow> ages_on_clock hs \<and> ages_on_clock hs'"
  by (induction hs rule: messages_in.induct) simp_all

lemma relive_append: "relive e cfg (hs @ hs') m = bind_result (relive e cfg hs m) (relive e cfg hs')"
proof (induction hs arbitrary: m rule: messages_in.induct)
  case (2 msg hs)
  then show ?case by (cases "process_event e cfg m msg") simp_all
qed simp_all

text \<open>The metric under a name has been made for the first of its messages, with the options of the
  first matching pattern, and has lived through all of them.\<close>

definition newborn ::
  "'v rapidjson \<Rightarrow> (string \<Rightarrow> string \<Rightarrow> bool) \<Rightarrow> 'v config_state \<Rightarrow> event_message \<Rightarrow> metric option result" where
  "newborn J fnm cfg msg =
     make_metric J cfg (select_pattern fnm (pattern_opts cfg) (destination_name msg)) (destination_type msg)"

definition lived ::
  "chrono_env \<Rightarrow> 'v rapidjson \<Rightarrow> (string \<Rightarrow> string \<Rightarrow> bool) \<Rightarrow> 'v config_state
     \<Rightarrow> event_message list \<Rightarrow> metric \<Rightarrow> bool" where
  "lived e J fnm cfg msgs m \<longleftrightarrow> msgs \<noteq> [] \<and> (\<exists>hs m0. messages_in hs = msgs \<and> ages_on_clock hs
     \<and> newborn J fnm cfg (hd msgs) = Inr (Some m0) \<and> relive e cfg hs m0 = Inr m)"

definition history ::
  "chrono_env \<Rightarrow> 'v rapidjson \<Rightarrow> (string \<Rightarrow> string \<Rightarrow> bool) \<Rightarrow> 'v config_state
     \<Rightarrow> string \<Rightarrow> event_message list \<Rightarrow> metrics_map \<Rightarrow> bool" where
  "history e J fnm cfg n msgs ms \<longleftrightarrow> (case map_of ms n of
     None \<Rightarrow> msgs = []
   | Some x \<Rightarrow> \<exists>m. x = Some m \<and> lived e J fnm cfg msgs m)"

abbreviation addressed :: "string \<Rightarrow> event_message list \<Rightarrow> event_message list" where
  "addressed n msgs \<equiv> filter (\<lambda>msg. destination_name msg = n) msgs"

lemma history_names:
  assumes "\<And>n. history e J fnm cfg n (addressed n msgs) ms"
  shows "dom (map_of ms) = destination_name ` set msgs"
proof -
  have "map_of ms n = None \<longleftrightarrow> addressed n msgs = []" for n
    using assms [of n] by (auto simp: history_def lived_def split: option.splits)
  then have "n \<in> dom (map_of ms) \<longleftrightarrow> n \<in> destination_name ` set msgs" for n
    by (force simp: domIff filter_empty_conv)
  then show ?thesis by blast
qed

subsection \<open>Every operation on the map extends the histories\<close>

lemma lived_message:
  assumes "lived e J fnm cfg msgs m" "process_event e cfg m msg = Inr m'"
  shows "lived e J fnm cfg (msgs @ [msg]) m'"
proof -
  obtain hs m0 where "messages_in hs = msgs" "ages_on_clock hs" "msgs \<noteq> []"
    "newborn J fnm cfg (hd msgs) = Inr (Some m0)" "relive e cfg hs m0 = Inr m"
    using assms(1) by (auto simp: lived_def)
  then show ?thesis
    using assms(2) by (auto simp: lived_def relive_append intro!: exI [of _ "hs @ [Message msg]"] exI [of _ m0])
qed

lemma lived_birth:
  assumes "newborn J fnm cfg msg = Inr (Some m0)" "process_event e cfg m0 msg = Inr m"
  shows "lived e J fnm cfg [msg] m"
  using assms by (auto simp: lived_def intro!: exI [of _ "[Message msg]"])

lemma lived_aged:
  assumes "lived e J fnm cfg msgs m" "on_clock t"
  shows "lived e J fnm cfg msgs (update_metric e t m)"
proof -
  obtain hs m0 where "messages_in hs = msgs" "ages_on_clock hs" "msgs \<noteq> []"
    "newborn J fnm cfg (hd msgs) = Inr (Some m0)" "relive e cfg hs m0 = Inr m"
    using assms(1) by (auto simp: lived_def)
  then show ?thesis
    using assms(2) by (auto simp: lived_def relive_append intro!: exI [of _ "hs @ [Aged t]"] exI [of _ m0])
qed

lemma process_event_message_history:
  assumes "process_event_message e J fnm cfg t1 t2 msg ist = Inr ist'"
    and "history e J fnm cfg n msgs (metrics ist)"
  shows "history e J fnm cfg n (msgs @ addressed n [msg]) (metrics ist')"
proof -
  obtain m0 m where m: "metrics ist' = AList.update (destination_name msg) (Some m) (metrics ist)"
    "process_event e cfg m0 msg = Inr m"
    "(case (case map_of (metrics ist) (destination_name msg) of None \<Rightarrow> None | Some x \<Rightarrow> x) of
        Some m \<Rightarrow> Inr (Some m) | None \<Rightarrow> newborn J fnm cfg msg) = Inr (Some m0)"
    using assms(1)
    by (auto simp: process_event_message_def newborn_def Let_def bind_result_Inr_iff split: option.splits)
  show ?thesis
  proof (cases "destination_name msg = n")
    case True
    show ?thesis
    proof (cases "map_of (metrics ist) n")
      case None
      then show ?thesis
        using m assms(2) True lived_birth by (fastforce simp: history_def update_conv')
    next
      case (Some x)
      then show ?thesis
        using m assms(2) True lived_message by (fastforce simp: history_def update_conv')
    qed
  qed (use assms(2) m(1) in \<open>simp add: history_def update_conv'\<close>)
qed

lemma update_metrics_history:
  assumes "internal_inv e kinds ist" "on_clock t" "update_metrics e t ist = Inr ist'"
    and "history e J fnm cfg n msgs (metrics ist)"
  shows "history e J fnm cfg n msgs (metrics ist')"
proof -
  have "map_of (metrics ist') n = map_option (map_option (update_metric e t)) (map_of (metrics ist) n)"
    using update_metrics_returns [OF assms(1,2)] assms(3) by (auto simp: returns_def)
  then show ?thesis
    using assms(4) lived_aged [OF _ assms(2)] by (auto simp: history_def split: option.splits)
qed

lemma update_dump_history:
  assumes "internal_inv e kinds ist" "on_clock internal_time"
    and "update_dump e interval clk system_time internal_time (ist, mq, ds) = Inr (ist', mq', ds')"
    and "history e J fnm cfg n msgs (metrics ist)"
  shows "history e J fnm cfg n msgs (metrics ist')"
proof -
  note aged = update_metrics_history [OF assms(1,2) _ assms(4)]
  show ?thesis
    using assms(3,4) aged
    by (auto simp: update_dump_def internal_stats_update_def Let_def bind_result_Inr_iff split: if_splits)
qed

subsection \<open>Counters\<close>

text \<open>The count after a message: an init event sets it, the others change it by their value.\<close>

definition counted :: "event_message \<Rightarrow> int64 \<Rightarrow> int64" where
  "counted msg x = (case event_data msg of
     P_word v \<Rightarrow> if event_type msg = counter_INIT then v
                 else if event_type msg = counter_INCREMENT then x + v else x - v
   | _ \<Rightarrow> x)"

text \<open>A counter that has begun, or has nothing to lose when it begins.\<close>

definition counter_begun :: "counter \<Rightarrow> bool" where
  "counter_begun c \<longleftrightarrow> on_clock (c_timestamp c)
     \<and> (0 < tick_pos (c_timestamp c) \<or> c_timestamp c = time_point_default \<and> c_value c = 0)"

lemma counter_increment_fields:
  assumes "counter_increment e c d t = Inr c'"
  shows "c_value c' = (if tp_eq e (c_timestamp c) time_point_default then 0 else c_value c) + d"
    "c_timestamp c' = (if tp_eq e (c_timestamp c) time_point_default then t
       else tp_max e (c_timestamp c) t)"
  using assms
  by (auto simp: counter_increment_def counter_init_def counter_report_def bind_result_Inr_iff Let_def
      tp_max_def split: if_splits)

lemma decrement_is_increment: "counter_decrement e c d t = counter_increment e c (- d) t"
  by (simp add: counter_decrement_def counter_increment_def)

lemma counter_increment_counts:
  assumes "counter_increment e c d t = Inr c'" "counter_begun c" "on_clock t" "0 < tick_pos t"
  shows "counter_begun c' \<and> c_value c' = c_value c + d"
proof -
  have s: "on_clock (c_timestamp c)" using assms(2) by (simp add: counter_begun_def)
  have "c_value c = 0" if "tp_eq e (c_timestamp c) time_point_default"
    using that assms(2) started_iff [OF s] by (auto simp: counter_begun_def)
  moreover have "on_clock (c_timestamp c') \<and> 0 < tick_pos (c_timestamp c')"
    using counter_increment_fields(2) [OF assms(1)] assms(3,4) s max_clock [OF s assms(3)]
    by (auto simp: tp_max_def)
  ultimately show ?thesis
    using counter_increment_fields(1) [OF assms(1)] by (auto simp: counter_begun_def)
qed

lemma process_counter_event_counts:
  assumes "process_counter_event e opts c msg = Inr c'" "counter_begun c"
    and "created msg" "destination_type msg = DEST_COUNTER" "on_clock (timestamp msg)"
      "0 < tick_pos (timestamp msg)"
  shows "counter_begun c' \<and> c_value c' = counted msg (c_value c)"
  using assms(3)
proof cases
  case (1 n v t)
  then show ?thesis
    using assms(1,5,6)
    by (auto simp: process_counter_defs create_defs codes counter_init_def counter_report_def
        counter_begun_def counted_def bind_result_Inr_iff Let_def)
next
  case (2 n v t)
  then show ?thesis
    using assms(1,5,6) counter_increment_counts [OF _ assms(2)]
    by (simp add: process_counter_defs create_defs codes counted_def)
next
  case (3 n v t)
  then show ?thesis
    using assms(1,5,6) counter_increment_counts [OF _ assms(2)]
    by (simp add: process_counter_defs create_defs codes counted_def decrement_is_increment)
qed (use assms(4) in \<open>simp_all add: create_defs codes\<close>)

lemma counter_relives:
  assumes "relive e cfg hs (M_counter c) = Inr m" "counter_begun c"
    and "\<forall>msg\<in>set (messages_in hs). created msg \<and> destination_type msg = DEST_COUNTER
      \<and> on_clock (timestamp msg) \<and> 0 < tick_pos (timestamp msg)"
  shows "\<exists>c'. m = M_counter c' \<and> c_value c' = fold counted (messages_in hs) (c_value c)"
  using assms
proof (induction hs arbitrary: c rule: messages_in.induct)
  case (2 msg hs)
  then obtain c1 where c1: "process_counter_event e (cfg_counter cfg) c msg = Inr c1"
    "relive e cfg hs (M_counter c1) = Inr m"
    by (auto simp: bind_result_Inr_iff)
  then show ?case using "2.IH" [OF c1(2)] process_counter_event_counts [OF c1(1)] "2.prems" by simp
next
  case (3 t hs)
  then show ?case
    using "3.IH" [of "counter_update_statistics e c t"]
    by (simp add: counter_update_statistics_def counter_begun_def)
qed auto

text \<open>The count of a counter is that of its messages.\<close>

lemma lived_counter:
  assumes "lived e J fnm cfg msgs m"
    and "\<forall>msg\<in>set msgs. created msg \<and> destination_type msg = DEST_COUNTER
      \<and> on_clock (timestamp msg) \<and> 0 < tick_pos (timestamp msg)"
  shows "\<exists>c. m = M_counter c \<and> c_value c = fold counted msgs 0"
proof -
  obtain hs m0 where h: "messages_in hs = msgs" "msgs \<noteq> []"
    "newborn J fnm cfg (hd msgs) = Inr (Some m0)" "relive e cfg hs m0 = Inr m"
    using assms(1) by (auto simp: lived_def)
  have "destination_type (hd msgs) = DEST_COUNTER" using assms(2) h(2) by simp
  then obtain opts where m0: "m0 = M_counter (counter_new opts)"
    using h(3) by (auto simp: newborn_def make_metric_def bind_result_Inr_iff)
  have "counter_begun (counter_new opts)"
    using on_clock_default by (simp add: counter_begun_def counter_new_def)
  then show ?thesis
    using counter_relives h(1,4) assms(2) m0 by (fastforce simp: counter_new_def)
qed

subsection \<open>Gauges\<close>

text \<open>The values a gauge has been given since its last init event.\<close>

definition seen :: "event_message \<Rightarrow> real list \<Rightarrow> real list" where
  "seen msg vs = (case event_data msg of
     P_double v \<Rightarrow> if event_type msg = gauge_INIT then [v] else vs @ [v] | _ \<Rightarrow> vs)"

lemma run_ops_append: "run_ops e st (ops @ ops') = bind_result (run_ops e st ops) (\<lambda>st. run_ops e st ops')"
  by (induction ops arbitrary: st) (simp_all add: bind_result_assoc)

lemma op_values_append [simp]: "op_values (ops @ ops') = op_values ops @ op_values ops'"
  by (induction ops rule: op_values.induct) simp_all

text \<open>A gauge whose statistics come from a sequence of calls that gave it the values \<open>vs\<close>.\<close>

definition gauge_of :: "chrono_env \<Rightarrow> stat_config \<Rightarrow> real list \<Rightarrow> gauge \<Rightarrow> bool" where
  "gauge_of e sc vs g \<longleftrightarrow> (\<exists>ops. on_clock_ops ops \<and> op_values ops = vs
     \<and> run_ops e (statistics_new sc) ops = Inr (g_values g))"

lemma gauge_of_new: "gauge_of e (go_values opts) [] (gauge_new opts)"
  by (auto simp: gauge_of_def gauge_new_def intro!: exI [of _ "[]"])

lemma gauge_of_set:
  assumes "gauge_of e sc vs g" "gauge_set e g v t = Inr g'" "on_clock t"
  shows "gauge_of e sc (vs @ [v]) g'"
proof -
  obtain ops where "on_clock_ops ops" "op_values ops = vs"
    "run_ops e (statistics_new sc) ops = Inr (g_values g)"
    using assms(1) by (auto simp: gauge_of_def)
  then show ?thesis
    using assms(2,3)
    by (auto simp: gauge_of_def gauge_set_def bind_result_Inr_iff run_ops_append on_clock_ops_def
        intro!: exI [of _ "ops @ [Op_update v t]"])
qed

lemma gauge_of_aged:
  assumes "gauge_of e sc vs g" "on_clock t"
  shows "gauge_of e sc vs (gauge_update_statistics e g t)"
proof -
  obtain ops where "on_clock_ops ops" "op_values ops = vs"
    "run_ops e (statistics_new sc) ops = Inr (g_values g)"
    using assms(1) by (auto simp: gauge_of_def)
  then show ?thesis
    using assms(2)
    by (auto simp: gauge_of_def gauge_update_statistics_def run_ops_append on_clock_ops_def
        intro!: exI [of _ "ops @ [Op_time t]"])
qed

lemma process_gauge_event_sees:
  assumes "process_gauge_event e opts g msg = Inr g'" "gauge_of e (go_values opts) vs g"
    and "created msg" "destination_type msg = DEST_GAUGE" "on_clock (timestamp msg)"
  shows "gauge_of e (go_values opts) (seen msg vs) g'"
  using assms(3)
proof cases
  case (4 n v t)
  then show ?thesis
    using assms(1,5) gauge_of_set [OF gauge_of_new]
    by (fastforce simp: process_gauge_defs create_defs codes seen_def)
next
  case (5 n v t)
  then show ?thesis
    using assms(1,5) gauge_of_set [OF assms(2)]
    by (simp add: process_gauge_defs create_defs codes seen_def)
qed (use assms(4) in \<open>simp_all add: create_defs codes\<close>)

lemma gauge_relives:
  assumes "relive e cfg hs (M_gauge g) = Inr m" "gauge_of e (go_values (cfg_gauge cfg)) vs g"
    and "\<forall>msg\<in>set (messages_in hs). created msg \<and> destination_type msg = DEST_GAUGE
      \<and> on_clock (timestamp msg)" "ages_on_clock hs"
  shows "\<exists>g'. m = M_gauge g' \<and> gauge_of e (go_values (cfg_gauge cfg)) (fold seen (messages_in hs) vs) g'"
  using assms
proof (induction hs arbitrary: g vs rule: messages_in.induct)
  case (2 msg hs)
  then obtain g1 where g1: "process_gauge_event e (cfg_gauge cfg) g msg = Inr g1"
    "relive e cfg hs (M_gauge g1) = Inr m"
    by (auto simp: bind_result_Inr_iff)
  then show ?case using "2.IH" [OF g1(2)] process_gauge_event_sees [OF g1(1)] "2.prems" by simp
next
  case (3 t hs)
  then show ?case using "3.IH" [OF _ gauge_of_aged [OF "3.prems"(2)]] by simp
qed auto

lemma gauge_of_aggregates:
  assumes "good_interval e sc" "gauge_of e sc vs g"
    and "\<forall>t\<in>{Tag_count, Tag_sum, Tag_min, Tag_max, Tag_value}. stat_computed (statistics_new sc) t"
  shows "stat_count (g_values g) = Inr (of_nat (length vs)) \<and> stat_sum (g_values g) = Inr (sum_list vs)
    \<and> stat_min (g_values g) = Inr (foldl min double_max vs)
    \<and> stat_max (g_values g) = Inr (foldl max double_min vs)
    \<and> stat_value (g_values g) = Inr (last (0 # vs))"
proof -
  obtain ops where ops: "on_clock_ops ops" "op_values ops = vs"
    "run_ops e (statistics_new sc) ops = Inr (g_values g)"
    using assms(2) by (auto simp: gauge_of_def)
  then show ?thesis using run_ops_aggregates [OF assms(1) ops(1) assms(3)] by auto
qed

text \<open>With no pattern for its name, a gauge has been given the values of its messages.\<close>

lemma lived_gauge:
  assumes "lived e J fnm cfg msgs m" "select_pattern fnm (pattern_opts cfg) (destination_name (hd msgs)) = None"
    and "\<forall>msg\<in>set msgs. created msg \<and> destination_type msg = DEST_GAUGE \<and> on_clock (timestamp msg)"
  shows "\<exists>g. m = M_gauge g \<and> gauge_of e (go_values (cfg_gauge cfg)) (fold seen msgs []) g"
proof -
  obtain hs m0 where h: "messages_in hs = msgs" "msgs \<noteq> []" "ages_on_clock hs"
    "newborn J fnm cfg (hd msgs) = Inr (Some m0)" "relive e cfg hs m0 = Inr m"
    using assms(1) by (auto simp: lived_def)
  have "destination_type (hd msgs) = DEST_GAUGE" using assms(3) h(2) by simp
  then have m0: "m0 = M_gauge (gauge_new (cfg_gauge cfg))"
    using h(4) assms(2) by (auto simp: newborn_def make_metric_def bind_result_Inr_iff codes)
  show ?thesis
    using gauge_relives [of e cfg hs "gauge_new (cfg_gauge cfg)" m] gauge_of_new h(1,3,5) assms(3)
    by (simp add: m0)
qed

subsection \<open>Attributes\<close>

definition told :: "event_message \<Rightarrow> attribute_value \<Rightarrow> attribute_value" where
  "told msg x = (case event_data msg of P_attribute v \<Rightarrow> v | _ \<Rightarrow> x)"

lemma attribute_relives:
  assumes "relive e cfg hs (M_attribute a) = Inr m"
    and "\<forall>msg\<in>set (messages_in hs). created msg \<and> destination_type msg = DEST_ATTRIBUTE"
  shows "m = M_attribute \<lparr>a_value = fold told (messages_in hs) (a_value a)\<rparr>"
  using assms
proof (induction hs arbitrary: a rule: messages_in.induct)
  case (2 msg hs)
  then obtain n v t where msg: "msg = create_attribute_set_event n v t"
    by (auto elim!: created.cases simp: create_defs codes)
  then show ?case
    using "2.IH" [of "attribute_set a v"] "2.prems"
    by (simp add: process_attribute_defs create_defs codes attribute_set_def told_def)
qed auto

text \<open>An attribute has the last value it was given.\<close>

lemma lived_attribute:
  assumes "lived e J fnm cfg msgs m"
    and "\<forall>msg\<in>set msgs. created msg \<and> destination_type msg = DEST_ATTRIBUTE"
  shows "m = M_attribute \<lparr>a_value = fold told msgs (A_bool False)\<rparr>"
proof -
  obtain hs m0 where h: "messages_in hs = msgs" "msgs \<noteq> []"
    "newborn J fnm cfg (hd msgs) = Inr (Some m0)" "relive e cfg hs m0 = Inr m"
    using assms(1) by (auto simp: lived_def)
  have "destination_type (hd msgs) = DEST_ATTRIBUTE" using assms(2) h(2) by simp
  then have "m0 = M_attribute attribute_new"
    using h(3) by (auto simp: newborn_def make_metric_def bind_result_Inr_iff codes)
  then show ?thesis
    using attribute_relives [of e cfg hs attribute_new m] h(1,4) assms(2) by (simp add: attribute_new_def)
qed

end
