(* ===== verification/Core_Laws.thy ===== *)
theory Core_Laws
  imports Measuring_Points Histories
begin

section \<open>Laws of the whole library\<close>

text \<open>
  An execution is a sequence of measuring points of the program and rounds of the processor thread,
  in any order. Its invariant joins those of the parts; with it no execution fails, and what was
  sent is what was processed followed by what is waiting.
\<close>

subsection \<open>Measuring points as messages\<close>

datatype point =
    Counter_init string int64 time_point
  | Counter_increment string int64 time_point
  | Counter_decrement string int64 time_point
  | Counter_change string int64 time_point
  | Gauge_init string real time_point
  | Gauge_set string real time_point
  | Timer_init string instance_id time_point
  | Timer_start string instance_id time_point
  | Timer_stop string instance_id time_point
  | Timer_discard string instance_id time_point
  | Timer_heartbeat string instance_id time_point
  | Timer_set string duration time_point
  | Attribute_set string attribute_value time_point

fun perform :: "chrono_env \<Rightarrow> node_id \<Rightarrow> point \<Rightarrow> 'v program \<Rightarrow> 'v program" where
  "perform e n (Counter_init c v t) = mp_counter_init n c v t"
| "perform e n (Counter_increment c v t) = mp_counter_increment n c v t"
| "perform e n (Counter_decrement c v t) = mp_counter_decrement n c v t"
| "perform e n (Counter_change c v t) = mp_counter_change n c v t"
| "perform e n (Gauge_init g v t) = mp_gauge_init n g v t"
| "perform e n (Gauge_set g v t) = mp_gauge_set n g v t"
| "perform e n (Timer_init m i t) = mp_timer_init n m i t"
| "perform e n (Timer_start m i t) = mp_timer_start n m i t"
| "perform e n (Timer_stop m i t) = mp_timer_stop n m i t"
| "perform e n (Timer_discard m i t) = mp_timer_discard n m i t"
| "perform e n (Timer_heartbeat m i t) = mp_timer_heartbeat n m i t"
| "perform e n (Timer_set m d t) = mp_timer_set e n m d t"
| "perform e n (Attribute_set a v t) = mp_attribute_set n a v t"

text \<open>The message of a point: its kind, name, time stamp and payload.\<close>

fun point_message :: "chrono_env \<Rightarrow> point \<Rightarrow> event_message" where
  "point_message e (Counter_init c v t) = create_counter_init_event c v t"
| "point_message e (Counter_increment c v t) = create_increment_event c v t"
| "point_message e (Counter_decrement c v t) = create_decrement_event c v t"
| "point_message e (Counter_change c v t) =
     (if 0 \<le> sint v then create_increment_event c v t else create_decrement_event c (- v) t)"
| "point_message e (Gauge_init g v t) = create_gauge_init_event g v t"
| "point_message e (Gauge_set g v t) = create_gauge_set_event g v t"
| "point_message e (Timer_init m i t) = create_timer_init_event m i t"
| "point_message e (Timer_start m i t) = create_start_event m i t"
| "point_message e (Timer_stop m i t) = create_stop_event m i t"
| "point_message e (Timer_discard m i t) = create_discard_event m i t"
| "point_message e (Timer_heartbeat m i t) = create_heartbeat_event m i t"
| "point_message e (Timer_set m d t) = create_timer_set_event e m d t"
| "point_message e (Attribute_set a v t) = create_attribute_set_event a v t"

lemmas mp_defs = mp_counter_init_def mp_counter_increment_def mp_counter_decrement_def
  mp_counter_change_def mp_gauge_init_def mp_gauge_set_def mp_timer_init_def mp_timer_start_def
  mp_timer_stop_def mp_timer_discard_def mp_timer_heartbeat_def mp_timer_set_def mp_attribute_set_def

lemma perform_sends:
  "perform e n p st = (if is_enabled st then send n (point_message e p) st else st)"
  by (cases p) (simp_all add: mp_defs)

lemma point_message_created: "created (point_message e p)"
  by (cases p) (simp_all add: created.intros)

subsection \<open>Executions\<close>

datatype step = Point node_id point | Round round_clock

fun exec ::
  "chrono_env \<Rightarrow> 'v rapidjson \<Rightarrow> (string \<Rightarrow> string \<Rightarrow> bool) \<Rightarrow> step list
     \<Rightarrow> 'v program \<Rightarrow> 'v program result" where
  "exec e J fnm [] st = Inr st"
| "exec e J fnm (Point n p # ss) st = exec e J fnm ss (perform e n p st)"
| "exec e J fnm (Round clk # ss) st =
     bind_result (run_processor e J fnm [clk] st) (exec e J fnm ss)"

fun sends :: "chrono_env \<Rightarrow> step list \<Rightarrow> (node_id \<times> event_message) list" where
  "sends e [] = []"
| "sends e (Point n p # ss) = (n, point_message e p) # sends e ss"
| "sends e (Round clk # ss) = sends e ss"

definition round_ok :: "round_clock \<Rightarrow> bool" where
  "round_ok clk \<longleftrightarrow> on_clock (pop_time clk) \<and> on_clock (process_end_time clk)
     \<and> on_clock (idle_time clk) \<and> on_clock (update_time_now clk)
     \<and> on_clock (dump_end_time (round_dump_clock clk))"

fun step_ok :: "chrono_env \<Rightarrow> (string \<Rightarrow> char_code) \<Rightarrow> step \<Rightarrow> bool" where
  "step_ok e kinds (Point n p) \<longleftrightarrow> n \<noteq> Stub \<and> message_ok kinds (point_message e p)"
| "step_ok e kinds (Round clk) \<longleftrightarrow> round_ok clk"

definition program_inv ::
  "chrono_env \<Rightarrow> 'v rapidjson \<Rightarrow> (string \<Rightarrow> char_code) \<Rightarrow> 'v program \<Rightarrow> bool" where
  "program_inv e J kinds st \<longleftrightarrow> is_enabled st
     \<and> mq_inv e (p_queue st) \<and> event_message_queue (p_queue st) \<noteq> None
     \<and> internal_inv e kinds (p_internal st)
     \<and> globals_ok e (p_config st) \<and> patterns_ok e J (p_config st)
     \<and> metric_ok e (M_gauge (stats_dump_time (p_dump st)))
     \<and> on_clock (last_message_timestamp st)
     \<and> (\<forall>n\<in>set (mq_contents (p_queue st)). message_ok kinds (p_messages st n))"

abbreviation waiting :: "'v program \<Rightarrow> node_id list" where
  "waiting st \<equiv> mq_contents (p_queue st)"

abbreviation metric_names :: "'v program \<Rightarrow> string set" where
  "metric_names st \<equiv> dom (map_of (metrics (p_internal st)))"

abbreviation deletion :: "node_id \<times> event_message \<Rightarrow> node_id \<times> freed list" where
  "deletion x \<equiv> (fst x, delete_event_message (Some (snd x)))"

subsection \<open>One step\<close>

lemma send_inv:
  assumes "program_inv e J kinds st" "n \<noteq> Stub" "n \<notin> set (waiting st)" "message_ok kinds m"
    and "length (waiting st) + 1 < 2 ^ 64"
  shows "program_inv e J kinds (send n m st)" "waiting (send n m st) = waiting st @ [n]"
    "p_freed (send n m st) = p_freed st" "p_internal (send n m st) = p_internal st"
    "p_messages (send n m st) = (p_messages st)(n := m)" "p_config (send n m st) = p_config st"
proof -
  have q: "mq_inv e (p_queue st)" "event_message_queue (p_queue st) \<noteq> None"
    using assms(1) by (simp_all add: program_inv_def)
  note push = mq_push_inv [OF q assms(2,3,5)]
  show "waiting (send n m st) = waiting st @ [n]" "p_freed (send n m st) = p_freed st"
    "p_internal (send n m st) = p_internal st" "p_messages (send n m st) = (p_messages st)(n := m)"
    "p_config (send n m st) = p_config st"
    using push(2) by (simp_all add: send_def)
  have "event_message_queue (mq_push (p_queue st) n) \<noteq> None"
    using q(2) by (auto simp: mq_push_def)
  then show "program_inv e J kinds (send n m st)"
    using assms push by (auto simp: program_inv_def send_def is_enabled_def)
qed

lemma tp_max_on_clock: "on_clock a \<Longrightarrow> on_clock b \<Longrightarrow> on_clock (tp_max e a b)"
  by (simp add: tp_max_def)

text \<open>What a round does to the messages: it takes the oldest one, if there is one, and it becomes
  part of the history of its metric.\<close>

abbreviation history_of ::
  "chrono_env \<Rightarrow> 'v rapidjson \<Rightarrow> (string \<Rightarrow> string \<Rightarrow> bool) \<Rightarrow> 'v config_state
     \<Rightarrow> string \<Rightarrow> event_message list \<Rightarrow> 'v program \<Rightarrow> bool" where
  "history_of e J fnm cfg name msgs st \<equiv> history e J fnm cfg name msgs (metrics (p_internal st))"

definition extends ::
  "chrono_env \<Rightarrow> 'v rapidjson \<Rightarrow> (string \<Rightarrow> string \<Rightarrow> bool) \<Rightarrow> 'v config_state
     \<Rightarrow> 'v program \<Rightarrow> event_message list \<Rightarrow> 'v program \<Rightarrow> bool" where
  "extends e J fnm cfg st news st' \<longleftrightarrow> (\<forall>name msgs. history_of e J fnm cfg name msgs st \<longrightarrow>
     history_of e J fnm cfg name (msgs @ addressed name news) st')"

lemma extends_same: "metrics (p_internal st') = metrics (p_internal st) \<Longrightarrow> extends e J fnm cfg st [] st'"
  by (simp add: extends_def)

lemma extendsD:
  "extends e J fnm cfg st news st' \<Longrightarrow> history_of e J fnm cfg name (addressed name msgs) st \<Longrightarrow>
     history_of e J fnm cfg name (addressed name (msgs @ news)) st'"
  by (simp add: extends_def)

lemma extends_then:
  "extends e J fnm cfg st news st1 \<Longrightarrow>
     (\<And>name msgs. history_of e J fnm cfg name msgs st1 \<Longrightarrow> history_of e J fnm cfg name msgs st2) \<Longrightarrow>
     extends e J fnm cfg st news st2"
  by (simp add: extends_def)

fun took :: "'v program \<Rightarrow> 'v program \<Rightarrow> node_id list \<Rightarrow> bool" where
  "took st st' [] \<longleftrightarrow> waiting st' = [] \<and> p_freed st' = p_freed st"
| "took st st' (n # ns) \<longleftrightarrow> waiting st' = ns
     \<and> p_freed st' = p_freed st @ [deletion (n, p_messages st n)]"

definition round_post ::
  "chrono_env \<Rightarrow> 'v rapidjson \<Rightarrow> (string \<Rightarrow> string \<Rightarrow> bool) \<Rightarrow> (string \<Rightarrow> char_code)
     \<Rightarrow> 'v program \<Rightarrow> 'v program \<Rightarrow> bool" where
  "round_post e J fnm kinds st st' \<longleftrightarrow> program_inv e J kinds st' \<and> p_messages st' = p_messages st
     \<and> p_config st' = p_config st \<and> took st st' (waiting st)
     \<and> extends e J fnm (p_config st) st (map (p_messages st) (take 1 (waiting st))) st'"

lemma process_message_queue_returns:
  assumes "program_inv e J kinds st" "round_ok clk" "waiting st = n # ns"
  shows "returns (process_message_queue e J fnm clk st) (round_post e J fnm kinds st) never"
proof -
  have inv: "mq_inv e (p_queue st)" "internal_inv e kinds (p_internal st)" "globals_ok e (p_config st)"
    "patterns_ok e J (p_config st)" "message_ok kinds (p_messages st n)" "on_clock (last_message_timestamp st)"
    using assms(1,3) by (simp_all add: program_inv_def)
  have clk: "on_clock (pop_time clk)" "on_clock (process_end_time clk)"
    using assms(2) by (simp_all add: round_ok_def)
  obtain q where q: "mq_inv e q" "mq_pop e (p_messages st) (pop_time clk) (p_queue st) = Inr (q, Some n)"
    "mq_contents q = ns"
    using mq_pop_inv [OF inv(1) clk(1), of "p_messages st"] assms(3) by auto
  have some: "event_message_queue q \<noteq> None"
    using q(2) assms(1)
    by (auto simp: program_inv_def mq_pop_def mq_record_def Let_def bind_result_Inr_iff split: prod.splits option.splits)
  have story: "\<forall>name msgs. history_of e J fnm (p_config st) name msgs st \<longrightarrow>
      history e J fnm (p_config st) name (msgs @ addressed name [p_messages st n]) (metrics ist)"
    if "process_event_message e J fnm (p_config st) (process_start_time clk) (process_end_time clk)
      (p_messages st n) (p_internal st) = Inr ist" for ist
    using process_event_message_history [OF that] by blast
  have stamp: "on_clock (timestamp (p_messages st n))" using inv(5) by (simp add: message_ok_def)
  show ?thesis
    unfolding process_message_queue_def q(2)
    by (simp add: Let_def, rule returns_bind [OF returns_also
          [OF process_event_message_returns [OF inv(2,5) clk(2) inv(3,4)] story]], assumption)
      (use assms(1,3) q some stamp inv(6) in \<open>auto intro!: returns_Inr tp_max_on_clock
        simp: round_post_def program_inv_def is_enabled_def extends_def\<close>)
qed

lemma empty_iff: "mq_inv e q \<Longrightarrow> mq_empty q \<longleftrightarrow> mq_contents q = []"
  by (auto simp: mq_inv_def mq_empty_def unat_eq_zero)

lemma took_same:
  assumes "waiting st1 = waiting st2" "p_freed st1 = p_freed st2"
  shows "took st st1 ns = took st st2 ns"
  using assms by (cases ns) auto

lemma processor_round_returns:
  assumes "program_inv e J kinds st" "round_ok clk"
  shows "returns (processor_round e J fnm clk st) (round_post e J fnm kinds st) never"
proof -
  have clk: "on_clock (update_time_now clk)" "on_clock (dump_end_time (round_dump_clock clk))"
    "on_clock (idle_time clk)"
    using assms(2) by (simp_all add: round_ok_def)
  have first: "returns (if \<not> mq_empty (p_queue st) then process_message_queue e J fnm clk st
      else Inr (st\<lparr>last_message_timestamp := tp_max e (last_message_timestamp st) (idle_time clk)\<rparr>))
    (round_post e J fnm kinds st) never"
  proof (cases "waiting st")
    case Nil
    then have "mq_empty (p_queue st)" using assms(1) empty_iff by (auto simp: program_inv_def)
    then show ?thesis
      using assms(1) clk(3) Nil
      by (auto intro!: returns_Inr tp_max_on_clock extends_same
          simp: round_post_def program_inv_def is_enabled_def)
  next
    case (Cons n ns)
    then have "\<not> mq_empty (p_queue st)" using assms(1) empty_iff by (auto simp: program_inv_def)
    then show ?thesis using process_message_queue_returns [OF assms Cons] by simp
  qed
  show ?thesis
    unfolding processor_round_def
  proof (rule returns_bind [OF first])
    fix st1 assume st1: "round_post e J fnm kinds st st1"
    then have inv: "internal_inv e kinds (p_internal st1)" "mq_inv e (p_queue st1)"
      "metric_ok e (M_gauge (stats_dump_time (p_dump st1)))" "on_clock (last_message_timestamp st1)"
      by (simp_all add: round_post_def program_inv_def)
    have done_: "round_post e J fnm kinds st (st1\<lparr>p_internal := ist, p_queue := q, p_dump := ds\<rparr>)"
      if "dump_inv e kinds (p_queue st1) (ist, q, ds)"
        and "\<forall>name msgs. history_of e J fnm (p_config st) name msgs st1
          \<longrightarrow> history e J fnm (p_config st) name msgs (metrics ist)" for ist q ds
    proof -
      have "took st (st1\<lparr>p_internal := ist, p_queue := q, p_dump := ds\<rparr>) = took st st1"
        using that by (intro ext took_same) simp_all
      moreover have "extends e J fnm (p_config st) st (map (p_messages st) (take 1 (waiting st)))
          (st1\<lparr>p_internal := ist, p_queue := q, p_dump := ds\<rparr>)"
      proof (rule extends_then)
        show "extends e J fnm (p_config st) st (map (p_messages st) (take 1 (waiting st))) st1"
          using st1 by (simp only: round_post_def)
      qed (use that(2) in simp)
      ultimately show ?thesis
        using st1 that(1) by (auto simp: round_post_def program_inv_def is_enabled_def)
    qed
    have story: "\<forall>name msgs. history_of e J fnm (p_config st) name msgs st1
          \<longrightarrow> history e J fnm (p_config st) name msgs (metrics (fst s))"
      if "update_dump e (cfg_dump_interval (p_config st1)) (round_dump_clock clk) (update_time_now clk)
        (last_message_timestamp st1) (p_internal st1, p_queue st1, p_dump st1) = Inr s" for s
    proof -
      obtain ist q ds where s: "s = (ist, q, ds)" by (cases s)
      show ?thesis using update_dump_history [OF inv(1,4) that [unfolded s]] unfolding s fst_conv by blast
    qed
    show "returns (bind_result (update_dump e (cfg_dump_interval (p_config st1)) (round_dump_clock clk)
          (update_time_now clk) (last_message_timestamp st1) (p_internal st1, p_queue st1, p_dump st1))
        (\<lambda>(ist, q, ds). Inr (st1\<lparr>p_internal := ist, p_queue := q, p_dump := ds\<rparr>)))
      (round_post e J fnm kinds st) never"
      by (rule returns_bind [OF returns_also [OF update_dump_returns [OF inv(1,2,3) clk(1) inv(4) clk(2)] story]],
          assumption)
        (use done_ in \<open>auto intro!: returns_Inr simp del: dump_inv.simps\<close>)
  qed
qed

lemma run_one_round_returns:
  assumes "program_inv e J kinds st" "round_ok clk"
  shows "returns (run_processor e J fnm [clk] st) (round_post e J fnm kinds st) never"
proof -
  have "is_enabled st" using assms(1) by (simp add: program_inv_def)
  then show ?thesis
    by (simp, intro returns_bind [OF processor_round_returns [OF assms]]) (simp add: returns_Inr)
qed

subsection \<open>Whole executions\<close>

text \<open>
  The book-keeping of an execution: of everything that was \<open>sent\<close> the first \<open>k\<close> messages have been
  processed and deleted, after those deleted before it began, and the others wait.
\<close>

definition tracked ::
  "chrono_env \<Rightarrow> 'v rapidjson \<Rightarrow> (string \<Rightarrow> string \<Rightarrow> bool) \<Rightarrow> 'v config_state
     \<Rightarrow> (node_id \<times> freed list) list \<Rightarrow> (node_id \<times> event_message) list \<Rightarrow> nat \<Rightarrow> 'v program
     \<Rightarrow> bool" where
  "tracked e J fnm cfg old sent k st \<longleftrightarrow> k \<le> length sent \<and> p_config st = cfg
     \<and> p_freed st = old @ map deletion (take k sent)
     \<and> waiting st = map fst (drop k sent)
     \<and> (\<forall>(n, m)\<in>set (drop k sent). p_messages st n = m)
     \<and> (\<forall>name. history_of e J fnm cfg name (addressed name (map snd (take k sent))) st)"

lemma tracked_names:
  assumes "tracked e J fnm cfg old sent k st"
  shows "metric_names st = (destination_name \<circ> snd) ` set (take k sent)"
proof -
  have "dom (map_of (metrics (p_internal st))) = destination_name ` set (map snd (take k sent))"
    using assms by (intro history_names [of e J fnm cfg]) (simp add: tracked_def)
  then show ?thesis by (simp only: set_map image_comp)
qed

lemma tracked_send:
  assumes "tracked e J fnm cfg old sent k st" "program_inv e J kinds st" "n \<noteq> Stub" "n \<notin> fst ` set sent"
    and "message_ok kinds m" "length sent + 1 < 2 ^ 64"
  shows "program_inv e J kinds (send n m st)" "tracked e J fnm cfg old (sent @ [(n, m)]) k (send n m st)"
proof -
  have w: "set (waiting st) \<subseteq> fst ` set sent" "length (waiting st) \<le> length sent"
    using assms(1) by (auto simp: tracked_def dest: in_set_dropD)
  have "n \<notin> set (waiting st)" "length (waiting st) + 1 < 2 ^ 64" using w assms(4,6) by auto
  note send = send_inv [OF assms(2,3) this(1) assms(5) this(2)]
  show "program_inv e J kinds (send n m st)" by (rule send(1))
  have other: "x \<noteq> n" if "(x, y) \<in> set (drop k sent)" for x y
    using that assms(4) by (force dest: in_set_dropD)
  show "tracked e J fnm cfg old (sent @ [(n, m)]) k (send n m st)"
    using assms(1) send(2-6) other by (auto simp: tracked_def)
qed

lemma tracked_round:
  assumes "tracked e J fnm cfg old sent k st" "round_post e J fnm kinds st st'"
  shows "tracked e J fnm cfg old sent (if k < length sent then Suc k else k) st'"
proof (cases "k < length sent")
  case True
  then obtain n m where x: "sent ! k = (n, m)" by fastforce
  have drop: "drop k sent = (n, m) # drop (Suc k) sent" using True x by (metis Cons_nth_drop_Suc)
  have take: "take (Suc k) sent = take k sent @ [(n, m)]" using True x by (metis take_Suc_conv_app_nth)
  show ?thesis
    using assms True extendsD [of e J fnm cfg st "[m]" st' _ "map snd (take k sent)"]
    by (auto simp: tracked_def round_post_def drop take simp del: filter_append)
next
  case False
  then show ?thesis
    using assms extendsD [of e J fnm cfg st "[]" st' _ "map snd (take k sent)"]
    by (simp add: tracked_def round_post_def)
qed

lemma exec_returns:
  assumes "program_inv e J kinds st" "tracked e J fnm cfg old sent k st" "\<forall>s\<in>set ss. step_ok e kinds s"
    and "distinct (map fst (sent @ sends e ss))" "length sent + length ss < 2 ^ 64"
  shows "returns (exec e J fnm ss st) (\<lambda>st'. program_inv e J kinds st'
    \<and> (\<exists>k. tracked e J fnm cfg old (sent @ sends e ss) k st')) never"
  using assms
proof (induction ss arbitrary: sent k st)
  case Nil
  then show ?case by (auto intro: returns_Inr)
next
  case (Cons s ss)
  show ?case
  proof (cases s)
    case (Point n p)
    have "is_enabled st" using Cons.prems(1) by (simp add: program_inv_def)
    then have "exec e J fnm (s # ss) st = exec e J fnm ss (send n (point_message e p) st)"
      by (simp add: Point perform_sends)
    moreover have "n \<noteq> Stub" "n \<notin> fst ` set sent" "message_ok kinds (point_message e p)"
      "length sent + 1 < 2 ^ 64"
      using Cons.prems(3-5) by (auto simp: Point)
    note next_ = tracked_send [OF Cons.prems(2,1) this]
    ultimately show ?thesis
      using Cons.IH [OF next_] Cons.prems(3-5) by (simp add: Point)
  next
    case (Round clk)
    have "round_ok clk" using Cons.prems(3) by (simp add: Round)
    note round = run_one_round_returns [OF Cons.prems(1) this, of fnm]
    show ?thesis
      unfolding Round exec.simps
    proof (rule returns_bind [OF round])
      fix st1 assume st1: "round_post e J fnm kinds st st1"
      then have "program_inv e J kinds st1" by (simp add: round_post_def)
      from Cons.IH [OF this tracked_round [OF Cons.prems(2) st1]]
      show "returns (exec e J fnm ss st1) (\<lambda>st'. program_inv e J kinds st'
        \<and> (\<exists>k. tracked e J fnm cfg old (sent @ sends e (Round clk # ss)) k st')) never"
        using Cons.prems(3-5) by (simp add: Round)
    qed
  qed
qed

text \<open>Rounds alone: each takes one message while there is one.\<close>

lemma rounds_return:
  assumes "program_inv e J kinds st" "tracked e J fnm cfg old sent k st" "\<forall>clk\<in>set clks. round_ok clk"
    and "length sent \<le> k + length clks"
  shows "returns (run_processor e J fnm clks st) (\<lambda>st'. program_inv e J kinds st'
    \<and> tracked e J fnm cfg old sent (length sent) st') never"
  using assms
proof (induction clks arbitrary: k st)
  case Nil
  then have "k = length sent" by (simp add: tracked_def)
  then show ?case using Nil by (simp add: returns_Inr)
next
  case (Cons clk clks)
  have en: "is_enabled st" using Cons.prems(1) by (simp add: program_inv_def)
  have "round_ok clk" using Cons.prems(3) by simp
  note round = processor_round_returns [OF Cons.prems(1) this, of fnm]
  show ?case
    unfolding run_processor.simps if_P [OF en]
  proof (rule returns_bind [OF round])
    fix st1 assume st1: "round_post e J fnm kinds st st1"
    then have "program_inv e J kinds st1" by (simp add: round_post_def)
    from Cons.IH [OF this tracked_round [OF Cons.prems(2) st1]]
    show "returns (run_processor e J fnm clks st1) (\<lambda>st'. program_inv e J kinds st'
      \<and> tracked e J fnm cfg old sent (length sent) st') never"
      using Cons.prems(3,4) by (auto split: if_splits)
  qed
qed

subsection \<open>Begin and end\<close>

definition env_ok :: "chrono_env \<Rightarrow> bool" where
  "env_ok e \<longleftrightarrow> good_interval e stat_config_default \<and> one_second_ok e"

lemma reset_enabled: "cfg_core_enable config_reset"
  by (simp add: config_reset_def core_enable_default_def)

text \<open>A program before \<open>initialize\<close>, with options that are in order: at the very beginning, and in
  general, when there may be an empty queue of an \<open>initialize\<close> that found the library disabled.\<close>

definition at_start :: "chrono_env \<Rightarrow> 'v rapidjson \<Rightarrow> 'v program \<Rightarrow> bool" where
  "at_start e J st \<longleftrightarrow> \<not> enabled_flag st \<and> cfg_core_enable (p_config st)
     \<and> globals_ok e (p_config st) \<and> patterns_ok e J (p_config st)
     \<and> event_message_queue (p_queue st) = None \<and> metrics (p_internal st) = [] \<and> p_freed st = []"

definition ready :: "chrono_env \<Rightarrow> 'v rapidjson \<Rightarrow> 'v program \<Rightarrow> bool" where
  "ready e J st \<longleftrightarrow> \<not> enabled_flag st \<and> globals_ok e (p_config st) \<and> patterns_ok e J (p_config st)
     \<and> (event_message_queue (p_queue st) = None \<or> mq_inv e (p_queue st) \<and> waiting st = [])
     \<and> metrics (p_internal st) = []"

lemma at_start_ready: "at_start e J st \<Longrightarrow> ready e J st \<and> cfg_core_enable (p_config st) \<and> p_freed st = []"
  by (simp add: at_start_def ready_def)

lemma dump_time_gauge_ok:
  "one_second_ok e \<Longrightarrow> metric_ok e (M_gauge (stats_dump_time (dump_initialize ds)))"
  by (simp add: dump_initialize_def dump_stats_reset_def gauge_new_ok dump_time_opts_def
      one_second_ok_def one_second_def good_interval_def del: metric_ok.simps)

lemma mq_initialize_again:
  assumes "one_second_ok e" "on_clock now" "event_message_queue st = None \<or> mq_inv e st \<and> mq_contents st = []"
  shows "\<exists>st'. mq_initialize e now st = Inr st' \<and> mq_inv e st' \<and> mq_contents st' = []
    \<and> event_message_queue st' \<noteq> None"
proof (cases "event_message_queue st")
  case None
  then show ?thesis using mq_initialize_inv [OF assms(1,2)] by simp
next
  case (Some q)
  then show ?thesis
    using mq_stats_reset_returns [OF assms(1,2), of st] assms(3)
    by (auto simp: mq_initialize_def returns_def mq_inv_def mq_contents_def split: sum.splits)
qed

lemma core_initialize_returns:
  assumes "env_ok e" "ready e J st" "on_clock now" "on_clock mq_now"
  shows "returns (core_initialize e now mq_now st)
    (\<lambda>st'. if cfg_core_enable (p_config st)
       then program_inv e J kinds st' \<and> tracked e J fnm (p_config st) (p_freed st) [] 0 st'
       else ready e J st' \<and> event_message_queue (p_queue st') \<noteq> None \<and> p_config st' = p_config st
         \<and> p_freed st' = p_freed st) never"
proof -
  have env: "good_interval e stat_config_default" "one_second_ok e"
    using assms(1) by (simp_all add: env_ok_def)
  have off: "\<not> enabled_flag st" "globals_ok e (p_config st)" "patterns_ok e J (p_config st)"
    "event_message_queue (p_queue st) = None \<or> mq_inv e (p_queue st) \<and> waiting st = []"
    "metrics (p_internal st) = []"
    using assms(2) by (simp_all add: ready_def)
  obtain ist where ist: "internal_initialize e now (p_internal st) = Inr ist" "metrics ist = []"
    "internal_inv e kinds ist"
    using returns_ex [OF internal_stats_reset_returns [OF env(1) assms(3), of "p_internal st"]] off(5)
    by (auto simp: internal_initialize_def internal_inv_def entries_ok_def)
  obtain q where q: "mq_initialize e mq_now (p_queue st) = Inr q" "mq_inv e q" "mq_contents q = []"
    "event_message_queue q \<noteq> None"
    using mq_initialize_again [OF env(2) assms(4) off(4)] by blast
  show ?thesis
    unfolding core_initialize_def
    using off(1-3) ist q dump_time_gauge_ok [OF env(2)]
    by (auto simp: Let_def ready_def program_inv_def tracked_def is_enabled_def history_def
        intro!: returns_Inr)
qed

lemma core_start_returns:
  assumes "env_ok e" "at_start e J st" "on_clock now" "on_clock mq_now"
  shows "returns (core_initialize e now mq_now st)
    (\<lambda>st'. program_inv e J kinds st' \<and> tracked e J fnm (p_config st) [] [] 0 st') never"
  using core_initialize_returns [OF assms(1) _ assms(3,4), of J st kinds fnm] at_start_ready [OF assms(2)]
  by simp

lemma whole_run_returns:
  assumes "env_ok e" "at_start e J st" "on_clock now" "on_clock mq_now"
    and "\<forall>s\<in>set ss. step_ok e kinds s" "distinct (map fst (sends e ss))" "length ss < 2 ^ 64"
  shows "returns (bind_result (core_initialize e now mq_now st) (exec e J fnm ss))
    (\<lambda>st'. program_inv e J kinds st' \<and> (\<exists>k. tracked e J fnm (p_config st) [] (sends e ss) k st')) never"
proof (rule returns_bind [OF core_start_returns [OF assms(1-4), of kinds fnm]])
  fix st1 assume "program_inv e J kinds st1 \<and> tracked e J fnm (p_config st) [] [] 0 st1"
  then show "returns (exec e J fnm ss st1)
    (\<lambda>st'. program_inv e J kinds st' \<and> (\<exists>k. tracked e J fnm (p_config st) [] (sends e ss) k st')) never"
    using exec_returns [of e J kinds st1 fnm "p_config st" "[]" "[]" 0 ss] assms(5-7) by simp
qed

text \<open>The same followed by enough rounds.\<close>

abbreviation drained_run ::
  "chrono_env \<Rightarrow> 'v rapidjson \<Rightarrow> (string \<Rightarrow> string \<Rightarrow> bool) \<Rightarrow> time_point \<Rightarrow> time_point
     \<Rightarrow> step list \<Rightarrow> round_clock list \<Rightarrow> 'v program \<Rightarrow> 'v program result" where
  "drained_run e J fnm now mq_now ss clks st \<equiv>
     bind_result (bind_result (core_initialize e now mq_now st) (exec e J fnm ss))
       (run_processor e J fnm clks)"

lemma drained_run_returns:
  assumes "env_ok e" "at_start e J st" "on_clock now" "on_clock mq_now"
    and "\<forall>s\<in>set ss. step_ok e kinds s" "distinct (map fst (sends e ss))" "length ss < 2 ^ 64"
    and "\<forall>clk\<in>set clks. round_ok clk" "length (sends e ss) \<le> length clks"
  obtains st' where "drained_run e J fnm now mq_now ss clks st = Inr st'"
    "program_inv e J kinds st'" "tracked e J fnm (p_config st) [] (sends e ss) (length (sends e ss)) st'"
proof -
  have "returns (drained_run e J fnm now mq_now ss clks st) (\<lambda>st'. program_inv e J kinds st'
      \<and> tracked e J fnm (p_config st) [] (sends e ss) (length (sends e ss)) st') never"
    by (rule returns_bind [OF whole_run_returns [OF assms(1-7)]]) (use rounds_return assms(8,9) in fastforce)
  from returns_ex [OF this] that show ?thesis by blast
qed

text \<open>The state \<open>finalize\<close> leaves behind.\<close>

definition stopped :: "'v program \<Rightarrow> bool" where
  "stopped st \<longleftrightarrow> \<not> is_enabled st \<and> event_message_queue (p_queue st) = None
     \<and> mq_size (p_queue st) = 0 \<and> metrics (p_internal st) = [] \<and> get_dump (p_dump st) = Map.empty \<and> p_config st = config_reset"

lemma core_finalize_returns:
  assumes "env_ok e" "program_inv e J kinds st" "tracked e J fnm cfg old sent k st" "length sent \<le> fuel"
    and "\<forall>i. on_clock (clock i)" "on_clock now" "on_clock mq_now"
  shows "\<exists>st'. core_finalize fuel e clock now mq_now st = Some (Inr st') \<and> stopped st'
    \<and> p_freed st' = old @ map deletion sent"
proof -
  have env: "good_interval e stat_config_default" "one_second_ok e"
    using assms(1) by (simp_all add: env_ok_def)
  obtain ist where ist: "internal_finalize e now (p_internal st) = Inr ist" "metrics ist = []"
    using returns_ex [OF internal_stats_reset_returns [OF env(1) assms(6), of "(p_internal st)\<lparr>metrics := []\<rparr>"]]
    by (auto simp: internal_finalize_def)
  have q: "mq_inv e (p_queue st)" using assms(2) by (simp add: program_inv_def)
  have len: "length (waiting st) \<le> fuel" using assms(3,4) by (simp add: tracked_def)
  obtain q' where q': "mq_finalize fuel e (p_messages st) clock mq_now (p_queue st) = Some (Inr (q',
      map (\<lambda>n. (n, delete_event_message (Some (p_messages st n)))) (waiting st)))"
    "event_message_queue q' = None" "mq_size q' = 0"
    using finalize_frees_all [OF q env(2) assms(5,7) len] by blast
  have "map (\<lambda>n. (n, delete_event_message (Some (p_messages st n)))) (waiting st) = map deletion (drop k sent)"
    using assms(3) by (auto simp: tracked_def)
  then have "p_freed st @ map (\<lambda>n. (n, delete_event_message (Some (p_messages st n)))) (waiting st)
      = old @ map deletion (take k sent @ drop k sent)"
    using assms(3) unfolding tracked_def map_append by simp
  note all = this [unfolded append_take_drop_id]
  show ?thesis
    using ist q' all
    by (simp add: core_finalize_def stopped_def is_enabled_def dump_finalize_def get_dump_def
        config_finalize_def)
qed

subsection \<open>An example\<close>

text \<open>
  A program with the default options before \<open>initialize\<close>, and the readings of a round, for the
  concrete instances of the theorems.
\<close>

definition program_unset :: "example_value program" where
  "program_unset =
     \<lparr>p_config = config_reset, enabled_flag = False, p_queue = mq_unset,
      p_messages = (\<lambda>n. create_increment_event [] 0 (tick_time 0)), p_internal = internal_unset,
      p_dump = \<lparr>stats_dump_time = gauge_new gauge_opts_default, dump_timestamp = tick_time 0,
                dump = Map.empty\<rparr>,
      last_message_timestamp = tick_time 0, p_freed = []\<rparr>"

definition example_round :: round_clock where
  "example_round =
     \<lparr>pop_time = tick_time 1000, process_start_time = tick_time 1000,
      process_end_time = tick_time 1000, idle_time = tick_time 1000,
      update_time_now = tick_time 9000000000,
      round_dump_clock = \<lparr>dump_start_time = tick_time 1000, dump_now = tick_time 1000,
        dump_env = example_env, dump_end_time = tick_time 9000000000\<rparr>\<rparr>"

definition example_steps :: "step list" where
  "example_steps = [Point (Msg 1) (Counter_increment ''c'' 2 (tick_time 5)), Round example_round,
     Point (Msg 2) (Timer_start ''t'' 7 (tick_time 5))]"

abbreviation example_kinds :: "string \<Rightarrow> char_code" where
  "example_kinds \<equiv> \<lambda>n. if n = ''c'' then DEST_COUNTER else DEST_TIMER"

lemma program_unset_ok: "env_ok example_env" "at_start example_env example_json program_unset"
  using example_interval example_second
  by (simp_all add: env_ok_def at_start_def program_unset_def mq_unset_def internal_unset_def
      reset_globals_ok reset_enabled)

lemma example_round_ok: "round_ok example_round"
  using example_clock by (simp add: round_ok_def example_round_def)

lemma example_steps_ok:
  "\<forall>s\<in>set example_steps. step_ok example_env example_kinds s"
  "distinct (map fst (sends example_env example_steps))"
  using example_round_ok example_clock created.intros
  by (simp_all add: example_steps_def message_ok_def create_defs)

end
