(* ===== verification/Timer_Histories.thy ===== *)
theory Timer_Histories
  imports Histories
begin

section \<open>The history of a timer\<close>

text \<open>
  What the messages to a timer make of it, as an account that never collects idle instances: the
  instances that are open and the elapsed times recorded since the last init event. The timer in
  the map keeps up with it, however often it is aged, as long as its messages are in the order of
  their time stamps.
\<close>

type_synonym account = "(instance_id \<rightharpoonup> instance_state) \<times> real list"

fun timed :: "chrono_env \<Rightarrow> duration \<Rightarrow> timer_op \<times> time_point \<Rightarrow> account \<Rightarrow> account" where
  "timed e I (T_start i, t) (opened, vs) =
     (opened(i \<mapsto> \<lparr>start_timestamp = t, heartbeat_timestamp = t\<rparr>), vs)"
| "timed e I (T_stop i, t) (opened, vs) =
     (opened(i := None),
      (case opened i of
         None \<Rightarrow> vs
       | Some s \<Rightarrow>
           if expired e I t s then vs
           else vs @ [real_of_int (sint (m_rep (dur_convert_to e USEC (tp_diff e t (start_timestamp s)))))]))"
| "timed e I (T_heartbeat i, t) (opened, vs) =
     (case opened i of
        None \<Rightarrow> (opened, vs)
      | Some s \<Rightarrow>
          (opened(i := if expired e I t s then None else Some (s\<lparr>heartbeat_timestamp := t\<rparr>)), vs))"
| "timed e I (T_discard i, t) (opened, vs) = (opened(i := None), vs)"
| "timed e I (T_set d, t) (opened, vs) =
     (opened, vs @ [real_of_int (sint (m_rep (dur_convert_to e USEC d)))])"

abbreviation nothing_timed :: account where
  "nothing_timed \<equiv> (Map.empty, [])"

text \<open>An init event begins anew.\<close>

definition clocked :: "chrono_env \<Rightarrow> duration \<Rightarrow> event_message \<Rightarrow> account \<Rightarrow> account" where
  "clocked e I msg x =
     (case event_data msg of
        P_word w \<Rightarrow>
          if event_type msg = timer_INIT then timed e I (T_start w, timestamp msg) nothing_timed
          else if event_type msg = timer_START then timed e I (T_start w, timestamp msg) x
          else if event_type msg = timer_STOP then timed e I (T_stop w, timestamp msg) x
          else if event_type msg = timer_DISCARD then timed e I (T_discard w, timestamp msg) x
          else if event_type msg = timer_HEARTBEAT then timed e I (T_heartbeat w, timestamp msg) x
          else timed e I (T_set (dur w value_unit), timestamp msg) x
      | _ \<Rightarrow> x)"

lemma timed_values: "\<exists>ws. snd (timed e I (op, t) (opened, vs)) = vs @ ws"
  by (cases op) (auto split: option.split)

text \<open>The account against the specification of \<open>Metrics_Laws\<close>: the values are those handed to the
  statistics.\<close>

lemma spec_step_timed:
  assumes "spec_step e I sp (op, t) = Inr sp'"
  shows "\<exists>ws. timed e I (op, t) (sp_open sp, vs) = (sp_open sp', vs @ ws)
    \<and> run_ops e (sp_values sp) (map (\<lambda>v. Op_update v t) ws) = Inr (sp_values sp')"
proof (cases op)
  case (T_start i)
  then show ?thesis using assms by (intro exI [of _ "[]"]) auto
next
  case (T_stop i)
  show ?thesis
  proof (cases "sp_open sp i")
    case None
    then show ?thesis using assms T_stop by (intro exI [of _ "[]"]) (simp add: fun_upd_idem)
  next
    case (Some s)
    show ?thesis
    proof (cases "expired e I t s")
      case True
      then show ?thesis using assms T_stop Some by (intro exI [of _ "[]"]) auto
    next
      case False
      then show ?thesis using assms T_stop Some by (auto simp: bind_result_Inr_iff)
    qed
  qed
next
  case (T_heartbeat i)
  then show ?thesis using assms by (intro exI [of _ "[]"]) (auto split: option.splits)
next
  case (T_discard i)
  then show ?thesis using assms by (intro exI [of _ "[]"]) auto
next
  case (T_set d)
  then show ?thesis using assms by (auto simp: bind_result_Inr_iff)
qed

text \<open>A timer that has kept the account.\<close>

definition timer_of ::
  "chrono_env \<Rightarrow> timer_opts \<Rightarrow> time_point \<Rightarrow> account \<Rightarrow> timer \<Rightarrow> bool" where
  "timer_of e opts t x tm \<longleftrightarrow> t_idle_timeout tm = to_idle_timeout opts
     \<and> instances.collected (e, to_idle_timeout opts, t) (t_instances tm) (fst x)
     \<and> (\<exists>ops. on_clock_ops ops \<and> op_values ops = snd x
          \<and> run_ops e (statistics_new (to_values opts)) ops = Inr (t_values tm))"

lemma timer_of_new: "timer_of e opts t nothing_timed (timer_new opts)"
  by (auto simp: timer_of_def timer_new_def instances.collected_def intro!: exI [of _ "[]"])

lemma op_values_updates: "op_values (map (\<lambda>v. Op_update v t) vs) = vs"
  by (induction vs) simp_all

lemma run_ops_inv:
  assumes "good_interval e sc" "on_clock_ops ops" "run_ops e (statistics_new sc) ops = Inr st"
  shows "stat_inv e st"
  using run_ops_induct [OF statistics_new_inv [OF assms(1)] assms(2) subset_UNIV, of "\<lambda>st. True"] assms(3)
  by auto

lemma timer_of_step:
  assumes "timer_of e opts t x tm" "timer_step e tm (op, t') = Inr tm'" "clock_le t t'"
    and "good_interval e (to_values opts)" "timeout_ok e (to_idle_timeout opts)"
  shows "timer_of e opts t' (timed e (to_idle_timeout opts) (op, t') x) tm'"
proof -
  obtain ops where ops: "on_clock_ops ops" "op_values ops = snd x"
    "run_ops e (statistics_new (to_values opts)) ops = Inr (t_values tm)"
    and I: "t_idle_timeout tm = to_idle_timeout opts"
    using assms(1) by (auto simp: timer_of_def)
  let ?sp = "\<lparr>sp_values = t_values tm, sp_open = fst x\<rparr>"
  have "timer_sim e t tm ?sp"
    using assms(1,5) run_ops_inv [OF assms(4) ops(1,3)] by (simp add: timer_sim_def timer_of_def)
  from timer_step_sim [OF this assms(3), of op] obtain sp' where
    sp': "spec_step e (to_idle_timeout opts) ?sp (op, t') = Inr sp'" "timer_sim e t' tm' sp'"
      "t_idle_timeout tm' = to_idle_timeout opts"
    using assms(2) I by auto
  from spec_step_timed [OF sp'(1), of "snd x"] obtain ws where
    ws: "timed e (to_idle_timeout opts) (op, t') x = (sp_open sp', snd x @ ws)"
      "run_ops e (t_values tm) (map (\<lambda>v. Op_update v t') ws) = Inr (sp_values sp')"
    by auto
  have "on_clock t'" using assms(3) by (simp add: clock_le_def)
  then have "on_clock_ops (ops @ map (\<lambda>v. Op_update v t') ws)"
    using ops(1) by (auto simp: on_clock_ops_def)
  moreover have "op_values (ops @ map (\<lambda>v. Op_update v t') ws) = snd x @ ws"
    using ops(2) by (simp add: op_values_updates)
  moreover have "run_ops e (statistics_new (to_values opts)) (ops @ map (\<lambda>v. Op_update v t') ws)
      = Inr (t_values tm')"
    using ops(3) ws(2) sp'(2) by (simp add: run_ops_append timer_sim_def)
  ultimately show ?thesis
    using sp'(2,3) ws(1) unfolding timer_of_def timer_sim_def by auto
qed

lemma timer_of_aged:
  assumes "timer_of e opts t x tm" "on_clock t'"
  shows "timer_of e opts t x (timer_update_statistics e tm t')"
proof -
  obtain ops where "on_clock_ops ops" "op_values ops = snd x"
    "run_ops e (statistics_new (to_values opts)) ops = Inr (t_values tm)"
    using assms(1) by (auto simp: timer_of_def)
  then show ?thesis
    using assms
    by (auto simp: timer_of_def timer_update_statistics_def run_ops_append on_clock_ops_def
        intro!: exI [of _ "ops @ [Op_time t']"])
qed

lemma process_timer_event_clocks:
  assumes "process_timer_event e opts tm msg = Inr tm'" "timer_of e opts t x tm"
    and "created msg" "destination_type msg = DEST_TIMER" "clock_le t (timestamp msg)"
    and "good_interval e (to_values opts)" "timeout_ok e (to_idle_timeout opts)"
  shows "timer_of e opts (timestamp msg) (clocked e (to_idle_timeout opts) msg x) tm'"
proof -
  note step = timer_of_step [OF assms(2) _ assms(5-7)] and new = timer_of_step [OF timer_of_new _ assms(5-7)]
  show ?thesis
    using assms(3)
  proof cases
    case (6 n i t')
    then have "timer_step e (timer_new opts) (T_start i, t') = Inr tm'"
      using assms(1) by (simp add: process_timer_defs create_defs codes)
    from new [of "T_start i"] this show ?thesis using 6 by (simp add: clocked_def create_defs codes)
  qed (use assms(1,4) step in \<open>simp_all add: process_timer_defs create_defs codes clocked_def\<close>)
qed

text \<open>The messages of a timer, in the order of their time stamps.\<close>

lemma timer_relives:
  assumes "relive e cfg hs (M_timer tm) = Inr m" "timer_of e (cfg_timer cfg) t x tm"
    and "\<forall>msg\<in>set (messages_in hs). created msg \<and> destination_type msg = DEST_TIMER"
    and "clock_sorted (t # map timestamp (messages_in hs))" "ages_on_clock hs"
    and "good_interval e (to_values (cfg_timer cfg))" "timeout_ok e (to_idle_timeout (cfg_timer cfg))"
  shows "\<exists>tm'. m = M_timer tm' \<and> timer_of e (cfg_timer cfg) (last (t # map timestamp (messages_in hs)))
    (fold (clocked e (to_idle_timeout (cfg_timer cfg))) (messages_in hs) x) tm'"
  using assms(1-5)
proof (induction hs arbitrary: tm t x rule: messages_in.induct)
  case (2 msg hs)
  then obtain tm1 where tm1: "process_timer_event e (cfg_timer cfg) tm msg = Inr tm1"
    "relive e cfg hs (M_timer tm1) = Inr m"
    by (auto simp: bind_result_Inr_iff)
  have le: "clock_le t (timestamp msg)" "clock_sorted (timestamp msg # map timestamp (messages_in hs))"
    using "2.prems"(4) by (auto simp: clock_sorted_def clock_le_def)
  have "timer_of e (cfg_timer cfg) (timestamp msg) (clocked e (to_idle_timeout (cfg_timer cfg)) msg x) tm1"
    using process_timer_event_clocks [OF tm1(1) "2.prems"(2) _ _ le(1) assms(6,7)] "2.prems"(3) by simp
  from "2.IH" [OF tm1(2) this _ le(2)] show ?case using "2.prems"(3,5) by simp
next
  case (3 t' hs)
  then show ?case using "3.IH" [OF _ timer_of_aged [OF "3.prems"(2)]] by simp
qed auto

lemma lived_timer:
  assumes "lived e J fnm cfg msgs m" "select_pattern fnm (pattern_opts cfg) (destination_name (hd msgs)) = None"
    and "\<forall>msg\<in>set msgs. created msg \<and> destination_type msg = DEST_TIMER"
    and "clock_sorted (map timestamp msgs)"
    and "good_interval e (to_values (cfg_timer cfg))" "timeout_ok e (to_idle_timeout (cfg_timer cfg))"
  shows "\<exists>tm. m = M_timer tm \<and> timer_of e (cfg_timer cfg) (last (map timestamp msgs))
    (fold (clocked e (to_idle_timeout (cfg_timer cfg))) msgs nothing_timed) tm"
proof -
  obtain hs m0 where h: "messages_in hs = msgs" "msgs \<noteq> []" "ages_on_clock hs"
    "newborn J fnm cfg (hd msgs) = Inr (Some m0)" "relive e cfg hs m0 = Inr m"
    using assms(1) by (auto simp: lived_def)
  have "destination_type (hd msgs) = DEST_TIMER" using assms(3) h(2) by simp
  then have m0: "m0 = M_timer (timer_new (cfg_timer cfg))"
    using h(4) assms(2) by (auto simp: newborn_def make_metric_def bind_result_Inr_iff codes)
  have sorted: "clock_sorted (timestamp (hd msgs) # map timestamp msgs)"
    using assms(4) h(2) by (cases msgs) (auto simp: clock_sorted_def)
  show ?thesis
    using timer_relives [OF h(5) [unfolded m0] timer_of_new, of "timestamp (hd msgs)"] h(1-3) assms(3,5,6)
      sorted by simp
qed

text \<open>What such a timer reports, and which of its instances are alive.\<close>

lemma timer_of_aggregates:
  assumes "good_interval e (to_values opts)" "timer_of e opts t x tm"
    and "\<forall>u\<in>{Tag_count, Tag_sum, Tag_min, Tag_max, Tag_value}.
      stat_computed (statistics_new (to_values opts)) u"
  shows "stat_count (t_values tm) = Inr (of_nat (length (snd x)))
    \<and> stat_sum (t_values tm) = Inr (sum_list (snd x))
    \<and> stat_min (t_values tm) = Inr (foldl min double_max (snd x))
    \<and> stat_max (t_values tm) = Inr (foldl max double_min (snd x))
    \<and> stat_value (t_values tm) = Inr (last (0 # snd x))"
proof -
  obtain ops where ops: "on_clock_ops ops" "op_values ops = snd x"
    "run_ops e (statistics_new (to_values opts)) ops = Inr (t_values tm)"
    using assms(2) by (auto simp: timer_of_def)
  then show ?thesis using run_ops_aggregates [OF assms(1) ops(1) assms(3)] by auto
qed

lemma timer_of_alive:
  assumes "timer_of e opts t x tm" "clock_le t t'" "timeout_ok e (to_idle_timeout opts)"
  shows "erase_expired e (to_idle_timeout opts) t' (t_instances tm)
    = erase_expired e (to_idle_timeout opts) t' (fst x)"
proof -
  have "instances.collected (e, to_idle_timeout opts, t') (t_instances tm) (fst x)"
    by (rule instances.collected_later [where t = "(e, to_idle_timeout opts, t)"])
      (use assms in \<open>simp_all add: timer_of_def\<close>)
  then show ?thesis unfolding erase_expired_sweep by (rule instances.sweep_same)
qed

end
