(* ===== verification/Delivery.thy ===== *)
theory Delivery
  imports Core_Laws Timer_Histories
begin

section \<open>What the metrics make of the measuring points\<close>

text \<open>
  The end-to-end contract of the library, from the calls of the program to the metrics: after any
  interleaving of measuring points and rounds of the processor thread, and enough rounds to drain
  the queue, each metric has lived through exactly the messages sent to its name, in their order.
  So a counter holds the total of all changes, a gauge the aggregates of all values and an
  attribute the last value, wherever the dumps and the ageing of the metrics fell in between.
\<close>

subsection \<open>Measuring points by name\<close>

text \<open>The count of a counter after a step, and the values of a gauge since its last init event.\<close>

fun count_after :: "string \<Rightarrow> step \<Rightarrow> int64 \<Rightarrow> int64" where
  "count_after c (Point n (Counter_init c' v t)) x = (if c' = c then v else x)"
| "count_after c (Point n (Counter_increment c' v t)) x = (if c' = c then x + v else x)"
| "count_after c (Point n (Counter_decrement c' v t)) x = (if c' = c then x - v else x)"
| "count_after c (Point n (Counter_change c' v t)) x = (if c' = c then x + v else x)"
| "count_after c s x = x"

fun values_after :: "string \<Rightarrow> step \<Rightarrow> real list \<Rightarrow> real list" where
  "values_after g (Point n (Gauge_init g' v t)) vs = (if g' = g then [v] else vs)"
| "values_after g (Point n (Gauge_set g' v t)) vs = (if g' = g then vs @ [v] else vs)"
| "values_after g s vs = vs"

fun attribute_after :: "string \<Rightarrow> step \<Rightarrow> attribute_value \<Rightarrow> attribute_value" where
  "attribute_after a (Point n (Attribute_set a' v t)) x = (if a' = a then v else x)"
| "attribute_after a s x = x"

text \<open>The account of a timer whose messages are in order, with the idle timeout \<open>I\<close>.\<close>

fun account_after :: "chrono_env \<Rightarrow> duration \<Rightarrow> string \<Rightarrow> step \<Rightarrow> account \<Rightarrow> account" where
  "account_after e I m (Point n (Timer_init m' i t)) x =
     (if m' = m then timed e I (T_start i, t) nothing_timed else x)"
| "account_after e I m (Point n (Timer_start m' i t)) x = (if m' = m then timed e I (T_start i, t) x else x)"
| "account_after e I m (Point n (Timer_stop m' i t)) x = (if m' = m then timed e I (T_stop i, t) x else x)"
| "account_after e I m (Point n (Timer_discard m' i t)) x = (if m' = m then timed e I (T_discard i, t) x else x)"
| "account_after e I m (Point n (Timer_heartbeat m' i t)) x =
     (if m' = m then timed e I (T_heartbeat i, t) x else x)"
| "account_after e I m (Point n (Timer_set m' d t)) x = (if m' = m then timed e I (T_set d, t) x else x)"
| "account_after e I m s x = x"

text \<open>The messages sent to a name.\<close>

abbreviation sent_to :: "chrono_env \<Rightarrow> string \<Rightarrow> step list \<Rightarrow> event_message list" where
  "sent_to e n ss \<equiv> addressed n (map snd (sends e ss))"

lemma sends_Cons: "sends e (s # ss) = sends e [s] @ sends e ss"
  by (cases s) simp_all

lemma fold_sent_to:
  assumes "\<And>s x. s \<in> set ss \<Longrightarrow> fold f (sent_to e n [s]) x = g s x"
  shows "fold f (sent_to e n ss) x = fold g ss x"
  using assms
proof (induction ss arbitrary: x)
  case (Cons s ss)
  have "fold f (sent_to e n (s # ss)) x = fold f (sent_to e n ss) (fold f (sent_to e n [s]) x)"
    by (simp only: sends_Cons [of e s ss] map_append filter_append fold_append comp_apply)
  then show ?case using Cons by simp
qed simp

lemma kind_of_point:
  "step_ok e kinds (Point n p) \<Longrightarrow>
     destination_type (point_message e p) = kinds (destination_name (point_message e p))"
  by (simp add: message_ok_def)

lemma counted_point:
  assumes "step_ok e kinds s" "kinds c = DEST_COUNTER"
  shows "fold counted (sent_to e c [s]) x = count_after c s x"
proof (cases s)
  case (Point n p)
  then show ?thesis
    using kind_of_point [of e kinds n p] assms
    by (cases p) (auto simp: create_defs codes counted_def)
qed simp

lemma seen_point:
  assumes "step_ok e kinds s" "kinds g = DEST_GAUGE"
  shows "fold seen (sent_to e g [s]) vs = values_after g s vs"
proof (cases s)
  case (Point n p)
  then show ?thesis
    using kind_of_point [of e kinds n p] assms
    by (cases p) (auto simp: create_defs codes seen_def)
qed simp

lemma told_point:
  assumes "step_ok e kinds s" "kinds a = DEST_ATTRIBUTE"
  shows "fold told (sent_to e a [s]) x = attribute_after a s x"
proof (cases s)
  case (Point n p)
  then show ?thesis
    using kind_of_point [of e kinds n p] assms
    by (cases p) (auto simp: create_defs codes told_def)
qed simp

lemma clocked_point:
  assumes "step_ok e kinds s" "kinds m = DEST_TIMER"
  shows "fold (clocked e I) (sent_to e m [s]) x = account_after e I m s x"
proof (cases s)
  case (Point n p)
  then show ?thesis
    using kind_of_point [of e kinds n p] assms
    by (cases p; cases x) (auto simp: create_defs codes clocked_def value_unit_def dur_convert_to_def)
qed simp

lemma sent_message_ok:
  assumes "\<forall>s\<in>set ss. step_ok e kinds s" "msg \<in> set (sent_to e n ss)"
  shows "created msg \<and> destination_type msg = kinds n \<and> on_clock (timestamp msg)"
  using assms
proof (induction ss)
  case (Cons s ss)
  then show ?case by (cases s) (auto simp: message_ok_def split: if_splits)
qed simp

lemma tracked_metric:
  assumes "tracked e J fnm cfg [] (sends e ss) (length (sends e ss)) st" "sent_to e n ss \<noteq> []"
  obtains m where "map_of (metrics (p_internal st)) n = Some (Some m)"
    "lived e J fnm cfg (sent_to e n ss) m"
proof -
  have "history e J fnm cfg n (sent_to e n ss) (metrics (p_internal st))"
    using assms(1) by (simp add: tracked_def)
  then show ?thesis using assms(2) that by (auto simp: history_def split: option.splits)
qed

subsection \<open>Properties\<close>

text \<open>C3: As many rounds of the processor thread as messages were sent process and delete all of them,
  in order, and leave the queue empty. The metrics are then those of a program that handles its
  messages one name at a time: under each name that was used stands the metric made for the first
  message to it, with the options of the first matching pattern, that went through all messages to
  that name in the order of sending, with nothing in between but the passing of time; other names
  have none.\<close>

theorem metrics_relive_their_messages:
  assumes "env_ok e" "at_start e J st" "on_clock now" "on_clock mq_now"
    and "\<forall>s\<in>set ss. step_ok e kinds s" "distinct (map fst (sends e ss))" "length ss < 2 ^ 64"
    and "\<forall>clk\<in>set clks. round_ok clk" "length (sends e ss) \<le> length clks"
  shows "\<exists>st'. drained_run e J fnm now mq_now ss clks st = Inr st'
    \<and> mq_empty (p_queue st') \<and> mq_contents (p_queue st') = []
    \<and> p_freed st' = map (\<lambda>(n, m). (n, delete_event_message (Some m))) (sends e ss)
    \<and> (\<forall>name. let msgs = filter (\<lambda>msg. destination_name msg = name) (map snd (sends e ss)) in
        case map_of (metrics (p_internal st')) name of
          None \<Rightarrow> msgs = []
        | Some x \<Rightarrow> \<exists>m0 hs m. x = Some m \<and> msgs \<noteq> []
            \<and> newborn J fnm (p_config st) (hd msgs) = Inr (Some m0)
            \<and> messages_in hs = msgs \<and> relive e (p_config st) hs m0 = Inr m)"
proof -
  obtain st' where st': "drained_run e J fnm now mq_now ss clks st = Inr st'"
    "program_inv e J kinds st'" "tracked e J fnm (p_config st) [] (sends e ss) (length (sends e ss)) st'"
    by (rule drained_run_returns [OF assms])
  then have "mq_empty (p_queue st')" using empty_iff [of e] by (auto simp: program_inv_def tracked_def)
  moreover have "history e J fnm (p_config st) name (sent_to e name ss) (metrics (p_internal st'))" for name
    using st'(3) by (simp add: tracked_def)
  ultimately show ?thesis
    using st'(1,3) unfolding history_def lived_def Let_def
    by (intro exI [of _ st'] conjI allI)
      (fastforce simp: tracked_def case_prod_beta comp_def split: option.splits)+
qed

theorem metrics_relive_their_messages_witness:
  "\<exists>st' m. drained_run example_env example_json (=) (tick_time 5) (tick_time 5) example_steps
      [example_round, example_round] program_unset = Inr st'
    \<and> map_of (metrics (p_internal st')) ''c'' = Some (Some m)
    \<and> map_of (metrics (p_internal st')) ''x'' = None"
proof -
  have c: "sent_to example_env ''c'' example_steps \<noteq> []" "sent_to example_env ''x'' example_steps = []"
    by (simp_all add: example_steps_def create_defs)
  obtain st' where st': "drained_run example_env example_json (=) (tick_time 5) (tick_time 5) example_steps
      [example_round, example_round] program_unset = Inr st'"
    and all: "\<And>name. let msgs = sent_to example_env name example_steps in
        case map_of (metrics (p_internal st')) name of
          None \<Rightarrow> msgs = []
        | Some x \<Rightarrow> \<exists>m0 hs m. x = Some m \<and> msgs \<noteq> []
            \<and> newborn example_json (=) (p_config program_unset) (hd msgs) = Inr (Some m0)
            \<and> messages_in hs = msgs \<and> relive example_env (p_config program_unset) hs m0 = Inr m"
    using metrics_relive_their_messages [OF program_unset_ok example_clock(2,2) example_steps_ok,
      of "[example_round, example_round]" "(=)"] example_round_ok
    by (fastforce simp: example_steps_def)
  show ?thesis using st' all [of "''c''"] all [of "''x''"] c by (auto simp: Let_def split: option.splits)
qed

text \<open>C12: No change of a counter is lost or counted twice: once the queue is drained, the value of a
  counter is the last init value, or 0, plus the sum of the changes sent since, modulo \<open>2 ^ 64\<close>, as
  long as the clock is past zero.\<close>

theorem counters_count_every_change:
  assumes "env_ok e" "at_start e J st" "on_clock now" "on_clock mq_now"
    and "\<forall>s\<in>set ss. step_ok e kinds s" "distinct (map fst (sends e ss))" "length ss < 2 ^ 64"
    and "\<forall>clk\<in>set clks. round_ok clk" "length (sends e ss) \<le> length clks"
    and "kinds c = DEST_COUNTER" "c \<in> (\<lambda>(n, m). destination_name m) ` set (sends e ss)"
    and "\<forall>(n, m)\<in>set (sends e ss). 0 < tick_pos (timestamp m)"
  shows "\<exists>st' ct. drained_run e J fnm now mq_now ss clks st = Inr st'
    \<and> map_of (metrics (p_internal st')) c = Some (Some (M_counter ct))
    \<and> c_value ct = fold (count_after c) ss 0"
proof -
  obtain st' where st': "drained_run e J fnm now mq_now ss clks st = Inr st'"
    "tracked e J fnm (p_config st) [] (sends e ss) (length (sends e ss)) st'"
    by (rule drained_run_returns [OF assms(1-9)])
  have "sent_to e c ss \<noteq> []" using assms(11) by (force simp: filter_empty_conv)
  from tracked_metric [OF st'(2) this] obtain m where m: "map_of (metrics (p_internal st')) c = Some (Some m)"
    "lived e J fnm (p_config st) (sent_to e c ss) m" .
  have "\<forall>msg\<in>set (sent_to e c ss). created msg \<and> destination_type msg = DEST_COUNTER
      \<and> on_clock (timestamp msg) \<and> 0 < tick_pos (timestamp msg)"
  proof
    fix msg assume msg: "msg \<in> set (sent_to e c ss)"
    then have "0 < tick_pos (timestamp msg)" using assms(12) by auto
    then show "created msg \<and> destination_type msg = DEST_COUNTER \<and> on_clock (timestamp msg)
        \<and> 0 < tick_pos (timestamp msg)"
      using sent_message_ok [OF assms(5) msg] assms(10) by simp
  qed
  from lived_counter [OF m(2) this] obtain ct where
    ct: "m = M_counter ct" "c_value ct = fold counted (sent_to e c ss) 0" by blast
  have "fold counted (sent_to e c ss) 0 = fold (count_after c) ss 0"
    by (rule fold_sent_to) (use counted_point assms(5,10) in blast)
  then show ?thesis using st'(1) m(1) ct by auto
qed

theorem counters_count_every_change_witness:
  "\<exists>st' ct. drained_run example_env example_json (=) (tick_time 5) (tick_time 5) example_steps
      [example_round, example_round] program_unset = Inr st'
    \<and> map_of (metrics (p_internal st')) ''c'' = Some (Some (M_counter ct)) \<and> c_value ct = 2"
  using counters_count_every_change [OF program_unset_ok example_clock(2,2) example_steps_ok,
      of "[example_round, example_round]" "''c''" "(=)"] example_round_ok
  by (simp add: example_steps_def create_defs tick_pos_def)

text \<open>C19: Once the queue is drained, a gauge whose name no pattern matches and whose options compute the
  five tags reports of the values set since its last init event the number, the sum, the least of
  them and of the largest finite double, the greatest of them and of \<open>double_min\<close>, the smallest
  positive normal double (so not the greatest value when none is as large), and the last, in whatever
  way rounds, dumps and the measuring points of other names were interleaved with them. Every name is
  measured with one kind of metric, and the options of the program are usable.\<close>

theorem gauges_report_every_value:
  assumes "env_ok e" "at_start e J st" "on_clock now" "on_clock mq_now"
    and "\<forall>s\<in>set ss. step_ok e kinds s" "distinct (map fst (sends e ss))" "length ss < 2 ^ 64"
    and "\<forall>clk\<in>set clks. round_ok clk" "length (sends e ss) \<le> length clks"
    and "kinds g = DEST_GAUGE" "g \<in> (\<lambda>(n, m). destination_name m) ` set (sends e ss)"
    and "select_pattern fnm (pattern_opts (p_config st)) g = None"
    and "\<forall>t\<in>{Tag_count, Tag_sum, Tag_min, Tag_max, Tag_value}.
      stat_computed (statistics_new (go_values (cfg_gauge (p_config st)))) t"
  shows "\<exists>st' gm. drained_run e J fnm now mq_now ss clks st = Inr st'
    \<and> map_of (metrics (p_internal st')) g = Some (Some (M_gauge gm))
    \<and> (let vs = fold (values_after g) ss [] in
        stat_count (g_values gm) = Inr (of_nat (length vs))
      \<and> stat_sum (g_values gm) = Inr (sum_list vs)
      \<and> stat_min (g_values gm) = Inr (foldl min double_max vs)
      \<and> stat_max (g_values gm) = Inr (foldl max double_min vs)
      \<and> stat_value (g_values gm) = Inr (last (0 # vs)))"
proof -
  obtain st' where st': "drained_run e J fnm now mq_now ss clks st = Inr st'"
    "tracked e J fnm (p_config st) [] (sends e ss) (length (sends e ss)) st'"
    by (rule drained_run_returns [OF assms(1-9)])
  have ne: "sent_to e g ss \<noteq> []" using assms(11) by (force simp: filter_empty_conv)
  from tracked_metric [OF st'(2) this] obtain m where m: "map_of (metrics (p_internal st')) g = Some (Some m)"
    "lived e J fnm (p_config st) (sent_to e g ss) m" .
  have ok: "\<forall>msg\<in>set (sent_to e g ss). created msg \<and> destination_type msg = DEST_GAUGE
      \<and> on_clock (timestamp msg)"
  proof
    fix msg assume "msg \<in> set (sent_to e g ss)"
    from sent_message_ok [OF assms(5) this]
    show "created msg \<and> destination_type msg = DEST_GAUGE \<and> on_clock (timestamp msg)"
      using assms(10) by simp
  qed
  have "destination_name (hd (sent_to e g ss)) = g" using hd_in_set [OF ne] by simp
  then have "select_pattern fnm (pattern_opts (p_config st)) (destination_name (hd (sent_to e g ss))) = None"
    using assms(12) by simp
  from lived_gauge [OF m(2) this ok] obtain gm where gm: "m = M_gauge gm"
    "gauge_of e (go_values (cfg_gauge (p_config st))) (fold seen (sent_to e g ss) []) gm" by blast
  have "fold seen (sent_to e g ss) [] = fold (values_after g) ss []"
    by (rule fold_sent_to) (use seen_point assms(5,10) in blast)
  then have "gauge_of e (go_values (cfg_gauge (p_config st))) (fold (values_after g) ss []) gm"
    using gm(2) by simp
  note aggregates = gauge_of_aggregates [OF _ this assms(13)]
  have "good_interval e (go_values (cfg_gauge (p_config st)))"
    using assms(2) by (simp add: at_start_def globals_ok_def)
  then show ?thesis
    using st'(1) m(1) gm(1) aggregates by (auto simp: Let_def)
qed

definition gauge_steps :: "step list" where
  "gauge_steps = [Point (Msg 1) (Gauge_set ''g'' 4 (tick_time 5)), Round example_round,
     Point (Msg 2) (Gauge_init ''g'' 3 (tick_time 5)), Point (Msg 3) (Gauge_set ''g'' 6 (tick_time 5))]"

theorem gauges_report_every_value_witness:
  "\<exists>st' gm. drained_run example_env example_json (=) (tick_time 5) (tick_time 5) gauge_steps
      [example_round, example_round, example_round] program_unset = Inr st'
    \<and> map_of (metrics (p_internal st')) ''g'' = Some (Some (M_gauge gm))
    \<and> stat_count (g_values gm) = Inr 2 \<and> stat_sum (g_values gm) = Inr 9
    \<and> stat_value (g_values gm) = Inr 6"
proof -
  have ok: "\<forall>s\<in>set gauge_steps. step_ok example_env (\<lambda>n. DEST_GAUGE) s"
    "distinct (map fst (sends example_env gauge_steps))"
    using example_round_ok example_clock created.intros
    by (simp_all add: gauge_steps_def message_ok_def create_defs)
  have run: "length gauge_steps < 2 ^ 64" "length (sends example_env gauge_steps) \<le> 3"
    "''g'' \<in> (\<lambda>(n, m). destination_name m) ` set (sends example_env gauge_steps)"
    "fold (values_after ''g'') gauge_steps [] = [3, 6]"
    by (simp_all add: gauge_steps_def create_defs)
  have opts: "select_pattern (=) (pattern_opts (p_config program_unset)) ''g'' = None"
    "\<forall>t\<in>{Tag_count, Tag_sum, Tag_min, Tag_max, Tag_value}.
      stat_computed (statistics_new (go_values (cfg_gauge (p_config program_unset)))) t"
    by (simp_all add: program_unset_def config_reset_def gauge_opts_default_def default_computes)
  show ?thesis
    using gauges_report_every_value [OF program_unset_ok example_clock(2,2) ok run(1) _ _ _ run(3) opts,
        of "[example_round, example_round, example_round]"] example_round_ok run(2,4)
    by (auto simp: Let_def)
qed

text \<open>C13: Once the queue is drained, a timer whose messages were sent in the order of their time
  stamps, whose name no pattern matches, whose options compute the five tags and whose idle timeout
  is not negative and below \<open>2 ^ 62\<close> ticks reports the number, the sum, the least (of them and of the largest finite double),
  the greatest (of them and of \<open>double_min\<close>, the smallest positive normal double, so not the greatest
  when all are zero or negative) and the last of the elapsed times of the instances that were stopped
  in time, and of the times set, since its last init event; and the instances it holds are those
  started and neither stopped nor discarded, but for expired ones. Every name is measured with one
  kind of metric, and the options of the program are usable.
  Rounds, dumps, other metrics and the moments at which idle instances are collected do not matter.\<close>

theorem timers_report_every_measurement:
  assumes "env_ok e" "at_start e J st" "on_clock now" "on_clock mq_now"
    and "\<forall>s\<in>set ss. step_ok e kinds s" "distinct (map fst (sends e ss))" "length ss < 2 ^ 64"
    and "\<forall>clk\<in>set clks. round_ok clk" "length (sends e ss) \<le> length clks"
    and "kinds m = DEST_TIMER" "m \<in> (\<lambda>(n, m). destination_name m) ` set (sends e ss)"
    and "select_pattern fnm (pattern_opts (p_config st)) m = None"
    and "\<forall>t\<in>{Tag_count, Tag_sum, Tag_min, Tag_max, Tag_value}.
      stat_computed (statistics_new (to_values (cfg_timer (p_config st)))) t"
    and "timeout_ok e (to_idle_timeout (cfg_timer (p_config st)))"
    and "clock_sorted (map timestamp (sent_to e m ss))"
  shows "\<exists>st' tm. drained_run e J fnm now mq_now ss clks st = Inr st'
    \<and> map_of (metrics (p_internal st')) m = Some (Some (M_timer tm))
    \<and> (let I = to_idle_timeout (cfg_timer (p_config st));
           (opened, vs) = fold (account_after e I m) ss nothing_timed in
        stat_count (t_values tm) = Inr (of_nat (length vs))
      \<and> stat_sum (t_values tm) = Inr (sum_list vs)
      \<and> stat_min (t_values tm) = Inr (foldl min double_max vs)
      \<and> stat_max (t_values tm) = Inr (foldl max double_min vs)
      \<and> stat_value (t_values tm) = Inr (last (0 # vs))
      \<and> (\<forall>t. clock_le (last (map timestamp (sent_to e m ss))) t \<longrightarrow>
           erase_expired e I t (t_instances tm) = erase_expired e I t opened))"
proof -
  let ?opts = "cfg_timer (p_config st)"
  let ?I = "to_idle_timeout ?opts"
  obtain st' where st': "drained_run e J fnm now mq_now ss clks st = Inr st'"
    "tracked e J fnm (p_config st) [] (sends e ss) (length (sends e ss)) st'"
    by (rule drained_run_returns [OF assms(1-9)])
  have ne: "sent_to e m ss \<noteq> []" using assms(11) by (force simp: filter_empty_conv)
  from tracked_metric [OF st'(2) this] obtain x where x: "map_of (metrics (p_internal st')) m = Some (Some x)"
    "lived e J fnm (p_config st) (sent_to e m ss) x" .
  have ok: "\<forall>msg\<in>set (sent_to e m ss). created msg \<and> destination_type msg = DEST_TIMER"
  proof
    fix msg assume "msg \<in> set (sent_to e m ss)"
    from sent_message_ok [OF assms(5) this]
    show "created msg \<and> destination_type msg = DEST_TIMER" using assms(10) by simp
  qed
  have "destination_name (hd (sent_to e m ss)) = m" using hd_in_set [OF ne] by simp
  then have sel: "select_pattern fnm (pattern_opts (p_config st)) (destination_name (hd (sent_to e m ss))) = None"
    using assms(12) by simp
  have good: "good_interval e (to_values ?opts)" using assms(2) by (simp add: at_start_def globals_ok_def)
  from lived_timer [OF x(2) sel ok assms(15) good assms(14)] obtain tm where tm: "x = M_timer tm"
    "timer_of e ?opts (last (map timestamp (sent_to e m ss)))
       (fold (clocked e ?I) (sent_to e m ss) nothing_timed) tm" by blast
  have "fold (clocked e ?I) (sent_to e m ss) nothing_timed = fold (account_after e ?I m) ss nothing_timed"
    by (rule fold_sent_to) (use clocked_point assms(5,10) in blast)
  then have acc: "timer_of e ?opts (last (map timestamp (sent_to e m ss)))
       (fold (account_after e ?I m) ss nothing_timed) tm" using tm(2) by simp
  obtain opened vs where v: "fold (account_after e ?I m) ss nothing_timed = (opened, vs)" by force
  show ?thesis
    using st'(1) x(1) tm(1) timer_of_aggregates [OF good acc assms(13)] timer_of_alive [OF acc _ assms(14)]
    unfolding v Let_def by (intro exI [of _ st'] exI [of _ tm]) simp
qed

definition timer_steps :: "step list" where
  "timer_steps = [Point (Msg 1) (Timer_start ''t'' 8 (tick_time 5)), Round example_round,
     Point (Msg 2) (Timer_start ''t'' 7 (tick_time 1000)),
     Point (Msg 3) (Timer_stop ''t'' 7 (tick_time 9000000000))]"

theorem timers_report_every_measurement_witness:
  "\<exists>st' tm. drained_run example_env example_json (=) (tick_time 5) (tick_time 5) timer_steps
      [example_round, example_round, example_round] program_unset = Inr st'
    \<and> map_of (metrics (p_internal st')) ''t'' = Some (Some (M_timer tm))
    \<and> stat_count (t_values tm) = Inr 1 \<and> stat_value (t_values tm) = Inr 4499999"
proof -
  have ok: "\<forall>s\<in>set timer_steps. step_ok example_env (\<lambda>n. DEST_TIMER) s"
    "distinct (map fst (sends example_env timer_steps))"
    using example_round_ok example_clock created.intros
    by (simp_all add: timer_steps_def message_ok_def create_defs)
  have run: "length timer_steps < 2 ^ 64" "length (sends example_env timer_steps) \<le> 3"
    "''t'' \<in> (\<lambda>(n, m). destination_name m) ` set (sends example_env timer_steps)"
    "clock_sorted (map timestamp (sent_to example_env ''t'' timer_steps))"
    by (simp_all add: timer_steps_def create_defs clock_sorted_def example_clock tick_pos_def)
  have opts: "cfg_timer (p_config program_unset) = timer_opts_default"
    "select_pattern (=) (pattern_opts (p_config program_unset)) ''t'' = None"
    "\<forall>t\<in>{Tag_count, Tag_sum, Tag_min, Tag_max, Tag_value}.
      stat_computed (statistics_new (to_values (cfg_timer (p_config program_unset)))) t"
    by (simp_all add: program_unset_def config_reset_def timer_opts_default_def default_computes)
  have vs: "snd (fold (account_after example_env (to_idle_timeout timer_opts_default) ''t'') timer_steps nothing_timed) = [4499999]"
  proof -
    have v: "real_of_int (sint (m_rep (dur_convert_to example_env USEC
        (tp_diff example_env (tick_time 9000000000) (tick_time 1000))))) = 4499999"
      by (simp add: tp_diff_def dur_sub_def dur_convert_to_def real_to_int64_def trunc_def fits64_def)
    have "\<not> expired example_env (to_idle_timeout timer_opts_default) (tick_time 9000000000)
        \<lparr>start_timestamp = tick_time 1000, heartbeat_timestamp = tick_time 1000\<rparr>"
      using expired_iff [OF example_timeout(1)] example_clock
      by (simp add: interval_len_def timer_opts_default_def dur_convert_to_def real_to_int64_def
          trunc_def fits64_def tick_pos_def)
    then show ?thesis by (simp add: timer_steps_def v)
  qed
  then obtain opened where acc: "fold (account_after example_env (to_idle_timeout timer_opts_default) ''t'')
      timer_steps nothing_timed = (opened, [4499999])" by (metis prod.collapse)
  show ?thesis
    using timers_report_every_measurement [OF program_unset_ok example_clock(2,2) ok run(1) _ _ _ run(3) opts(2,3),
        of "[example_round, example_round, example_round]"] example_round_ok run(2,4) example_timeout(1)
    unfolding opts(1) acc Let_def prod.case by auto
qed

end
