(* ===== verification/Json_Dump.thy ===== *)
theory Json_Dump
  imports Metrics_Dump "HOL-Library.Char_ord" "HOL-Library.List_Lexorder"
begin

section \<open>Dumps as JSON\<close>

text \<open>
  The writers of \<open>src/json/\<close> and \<open>src/json_dump.cpp\<close>: which values a metric is written with, under
  which names and in which order. A value stands for the calls that build it in the JSON library
  (one constructor per kind of value that is set, members in the order of the \<open>AddMember\<close> calls);
  printing it is the library's and is an argument of \<open>json_to_string\<close>.
\<close>

datatype json_value =
    J_null
  | J_bool bool
  | J_int int32
  | J_uint "32 word"
  | J_int64 int64
  | J_uint64 uint64
  | J_double real
  | J_string string
  | J_array "json_value list"
  | J_object "(string \<times> json_value) list"

text \<open>\<open>AddMember\<close> appends; the writers only call it on objects.\<close>

fun add_member :: "json_value \<Rightarrow> string \<Rightarrow> json_value \<Rightarrow> json_value" where
  "add_member (J_object ms) key v = J_object (ms @ [(key, v)])"
| "add_member j key v = j"

fun is_object :: "json_value \<Rightarrow> bool" where
  "is_object (J_object ms) \<longleftrightarrow> True"
| "is_object j \<longleftrightarrow> False"

subsection \<open>Statistics\<close>

definition write_timestamp :: "chrono_env \<Rightarrow> chrono_env \<Rightarrow> time_point \<Rightarrow> json_value result" where
  "write_timestamp e te t =
     bind_result (tp_convert_to te SYSTEM t) (\<lambda>system_timestamp.
       Inr (J_uint64 (m_rep (dur_convert_to e MSEC (m_since_epoch system_timestamp)))))"

definition add_result :: "string \<Rightarrow> json_value result \<Rightarrow> json_value \<Rightarrow> json_value result" where
  "add_result key r j = bind_result r (\<lambda>v. Inr (add_member j key v))"

definition add_double :: "string \<Rightarrow> real result \<Rightarrow> json_value \<Rightarrow> json_value result" where
  "add_double key r = add_result key (bind_result r (\<lambda>x. Inr (J_double x)))"

definition histogram_value :: "histogram \<Rightarrow> json_value" where
  "histogram_value h =
     J_array (map (\<lambda>b. J_array [J_double (bin_center b), J_double (bin_count b)]) h)"

definition add_quantiles :: "(real \<Rightarrow> real result) \<Rightarrow> json_value \<Rightarrow> json_value result" where
  "add_quantiles quantile j =
     bind_result (add_double ''p25'' (quantile (25 / 100)) j) (\<lambda>j.
     bind_result (add_double ''p50'' (quantile (50 / 100)) j) (\<lambda>j.
     bind_result (add_double ''p75'' (quantile (75 / 100)) j) (\<lambda>j.
     bind_result (add_double ''p90'' (quantile (90 / 100)) j) (\<lambda>j.
     add_double ''p95'' (quantile (95 / 100)) j))))"

definition when_enabled ::
  "statistics \<Rightarrow> stat_tag \<Rightarrow> (json_value \<Rightarrow> json_value result) \<Rightarrow> json_value \<Rightarrow> json_value result" where
  "when_enabled st t write j = (if stat_enabled st t then write j else Inr j)"

text \<open>\<open>te\<close> is the environment with the offset that \<open>to_system_time\<close> has refreshed.\<close>

definition write_tags ::
  "chrono_env \<Rightarrow> chrono_env \<Rightarrow> statistics \<Rightarrow> json_value \<Rightarrow> json_value result" where
  "write_tags e te st j =
     bind_result (when_enabled st Tag_value
       (add_double ''value'' (get st Tag_value (get_impl_value st))) j) (\<lambda>j.
     bind_result (when_enabled st Tag_min
       (add_double ''min'' (get st Tag_min (get_impl_min st))) j) (\<lambda>j.
     bind_result (when_enabled st Tag_max
       (add_double ''max'' (get st Tag_max (get_impl_max st))) j) (\<lambda>j.
     bind_result (when_enabled st Tag_count
       (add_result ''count'' (bind_result (get st Tag_count (get_impl_count st))
          (\<lambda>n. Inr (J_uint64 n)))) j) (\<lambda>j.
     bind_result (when_enabled st Tag_sum
       (add_double ''sum'' (get st Tag_sum (get_impl_sum st))) j) (\<lambda>j.
     bind_result (when_enabled st Tag_avg
       (add_double ''avg'' (get st Tag_avg (get_impl_avg st))) j) (\<lambda>j.
     bind_result (when_enabled st Tag_moving_count
       (add_double ''moving-count'' (get st Tag_moving_count (get_impl_moving_count st))) j) (\<lambda>j.
     bind_result (when_enabled st Tag_moving_sum
       (add_double ''moving-sum'' (get st Tag_moving_sum (get_impl_moving_sum st))) j) (\<lambda>j.
     bind_result (when_enabled st Tag_moving_avg
       (add_double ''moving-avg'' (get st Tag_moving_avg (get_impl_moving_avg st))) j) (\<lambda>j.
     bind_result (when_enabled st Tag_histogram
       (add_result ''histogram'' (bind_result (get st Tag_histogram (get_impl_histogram st))
          (\<lambda>h. Inr (histogram_value h)))) j) (\<lambda>j.
     bind_result (when_enabled st Tag_quantile
       (\<lambda>j. bind_result (get st Tag_quantile (get_impl_quantile st))
          (\<lambda>quantile. add_quantiles quantile j)) j) (\<lambda>j.
     bind_result (when_enabled st Tag_timestamp
       (add_result ''timestamp'' (bind_result (get st Tag_timestamp (get_impl_timestamp st))
          (write_timestamp e te))) j) (\<lambda>j.
     bind_result (when_enabled st Tag_rate
       (add_double ''rate'' (get st Tag_rate (get_impl_rate e st))) j) (\<lambda>j.
     when_enabled st Tag_entropy
       (add_double ''entropy'' (get st Tag_entropy (get_impl_entropy st))) j)))))))))))))"

definition write_statistics ::
  "chrono_env \<Rightarrow> chrono_env \<Rightarrow> statistics \<Rightarrow> json_value \<Rightarrow> json_value result" where
  "write_statistics e te st j =
     (let j = (if is_object j then j else J_object []) in
      if stat_tags st = tag_type Tag_empty then Inr J_null else write_tags e te st j)"

subsection \<open>Metrics\<close>

definition write_gauge :: "chrono_env \<Rightarrow> chrono_env \<Rightarrow> gauge \<Rightarrow> json_value result" where
  "write_gauge e te g =
     write_statistics e te (g_values g) (add_member (J_object []) ''type'' (J_string ''gauge''))"

definition write_counter :: "chrono_env \<Rightarrow> chrono_env \<Rightarrow> counter \<Rightarrow> json_value result" where
  "write_counter e te c =
     write_statistics e te (c_values c) (add_member (J_object []) ''type'' (J_string ''counter''))"

definition write_timer :: "chrono_env \<Rightarrow> chrono_env \<Rightarrow> timer \<Rightarrow> json_value result" where
  "write_timer e te tm =
     write_statistics e te (t_values tm) (add_member (J_object []) ''type'' (J_string ''timer''))"

fun attribute_json :: "attribute_value \<Rightarrow> json_value" where
  "attribute_json (A_bool b) = J_bool b"
| "attribute_json (A_int i) = J_int i"
| "attribute_json (A_unsigned u) = J_uint u"
| "attribute_json (A_int64 i) = J_int64 i"
| "attribute_json (A_uint64 u) = J_uint64 u"
| "attribute_json (A_double d) = J_double d"
| "attribute_json (A_string s) = J_string (c_str s)"

definition write_attribute :: "attribute \<Rightarrow> json_value" where
  "write_attribute a =
     add_member (add_member (J_object []) ''type'' (J_string ''attribute''))
       ''value'' (attribute_json (a_value a))"

fun write_metric :: "chrono_env \<Rightarrow> chrono_env \<Rightarrow> metric \<Rightarrow> json_value result" where
  "write_metric e te (M_gauge g) = write_gauge e te g"
| "write_metric e te (M_counter c) = write_counter e te c"
| "write_metric e te (M_timer tm) = write_timer e te tm"
| "write_metric e te (M_attribute a) = Inr (write_attribute a)"

subsection \<open>Text of a single object\<close>

text \<open>
  \<open>write_to_json_string\<close> writes into a buffer of its own, through \<open>write_to_json_buffer\<close>, what the
  printer makes of a value that starts as null and stays it when the object is the null pointer.
\<close>

definition write_to_json_buffer ::
  "(json_value \<Rightarrow> string) \<Rightarrow> ('a \<Rightarrow> json_value result) \<Rightarrow> 'a option \<Rightarrow> string result" where
  "write_to_json_buffer pretty write_value obj =
     bind_result (case obj of None \<Rightarrow> Inr J_null | Some x \<Rightarrow> write_value x) (\<lambda>json_value.
       Inr (pretty json_value))"

definition timestamp_json_string ::
  "(json_value \<Rightarrow> string) \<Rightarrow> chrono_env \<Rightarrow> chrono_env \<Rightarrow> time_point \<Rightarrow> string result" where
  "timestamp_json_string pretty e te t = write_to_json_buffer pretty (write_timestamp e te) (Some t)"

definition statistics_json_string ::
  "(json_value \<Rightarrow> string) \<Rightarrow> chrono_env \<Rightarrow> chrono_env \<Rightarrow> statistics option \<Rightarrow> string result" where
  "statistics_json_string pretty e te obj =
     write_to_json_buffer pretty (\<lambda>st. write_statistics e te st J_null) obj"

definition gauge_json_string ::
  "(json_value \<Rightarrow> string) \<Rightarrow> chrono_env \<Rightarrow> chrono_env \<Rightarrow> gauge option \<Rightarrow> string result" where
  "gauge_json_string pretty e te obj = write_to_json_buffer pretty (write_gauge e te) obj"

definition counter_json_string ::
  "(json_value \<Rightarrow> string) \<Rightarrow> chrono_env \<Rightarrow> chrono_env \<Rightarrow> counter option \<Rightarrow> string result" where
  "counter_json_string pretty e te obj = write_to_json_buffer pretty (write_counter e te) obj"

definition timer_json_string ::
  "(json_value \<Rightarrow> string) \<Rightarrow> chrono_env \<Rightarrow> chrono_env \<Rightarrow> timer option \<Rightarrow> string result" where
  "timer_json_string pretty e te obj = write_to_json_buffer pretty (write_timer e te) obj"

definition attribute_json_string :: "(json_value \<Rightarrow> string) \<Rightarrow> attribute option \<Rightarrow> string result" where
  "attribute_json_string pretty obj = write_to_json_buffer pretty (\<lambda>a. Inr (write_attribute a)) obj"

subsection \<open>Dumps\<close>

text \<open>The entries of a \<open>std::map\<close>, in the order of its iteration.\<close>

definition map_entries :: "metrics_dump \<Rightarrow> (string \<times> metric) list" where
  "map_entries d = map (\<lambda>n. (n, the (d n))) (sorted_list_of_set (dom d))"

fun fill_entries ::
  "chrono_env \<Rightarrow> chrono_env \<Rightarrow> (string \<times> metric) list \<Rightarrow> json_value \<Rightarrow> json_value result" where
  "fill_entries e te [] j = Inr j"
| "fill_entries e te ((n, m) # ms) j =
     bind_result (write_metric e te m) (\<lambda>metric_value.
       fill_entries e te ms (add_member j (c_str n) metric_value))"

definition json_fill :: "chrono_env \<Rightarrow> chrono_env \<Rightarrow> metrics_dump \<Rightarrow> json_value result" where
  "json_fill e te metrics_map = fill_entries e te (map_entries metrics_map) (J_object [])"

definition json_to_string ::
  "(json_value \<Rightarrow> string) \<Rightarrow> chrono_env \<Rightarrow> chrono_env \<Rightarrow> metrics_dump \<Rightarrow> string result" where
  "json_to_string pretty e te metrics_map =
     bind_result (json_fill e te metrics_map) (\<lambda>dump. Inr (pretty dump))"

definition handy_json_dump ::
  "(json_value \<Rightarrow> string) \<Rightarrow> chrono_env \<Rightarrow> chrono_env \<Rightarrow> dump_state \<Rightarrow> string result" where
  "handy_json_dump pretty e te ds = json_to_string pretty e te (handy_metrics_dump ds)"

end
