(* ===== verification/Json_Laws.thy ===== *)
theory Json_Laws
  imports Json_Dump Dump_Laws
begin

section \<open>Laws of the JSON output\<close>

text \<open>
  The members a metric is written with are its kind and the readings of its enabled tags, in a fixed
  order (five for the quantiles), and no accessor refuses: what is enabled is computed.
\<close>

subsection \<open>Writers that append members\<close>

text \<open>The members a writer is to append: names with the values, or the errors, of what is read.\<close>

type_synonym members = "(string \<times> json_value result) list"

definition all_read :: "members \<Rightarrow> (string \<times> json_value) list \<Rightarrow> bool" where
  "all_read members vs \<longleftrightarrow> members = map (\<lambda>(k, v). (k, Inr v)) vs"

definition unread :: "members \<Rightarrow> exn \<Rightarrow> bool" where
  "unread members x \<longleftrightarrow> Inl x \<in> snd ` set members"

definition appends :: "members \<Rightarrow> (exn \<Rightarrow> bool) \<Rightarrow> (json_value \<Rightarrow> json_value result) \<Rightarrow> bool" where
  "appends members E write \<longleftrightarrow> (\<forall>ms. returns (write (J_object ms))
     (\<lambda>j. \<exists>vs. j = J_object (ms @ vs) \<and> all_read members vs) (\<lambda>x. E x \<and> unread members x))"

lemma all_read_append: "all_read m1 vs \<Longrightarrow> all_read m2 us \<Longrightarrow> all_read (m1 @ m2) (vs @ us)"
  by (simp add: all_read_def)

lemma all_read_simps [simp]: "all_read [] []" "all_read [(k, Inr v)] [(k, v)]"
  by (simp_all add: all_read_def)

lemma unread_simps [simp]:
  "unread [] x = False" "unread (p # m) x \<longleftrightarrow> snd p = Inl x \<or> unread m x"
  "unread (m1 @ m2) x \<longleftrightarrow> unread m1 x \<or> unread m2 x"
  by (auto simp: unread_def)

lemma returns_weaken: "returns r Q E \<Longrightarrow> (\<And>x. E x \<Longrightarrow> E' x) \<Longrightarrow> returns r Q E'"
  by (cases r) (simp_all add: returns_def)

lemma appends_bind:
  assumes "appends m1 E w1" "appends m2 E w2"
  shows "appends (m1 @ m2) E (\<lambda>j. bind_result (w1 j) w2)"
  unfolding appends_def
proof
  fix ms
  have "returns (w1 (J_object ms)) (\<lambda>j. \<exists>vs. j = J_object (ms @ vs) \<and> all_read m1 vs)
    (\<lambda>x. E x \<and> unread (m1 @ m2) x)"
    using assms(1) by (auto simp: appends_def intro: returns_weaken)
  then show "returns (bind_result (w1 (J_object ms)) w2)
    (\<lambda>j. \<exists>vs. j = J_object (ms @ vs) \<and> all_read (m1 @ m2) vs) (\<lambda>x. E x \<and> unread (m1 @ m2) x)"
  proof (rule returns_bind)
    fix j assume "\<exists>vs. j = J_object (ms @ vs) \<and> all_read m1 vs"
    then obtain vs where vs: "j = J_object (ms @ vs)" "all_read m1 vs" by blast
    have "returns (w2 (J_object (ms @ vs)))
      (\<lambda>j. \<exists>us. j = J_object ((ms @ vs) @ us) \<and> all_read m2 us) (\<lambda>x. E x \<and> unread m2 x)"
      using assms(2) by (simp only: appends_def)
    then show "returns (w2 j) (\<lambda>j. \<exists>vs. j = J_object (ms @ vs) \<and> all_read (m1 @ m2) vs)
      (\<lambda>x. E x \<and> unread (m1 @ m2) x)"
      using vs by (auto simp: returns_def dest: all_read_append split: sum.splits)
  qed
qed

text \<open>A floating-point reading as a value.\<close>

definition double :: "real result \<Rightarrow> json_value result" where
  "double r = bind_result r (\<lambda>x. Inr (J_double x))"

lemma appends_result:
  assumes "returns r (\<lambda>_. True) E"
  shows "appends [(key, r)] E (add_result key r)"
  using assms by (cases r) (auto simp: appends_def add_result_def returns_def)

lemma appends_double:
  assumes "returns r (\<lambda>_. True) E"
  shows "appends [(key, double r)] E (add_double key r)"
  unfolding add_double_def double_def
  by (rule appends_result) (auto intro!: returns_bind [OF assms] returns_Inr)

lemma appends_when:
  assumes "stat_enabled st t \<Longrightarrow> appends members E write"
  shows "appends (if stat_enabled st t then members else []) E (when_enabled st t write)"
  using assms by (simp add: when_enabled_def appends_def returns_Inr)

subsection \<open>The accessors\<close>

definition value_errors :: "exn \<Rightarrow> bool" where
  "value_errors x \<longleftrightarrow> x \<in> {Out_of_bounds, Logic_error, Not_finite}"

lemma stat_enabled_computed: "stat_enabled st t \<Longrightarrow> stat_computed st t"
  by (cases t) (simp_all add: stat_enabled_def stat_computed_def enabled_def)

lemma get_returns:
  "stat_enabled st t \<Longrightarrow> returns impl (\<lambda>_. True) E \<Longrightarrow> returns (get st t (get_impl st t impl)) (\<lambda>_. True) E"
  using stat_enabled_computed by (simp add: get_def get_impl_def)

lemma quantile_errors: "returns (quantile_at h p) (\<lambda>_. True) value_errors"
proof -
  have weaken: "returns r Q value_errors" if "returns r Q (\<lambda>x. x = Logic_error)" for r :: "'a result" and Q
    using that by (auto simp: returns_def value_errors_def split: sum.splits)
  have bins: "returns (quantile_bins h i) (\<lambda>_. True) value_errors" for i
    using weaken [OF quantile_bins_errors [of i h]]
    by (cases "i < int (length h)") (auto simp: quantile_bins_def returns_def value_errors_def)
  show ?thesis
    unfolding quantile_at_def Let_def
    by (auto intro!: returns_Inr returns_bind [OF bins] returns_bind [OF weaken [OF find_z_errors]]
        split: prod.split)
qed

lemma entropy_errors: "returns (entropy_of h) (\<lambda>_. True) value_errors"
proof -
  have "returns (entropy_loop h c is H) (\<lambda>_. True) value_errors" for c "is" H
    by (induction h c "is" H rule: entropy_loop.induct) (simp_all add: returns_def value_errors_def Let_def)
  then show ?thesis by (simp add: entropy_of_def Let_def returns_Inr)
qed

subsection \<open>Statistics\<close>

text \<open>What is written for a tag: its name and what the accessor of the tag gives.\<close>

fun tag_members :: "chrono_env \<Rightarrow> chrono_env \<Rightarrow> statistics \<Rightarrow> stat_tag \<Rightarrow> members" where
  "tag_members e te st Tag_empty = []"
| "tag_members e te st Tag_value = [(''value'', double (stat_value st))]"
| "tag_members e te st Tag_min = [(''min'', double (stat_min st))]"
| "tag_members e te st Tag_max = [(''max'', double (stat_max st))]"
| "tag_members e te st Tag_count = [(''count'', bind_result (stat_count st) (\<lambda>n. Inr (J_uint64 n)))]"
| "tag_members e te st Tag_sum = [(''sum'', double (stat_sum st))]"
| "tag_members e te st Tag_avg = [(''avg'', double (stat_avg st))]"
| "tag_members e te st Tag_moving_count = [(''moving-count'', double (stat_moving_count st))]"
| "tag_members e te st Tag_moving_sum = [(''moving-sum'', double (stat_moving_sum st))]"
| "tag_members e te st Tag_moving_avg = [(''moving-avg'', double (stat_moving_avg st))]"
| "tag_members e te st Tag_histogram =
     [(''histogram'', bind_result (stat_histogram st) (\<lambda>h. Inr (histogram_value h)))]"
| "tag_members e te st Tag_quantile =
     [(''p25'', double (stat_quantile st (25 / 100))), (''p50'', double (stat_quantile st (50 / 100))),
      (''p75'', double (stat_quantile st (75 / 100))), (''p90'', double (stat_quantile st (90 / 100))),
      (''p95'', double (stat_quantile st (95 / 100)))]"
| "tag_members e te st Tag_timestamp =
     [(''timestamp'', bind_result (stat_timestamp st) (write_timestamp e te))]"
| "tag_members e te st Tag_rate = [(''rate'', double (get st Tag_rate (get_impl_rate e st)))]"
| "tag_members e te st Tag_entropy = [(''entropy'', double (get st Tag_entropy (get_impl_entropy st)))]"

definition json_order :: "stat_tag list" where
  "json_order = [Tag_value, Tag_min, Tag_max, Tag_count, Tag_sum, Tag_avg, Tag_moving_count,
     Tag_moving_sum, Tag_moving_avg, Tag_histogram, Tag_quantile, Tag_timestamp, Tag_rate, Tag_entropy]"

definition stat_members :: "chrono_env \<Rightarrow> chrono_env \<Rightarrow> statistics \<Rightarrow> members" where
  "stat_members e te st = concat (map (tag_members e te st) (filter (stat_enabled st) json_order))"

lemma stat_members_chain:
  "stat_members e te st = (let k = (\<lambda>t. if stat_enabled st t then tag_members e te st t else []) in
     k Tag_value @ k Tag_min @ k Tag_max @ k Tag_count @ k Tag_sum @ k Tag_avg @ k Tag_moving_count
     @ k Tag_moving_sum @ k Tag_moving_avg @ k Tag_histogram @ k Tag_quantile @ k Tag_timestamp
     @ k Tag_rate @ k Tag_entropy)"
  by (simp add: stat_members_def json_order_def del: tag_members.simps)

lemmas stat_accessors = stat_value_def stat_min_def stat_max_def stat_count_def stat_sum_def stat_avg_def
  stat_moving_count_def stat_moving_sum_def stat_moving_avg_def stat_histogram_def stat_quantile_def
  stat_timestamp_def

lemmas get_impl_defs = get_impl_value_def get_impl_min_def get_impl_max_def get_impl_count_def
  get_impl_sum_def get_impl_avg_def get_impl_moving_count_def get_impl_moving_sum_def
  get_impl_moving_avg_def get_impl_histogram_def get_impl_quantile_def get_impl_timestamp_def
  get_impl_rate_def get_impl_entropy_def

lemma quantiles_append:
  assumes "\<And>p. returns (q p) (\<lambda>_. True) E"
  shows "appends [(''p25'', double (q (25 / 100))), (''p50'', double (q (50 / 100))),
      (''p75'', double (q (75 / 100))), (''p90'', double (q (90 / 100))), (''p95'', double (q (95 / 100)))]
    E (add_quantiles q)"
proof -
  have "appends ([(''p25'', double (q (25 / 100)))] @ [(''p50'', double (q (50 / 100)))]
      @ [(''p75'', double (q (75 / 100)))] @ [(''p90'', double (q (90 / 100)))]
      @ [(''p95'', double (q (95 / 100)))]) E (add_quantiles q)"
    unfolding add_quantiles_def by (intro appends_bind appends_double assms)
  then show ?thesis by simp
qed

lemma timestamp_returns: "returns (write_timestamp e te t) (\<lambda>_. True) E"
  by (simp add: write_timestamp_def tp_convert_to_def returns_Inr)

lemma appends_get_double:
  assumes "stat_enabled st t" "tag_members e te st t = [(key, double (get st t (get_impl st t r)))]"
    and "returns r (\<lambda>_. True) E"
  shows "appends (tag_members e te st t) E (add_double key (get st t (get_impl st t r)))"
  unfolding assms(2) by (rule appends_double [OF get_returns [OF assms(1,3)]])

lemma appends_get:
  assumes "stat_enabled st t" "tag_members e te st t = [(key, bind_result (get st t (get_impl st t r)) f)]"
    and "returns r (\<lambda>_. True) E" "\<And>x. returns (f x) (\<lambda>_. True) E"
  shows "appends (tag_members e te st t) E (add_result key (bind_result (get st t (get_impl st t r)) f))"
  unfolding assms(2) by (rule appends_result [OF returns_bind [OF get_returns [OF assms(1,3)] assms(4)]])

lemma appends_get_quantiles:
  assumes "stat_enabled st Tag_quantile"
  shows "appends (tag_members e te st Tag_quantile) value_errors (\<lambda>j. bind_result
    (get st Tag_quantile (get_impl st Tag_quantile (Inr (quantile_at (m_histogram st)))))
    (\<lambda>quantile. add_quantiles quantile j))"
  using quantiles_append [where q = "quantile_at (m_histogram st)", OF quantile_errors]
    stat_enabled_computed [OF assms]
  by (simp add: get_def get_impl_def stat_quantile_def get_impl_quantile_def)

lemma write_tags_appends: "appends (stat_members e te st) value_errors (write_tags e te st)"
proof -
  have num: "returns (if c then Inr x else Inr y) (\<lambda>_. True) value_errors"
    "returns (if c then Inl Not_finite else Inr x) (\<lambda>_. True) value_errors" for c and x y :: real
    by (simp_all add: returns_def value_errors_def)
  show ?thesis
    unfolding write_tags_def get_impl_defs stat_members_chain Let_def
    by (intro appends_bind appends_when appends_get_double appends_get appends_get_quantiles
        timestamp_returns entropy_errors returns_if num)
      (simp_all add: returns_Inr stat_accessors get_impl_defs Let_def)
qed

subsection \<open>Metrics and dumps\<close>

fun metric_members :: "chrono_env \<Rightarrow> chrono_env \<Rightarrow> metric \<Rightarrow> members" where
  "metric_members e te (M_gauge g) =
     (''type'', Inr (J_string ''gauge'')) # stat_members e te (g_values g)"
| "metric_members e te (M_counter c) =
     (''type'', Inr (J_string ''counter'')) # stat_members e te (c_values c)"
| "metric_members e te (M_timer tm) =
     (''type'', Inr (J_string ''timer'')) # stat_members e te (t_values tm)"
| "metric_members e te (M_attribute a) =
     [(''type'', Inr (J_string ''attribute'')), (''value'', Inr (attribute_json (a_value a)))]"

definition written_with :: "members \<Rightarrow> json_value \<Rightarrow> bool" where
  "written_with members j \<longleftrightarrow> (\<exists>vs. j = J_object vs \<and> all_read members vs)"

lemma write_statistics_members:
  assumes "stat_tags st \<noteq> tag_type Tag_empty"
  shows "returns (write_statistics e te st (J_object [(''type'', v)]))
    (written_with ((''type'', Inr v) # stat_members e te st))
    (\<lambda>x. value_errors x \<and> unread ((''type'', Inr v) # stat_members e te st) x)"
proof -
  have "returns (write_tags e te st (J_object [(''type'', v)]))
    (\<lambda>j. \<exists>vs. j = J_object ([(''type'', v)] @ vs) \<and> all_read (stat_members e te st) vs)
    (\<lambda>x. value_errors x \<and> unread (stat_members e te st) x)"
    using write_tags_appends [of e te st] by (simp only: appends_def)
  then show ?thesis
    using assms
    by (auto simp: write_statistics_def returns_def written_with_def all_read_def split: sum.splits)
qed

lemma write_metric_returns:
  "shown m \<Longrightarrow> returns (write_metric e te m) (written_with (metric_members e te m))
     (\<lambda>x. value_errors x \<and> unread (metric_members e te m) x)"
  using write_statistics_members
  by (cases m) (fastforce simp: write_gauge_def write_counter_def write_timer_def
      write_attribute_def returns_Inr written_with_def all_read_def)+

lemma fill_entries_returns:
  assumes "\<forall>(n, m)\<in>set ms. shown m"
  shows "returns (fill_entries e te ms (J_object us))
    (\<lambda>j. \<exists>vs. j = J_object (us @ vs)
      \<and> list_all2 (\<lambda>(n, m) (k, v). k = c_str n \<and> written_with (metric_members e te m) v) ms vs)
    (\<lambda>x. value_errors x \<and> (\<exists>m\<in>snd ` set ms. unread (metric_members e te m) x))"
  using assms
proof (induction ms arbitrary: us)
  case Nil
  then show ?case by (simp add: returns_Inr)
next
  case (Cons x ms)
  obtain n m where x: "x = (n, m)" by force
  have "shown m" using Cons.prems by (simp add: x)
  let ?E = "\<lambda>x. value_errors x \<and> (\<exists>m\<in>snd ` set ((n, m) # ms). unread (metric_members e te m) x)"
  have first: "returns (write_metric e te m) (written_with (metric_members e te m)) ?E"
    by (rule returns_weaken [OF write_metric_returns [OF \<open>shown m\<close>]]) auto
  show ?case
    unfolding x fill_entries.simps add_member.simps
  proof (rule returns_bind [OF first])
    fix v assume "written_with (metric_members e te m) v"
    then show "returns (fill_entries e te ms (J_object (us @ [(c_str n, v)])))
      (\<lambda>j. \<exists>vs. j = J_object (us @ vs)
        \<and> list_all2 (\<lambda>(n, m) (k, v). k = c_str n \<and> written_with (metric_members e te m) v) ((n, m) # ms) vs)
      ?E"
      using Cons.IH [of "us @ [(c_str n, v)]"] Cons.prems
      by (auto simp: returns_def list_all2_Cons1 split: sum.splits)
  qed
qed

subsection \<open>Properties\<close>

text \<open>C24: When the JSON of a dump, whose metrics all have a tag (or are attributes), can be written, it has one member per metric, in the order of the
  names, and each is an object: first the kind of the metric, then, for the enabled tags in a fixed
  order, the name of the tag with what the accessor of the tag gives (for the quantiles five members
  with their values), or the value of the attribute. Writing fails only when one of these values
  cannot be computed, and then with its error, which is never \<open>invalid_tag_error\<close>.\<close>

theorem json_dump_lists_every_metric:
  assumes "finite (dom d)" "\<forall>m\<in>ran d. shown m"
  shows "returns (json_fill e te d) (\<lambda>j. \<exists>vs. j = J_object vs
      \<and> list_all2 (\<lambda>n (k, v). k = c_str n \<and> written_with (metric_members e te (the (d n))) v)
          (sorted_list_of_set (dom d)) vs)
    (\<lambda>x. x \<in> {Out_of_bounds, Logic_error, Not_finite} \<and> (\<exists>m\<in>ran d. unread (metric_members e te m) x))"
proof -
  have shown: "\<forall>(n, m)\<in>set (map_entries d). shown m"
    and entries: "snd ` set (map_entries d) \<subseteq> ran d"
    using assms by (auto simp: map_entries_def ran_def)
  from returns_weaken [OF fill_entries_returns [OF shown, of e te "[]"],
      of "\<lambda>x. value_errors x \<and> (\<exists>m\<in>ran d. unread (metric_members e te m) x)"] entries
  have "returns (fill_entries e te (map_entries d) (J_object []))
    (\<lambda>j. \<exists>vs. j = J_object ([] @ vs) \<and> list_all2 (\<lambda>(n, m) (k, v). k = c_str n
        \<and> written_with (metric_members e te m) v) (map_entries d) vs)
    (\<lambda>x. value_errors x \<and> (\<exists>m\<in>ran d. unread (metric_members e te m) x))" by blast
  then show ?thesis
    by (simp add: json_fill_def map_entries_def list_all2_map1 returns_def value_errors_def split: sum.splits)
qed

text \<open>A gauge with the tags \<open>min\<close> and \<open>max\<close>.\<close>

definition example_gauge :: gauge where
  "example_gauge = gauge_new \<lparr>go_values = stat_config_default\<lparr>tags := or (tag_type Tag_min) (tag_type Tag_max)\<rparr>\<rparr>"

lemma example_gauge_enabled:
  "stat_enabled (g_values example_gauge) t \<longleftrightarrow> t = Tag_min \<or> t = Tag_max"
  by (cases t) (simp_all add: example_gauge_def gauge_new_def statistics_new_def reset_def
      stat_enabled_def enabled_def)

lemma example_gauge_tags: "shown (M_gauge example_gauge)"
  by (simp add: example_gauge_def gauge_new_def statistics_new_def reset_def stat_tags_def)

theorem json_dump_lists_every_metric_witness:
  "json_fill example_env example_env [''a'' \<mapsto> M_attribute attribute_new, ''g'' \<mapsto> M_gauge example_gauge]
      = Inr (J_object [(''a'', J_object [(''type'', J_string ''attribute''), (''value'', J_bool False)]),
          (''g'', J_object [(''type'', J_string ''gauge''), (''min'', J_double double_max),
             (''max'', J_double double_min)])])"
proof -
  let ?d = "[''a'' \<mapsto> M_attribute attribute_new, ''g'' \<mapsto> M_gauge example_gauge]"
  have shown: "finite (dom ?d)" "\<forall>m\<in>ran ?d. shown m"
    using example_gauge_tags by (auto simp: ran_def split: if_splits)
  have members: "metric_members example_env example_env (M_gauge example_gauge) =
      [(''type'', Inr (J_string ''gauge'')), (''min'', Inr (J_double double_max)),
       (''max'', Inr (J_double double_min))]"
    by (simp add: stat_members_def json_order_def example_gauge_enabled stat_accessors get_impl_defs
        get_def get_impl_def stat_enabled_computed double_def)
      (simp add: example_gauge_def gauge_new_def statistics_new_def reset_def)
  have order: "sorted_list_of_set (dom ?d) = [''a'', ''g'']"
    by (simp add: insert_commute)
  have "unread (metric_members example_env example_env m) x = False" if "m \<in> ran ?d" for m x
    using that members by (auto simp: ran_def split: if_splits)
  then show ?thesis
    using json_dump_lists_every_metric [OF shown, of example_env example_env] members order
    by (auto simp: returns_def list_all2_Cons1 c_str_def written_with_def all_read_def attribute_new_def
        split: sum.splits)
qed

end
