(* ===== verification/Reports.thy ===== *)
theory Reports
  imports Delivery Json_Laws
begin

section \<open>From the measuring points to the JSON\<close>

text \<open>
  The whole way of a measurement: from the measuring point through the queue, the processor thread,
  the metric and the dump to the members of the JSON object a reader of \<open>HANDY_JSON_DUMP\<close> sees.
\<close>

subsection \<open>Statistics whose members cannot fail\<close>

definition rate_ok :: "chrono_env \<Rightarrow> stat_config \<Rightarrow> bool" where
  "rate_ok e sc \<longleftrightarrow>
     (if unit_less (rate_unit sc) (m_unit (moving_interval sc))
      then m_rep (dur_convert_to e (rate_unit sc) (moving_interval sc)) \<noteq> 0
      else m_rep (moving_interval sc) \<noteq> 0)"

text \<open>No quantile and no entropy, and a rate that is a number.\<close>

definition readable_config :: "chrono_env \<Rightarrow> stat_config \<Rightarrow> bool" where
  "readable_config e sc \<longleftrightarrow> \<not> enabled (tags sc) Tag_quantile \<and> \<not> enabled (tags sc) Tag_entropy
     \<and> (enabled (tags sc) Tag_rate \<longrightarrow> rate_ok e sc)"

definition readable :: "chrono_env \<Rightarrow> metric \<Rightarrow> bool" where
  "readable e m \<longleftrightarrow> (case metric_config m of None \<Rightarrow> True | Some sc \<Rightarrow> readable_config e sc)"

lemma write_tags_readable:
  assumes "readable_config e (s_config st)"
  shows "appends (stat_members e te st) never (write_tags e te st)"
proof -
  have num: "returns (if c then Inr x else Inr y) (\<lambda>_. True) never" for c and x y :: real
    by (simp add: returns_def)
  have no: "\<not> stat_enabled st Tag_quantile" "\<not> stat_enabled st Tag_entropy"
    using assms by (simp_all add: readable_config_def stat_enabled_def)
  have rate: "returns (if unit_less (rate_unit (s_config st)) (m_unit (moving_interval (s_config st)))
      then if real_of_int (sint (m_rep (dur_convert_to e (rate_unit (s_config st)) (moving_interval (s_config st))))) = 0
        then Inl Not_finite else Inr x
      else if real_of_int (sint (m_rep (moving_interval (s_config st)))) = 0 then Inl Not_finite
        else Inr y) (\<lambda>_. True) never" if "stat_enabled st Tag_rate" for x y :: real
    using assms that
    by (auto simp: readable_config_def rate_ok_def stat_enabled_def returns_Inr signed_eq_0_iff split: if_splits)
  show ?thesis
    unfolding write_tags_def get_impl_defs stat_members_chain Let_def
    by (intro appends_bind appends_when appends_get_double appends_get timestamp_returns num rate)
      (simp_all add: returns_Inr no stat_accessors get_impl_defs Let_def)
qed

lemma write_statistics_readable:
  assumes "stat_tags st \<noteq> tag_type Tag_empty" "readable_config e (s_config st)"
  shows "\<exists>vs. write_statistics e te st (J_object us) = Inr (J_object vs)"
  using write_tags_readable [OF assms(2), of te] assms(1)
  by (auto simp: write_statistics_def appends_def returns_def split: sum.splits)
    (metis sum.exhaust)

lemma write_metric_readable:
  assumes "shown m" "readable e m"
  shows "\<exists>vs. write_metric e te m = Inr (J_object vs)"
  using assms write_statistics_readable
  by (cases m) (auto simp: write_gauge_def write_counter_def write_timer_def write_attribute_def readable_def)

lemma fill_entries_members:
  assumes "\<forall>(n, m)\<in>set ms. shown m \<and> readable e m"
  shows "\<exists>vs. fill_entries e te ms (J_object us) = Inr (J_object (us @ vs))
    \<and> (\<forall>(n, m)\<in>set ms. \<exists>v. write_metric e te m = Inr (J_object v) \<and> (c_str n, J_object v) \<in> set vs)"
  using assms
proof (induction ms arbitrary: us)
  case (Cons x ms)
  obtain n m where x: "x = (n, m)" by force
  obtain v where v: "write_metric e te m = Inr (J_object v)"
    using write_metric_readable [of m e te] Cons.prems by (auto simp: x)
  obtain vs where "fill_entries e te ms (J_object (us @ [(c_str n, J_object v)]))
      = Inr (J_object ((us @ [(c_str n, J_object v)]) @ vs))"
    "\<forall>(n, m)\<in>set ms. \<exists>v. write_metric e te m = Inr (J_object v) \<and> (c_str n, J_object v) \<in> set vs"
    using Cons.IH [of "us @ [(c_str n, J_object v)]"] Cons.prems by auto
  then show ?case using v by (intro exI [of _ "(c_str n, J_object v) # vs"]) (auto simp: x)
qed simp

text \<open>The JSON of a dump of such metrics holds each of them.\<close>

lemma json_fill_members:
  assumes "finite (dom d)" "\<forall>m\<in>ran d. shown m \<and> readable e m"
  shows "\<exists>vs. json_fill e te d = Inr (J_object vs)
    \<and> (\<forall>n m. d n = Some m \<longrightarrow> (\<exists>v. write_metric e te m = Inr (J_object v) \<and> (c_str n, J_object v) \<in> set vs))"
proof -
  have "\<forall>(n, m)\<in>set (map_entries d). shown m \<and> readable e m"
    using assms by (auto simp: map_entries_def ran_def)
  from fill_entries_members [OF this, of te "[]"] obtain vs where vs:
    "json_fill e te d = Inr (J_object vs)"
    "\<forall>(n, m)\<in>set (map_entries d). \<exists>v. write_metric e te m = Inr (J_object v) \<and> (c_str n, J_object v) \<in> set vs"
    by (auto simp: json_fill_def)
  moreover have "(n, m) \<in> set (map_entries d)" if "d n = Some m" for n m
    using that assms(1) by (force simp: map_entries_def domI)
  ultimately show ?thesis by blast
qed

subsection \<open>The member of a tag\<close>

definition retains :: "(json_value \<Rightarrow> json_value result) \<Rightarrow> bool" where
  "retains w \<longleftrightarrow> (\<forall>us j. w (J_object us) = Inr j \<longrightarrow> (\<exists>vs. j = J_object (us @ vs)))"

definition puts :: "string \<Rightarrow> json_value \<Rightarrow> (json_value \<Rightarrow> json_value result) \<Rightarrow> bool" where
  "puts key v w \<longleftrightarrow> (\<forall>us j. w (J_object us) = Inr j \<longrightarrow> (\<exists>vs. j = J_object (us @ vs) \<and> (key, v) \<in> set vs))"

lemma retains_bind: "retains w1 \<Longrightarrow> retains w2 \<Longrightarrow> retains (\<lambda>j. bind_result (w1 j) w2)"
  by (force simp: retains_def bind_result_Inr_iff)

lemma retains_add: "retains (add_result key r)" "retains (add_double key r')"
  by (auto simp: retains_def add_double_def add_result_def bind_result_Inr_iff)

lemma retains_quantiles: "retains (\<lambda>j. bind_result r (\<lambda>q. add_quantiles q j))"
proof -
  have "retains (add_quantiles q)" for q
    unfolding add_quantiles_def by (intro retains_bind retains_add)
  then show ?thesis by (auto simp: retains_def bind_result_Inr_iff)
qed

lemma retains_when: "retains w \<Longrightarrow> retains (when_enabled st t w)"
  by (auto simp: retains_def when_enabled_def)

lemma puts_here: "puts key v w1 \<Longrightarrow> retains w2 \<Longrightarrow> puts key v (\<lambda>j. bind_result (w1 j) w2)"
  by (force simp: puts_def retains_def bind_result_Inr_iff)

lemma puts_later: "retains w1 \<Longrightarrow> puts key v w2 \<Longrightarrow> puts key v (\<lambda>j. bind_result (w1 j) w2)"
  by (force simp: puts_def retains_def bind_result_Inr_iff)

lemma puts_double:
  "stat_enabled st t \<Longrightarrow> r = Inr x \<Longrightarrow> puts key (J_double x) (when_enabled st t (add_double key r))"
  by (auto simp: puts_def when_enabled_def add_double_def add_result_def)

lemma puts_count:
  "stat_enabled st t \<Longrightarrow> r = Inr n \<Longrightarrow>
     puts key (J_uint64 n) (when_enabled st t (add_result key (bind_result r (\<lambda>n. Inr (J_uint64 n)))))"
  by (auto simp: puts_def when_enabled_def add_result_def)

text \<open>What the accessors return is what stands in the object.\<close>

lemma write_tags_puts:
  assumes "write_tags e te st (J_object us) = Inr (J_object vs)"
  shows "stat_enabled st Tag_value \<Longrightarrow> stat_value st = Inr x \<Longrightarrow> (''value'', J_double x) \<in> set vs"
    and "stat_enabled st Tag_min \<Longrightarrow> stat_min st = Inr x \<Longrightarrow> (''min'', J_double x) \<in> set vs"
    and "stat_enabled st Tag_max \<Longrightarrow> stat_max st = Inr x \<Longrightarrow> (''max'', J_double x) \<in> set vs"
    and "stat_enabled st Tag_count \<Longrightarrow> stat_count st = Inr n \<Longrightarrow> (''count'', J_uint64 n) \<in> set vs"
    and "stat_enabled st Tag_sum \<Longrightarrow> stat_sum st = Inr x \<Longrightarrow> (''sum'', J_double x) \<in> set vs"
proof -
  have member: "puts key v (write_tags e te st) \<Longrightarrow> (key, v) \<in> set vs" for key v
    using assms unfolding puts_def by fastforce
  note intros = retains_bind retains_when retains_add retains_quantiles
  note later = puts_later [OF retains_when [OF retains_add(2)]]
  note after_count = puts_later [OF retains_when [OF retains_add(1)]]
  show "stat_enabled st Tag_value \<Longrightarrow> stat_value st = Inr x \<Longrightarrow> (''value'', J_double x) \<in> set vs"
    by (rule member, unfold write_tags_def, rule puts_here [OF puts_double])
      (auto simp: stat_value_def intro!: intros)
  show "stat_enabled st Tag_min \<Longrightarrow> stat_min st = Inr x \<Longrightarrow> (''min'', J_double x) \<in> set vs"
    by (rule member, unfold write_tags_def, rule later, rule puts_here [OF puts_double])
      (auto simp: stat_min_def intro!: intros)
  show "stat_enabled st Tag_max \<Longrightarrow> stat_max st = Inr x \<Longrightarrow> (''max'', J_double x) \<in> set vs"
    by (rule member, unfold write_tags_def, rule later, rule later, rule puts_here [OF puts_double])
      (auto simp: stat_max_def intro!: intros)
  show "stat_enabled st Tag_count \<Longrightarrow> stat_count st = Inr n \<Longrightarrow> (''count'', J_uint64 n) \<in> set vs"
    by (rule member, unfold write_tags_def, rule later, rule later, rule later, rule puts_here [OF puts_count])
      (auto simp: stat_count_def intro!: intros)
  show "stat_enabled st Tag_sum \<Longrightarrow> stat_sum st = Inr x \<Longrightarrow> (''sum'', J_double x) \<in> set vs"
    by (rule member, unfold write_tags_def, rule later, rule later, rule later, rule after_count, rule puts_here [OF puts_double])
      (auto simp: stat_sum_def intro!: intros)
qed

subsection \<open>The statistics of the library itself\<close>

text \<open>Their options stay what \<open>initialize\<close> made them, and a dump carries the time of some round.\<close>

abbreviation gauge_config :: "gauge \<Rightarrow> stat_config" where
  "gauge_config g \<equiv> s_config (g_values g)"

abbreviation counter_config :: "counter \<Rightarrow> stat_config" where
  "counter_config c \<equiv> s_config (c_values c)"

definition internal_configs :: "internal_state \<Rightarrow> stat_config list" where
  "internal_configs ist = [gauge_config (stats_size ist), gauge_config (stats_process_time ist)]"

definition mq_configs :: "mq_state \<Rightarrow> stat_config list" where
  "mq_configs q = [gauge_config (mq_stats_size q), gauge_config (mq_message_wait_time q),
     counter_config (mq_pop_count q)]"

definition own_configs :: "'v program \<Rightarrow> stat_config list" where
  "own_configs st = internal_configs (p_internal st) @ mq_configs (p_queue st)
     @ [gauge_config (stats_dump_time (p_dump st))]"

lemma gauge_set_config: "gauge_set e g v t = Inr g' \<Longrightarrow> gauge_config g' = gauge_config g"
  by (auto simp: gauge_set_def bind_result_Inr_iff dest: update_config)

lemma counter_report_config: "counter_report e c = Inr c' \<Longrightarrow> counter_config c' = counter_config c"
  by (auto simp: counter_report_def bind_result_Inr_iff dest: update_config)

lemma counter_init_config: "counter_init e c v t = Inr c' \<Longrightarrow> counter_config c' = counter_config c"
  by (auto simp: counter_init_def Let_def reset_def dest: counter_report_config)

lemma counter_increment_config: "counter_increment e c v t = Inr c' \<Longrightarrow> counter_config c' = counter_config c"
  by (auto simp: counter_increment_def bind_result_Inr_iff Let_def
      dest!: counter_report_config counter_init_config split: if_splits)

lemma process_event_message_configs:
  "process_event_message e J fnm cfg t1 t2 msg ist = Inr ist' \<Longrightarrow> internal_configs ist' = internal_configs ist"
  by (auto simp: process_event_message_def Let_def bind_result_Inr_iff internal_configs_def
      dest!: gauge_set_config)

lemma mq_pop_configs: "mq_pop e ms t q = Inr (q', n) \<Longrightarrow> mq_configs q' = mq_configs q"
  by (auto simp: mq_pop_def mq_record_def Let_def bind_result_Inr_iff mq_configs_def
      dest!: gauge_set_config counter_increment_config split: prod.splits option.splits)

lemma update_metrics_configs: "update_metrics e t ist = Inr ist' \<Longrightarrow> internal_configs ist' = internal_configs ist"
  by (auto simp: update_metrics_def bind_result_Inr_iff internal_configs_def)

lemma update_dump_configs:
  assumes "update_dump e interval clk t it (ist, q, ds) = Inr (ist', q', ds')"
  shows "internal_configs ist' = internal_configs ist" "mq_configs q' = mq_configs q"
    "gauge_config (stats_dump_time ds') = gauge_config (stats_dump_time ds)"
    "dump_timestamp ds' \<in> {dump_timestamp ds, t}"
  using assms
  by (auto simp: update_dump_def create_dump_def internal_stats_update_def mq_stats_update_def
      dump_stats_update_def gauge_update_statistics_def counter_update_statistics_def update_time_config
      Let_def bind_result_Inr_iff mq_configs_def internal_configs_def
      dest!: update_metrics_configs gauge_set_config split: if_splits)

lemma process_message_queue_configs:
  "process_message_queue e J fnm clk st = Inr st' \<Longrightarrow> own_configs st' = own_configs st \<and> p_dump st' = p_dump st"
  by (auto simp: process_message_queue_def Let_def bind_result_Inr_iff own_configs_def
      dest!: mq_pop_configs process_event_message_configs split: option.splits)

lemma processor_round_configs:
  assumes "processor_round e J fnm clk st = Inr st'"
  shows "own_configs st' = own_configs st"
    "dump_timestamp (p_dump st') \<in> {dump_timestamp (p_dump st), update_time_now clk}"
proof -
  let ?first = "if \<not> mq_empty (p_queue st) then process_message_queue e J fnm clk st
    else Inr (st\<lparr>last_message_timestamp := tp_max e (last_message_timestamp st) (idle_time clk)\<rparr>)"
  obtain st1 ist q ds where first: "?first = Inr st1"
    and d: "update_dump e (cfg_dump_interval (p_config st1)) (round_dump_clock clk) (update_time_now clk)
      (last_message_timestamp st1) (p_internal st1, p_queue st1, p_dump st1) = Inr (ist, q, ds)"
    and st': "st' = st1\<lparr>p_internal := ist, p_queue := q, p_dump := ds\<rparr>"
    using assms unfolding processor_round_def bind_result_Inr_iff by auto
  have 1: "own_configs st1 = own_configs st" "p_dump st1 = p_dump st"
    using first process_message_queue_configs [of e J fnm clk st st1]
    by (auto simp: own_configs_def split: if_splits)
  show "own_configs st' = own_configs st"
    "dump_timestamp (p_dump st') \<in> {dump_timestamp (p_dump st), update_time_now clk}"
    using update_dump_configs [OF d] 1 unfolding st' by (simp_all add: own_configs_def)
qed

lemma run_processor_configs:
  assumes "run_processor e J fnm clks st = Inr st'"
  shows "own_configs st' = own_configs st
    \<and> dump_timestamp (p_dump st') \<in> insert (dump_timestamp (p_dump st)) (update_time_now ` set clks)"
  using assms
proof (induction clks arbitrary: st)
  case (Cons clk clks)
  show ?case
  proof (cases "is_enabled st")
    case True
    then obtain st1 where st1: "processor_round e J fnm clk st = Inr st1" "run_processor e J fnm clks st1 = Inr st'"
      using Cons.prems by (auto simp: bind_result_Inr_iff)
    then show ?thesis using Cons.IH [OF st1(2)] processor_round_configs [OF st1(1)] by auto
  qed (use Cons.prems in simp)
qed simp

text \<open>The times at which the rounds of an execution look at the dump.\<close>

fun round_times :: "step list \<Rightarrow> time_point set" where
  "round_times [] = {}"
| "round_times (Point n p # ss) = round_times ss"
| "round_times (Round clk # ss) = insert (update_time_now clk) (round_times ss)"

lemma perform_configs: "own_configs (perform e n p st) = own_configs st \<and> p_dump (perform e n p st) = p_dump st"
proof -
  have "mq_configs (mq_push q n) = mq_configs q" for q n
    by (simp add: mq_push_def mq_configs_def split: option.split)
  then show ?thesis by (simp add: perform_sends send_def own_configs_def)
qed

lemma exec_configs:
  assumes "exec e J fnm ss st = Inr st'"
  shows "own_configs st' = own_configs st
    \<and> dump_timestamp (p_dump st') \<in> insert (dump_timestamp (p_dump st)) (round_times ss)"
  using assms
proof (induction ss arbitrary: st rule: round_times.induct)
  case (2 n p ss)
  then show ?case using "2.IH" [of "perform e n p st"] perform_configs [of e n p st] by simp
next
  case (3 clk ss)
  then obtain st1 where st1: "run_processor e J fnm [clk] st = Inr st1" "exec e J fnm ss st1 = Inr st'"
    by (auto simp: bind_result_Inr_iff simp del: run_processor.simps)
  then show ?case using "3.IH" [OF st1(2)] run_processor_configs [OF st1(1)] by auto
qed simp

definition fresh_configs :: "stat_config list" where
  "fresh_configs = [go_values internal_size_opts, go_values process_time_opts, go_values mq_size_opts,
     go_values mq_wait_time_opts, co_values mq_pop_count_opts, go_values dump_time_opts]"

lemma internal_initialize_configs:
  "internal_initialize e now ist = Inr ist' \<Longrightarrow>
     internal_configs ist' = [go_values internal_size_opts, go_values process_time_opts]"
  by (auto simp: internal_initialize_def internal_stats_reset_def internal_configs_def bind_result_Inr_iff
      gauge_new_def new_config dest!: gauge_set_config)

lemma mq_initialize_configs:
  "mq_initialize e now q = Inr q' \<Longrightarrow>
     mq_configs q' = [go_values mq_size_opts, go_values mq_wait_time_opts, co_values mq_pop_count_opts]"
  by (auto simp: mq_initialize_def mq_stats_reset_def mq_configs_def bind_result_Inr_iff
      gauge_new_def counter_new_def new_config dest!: gauge_set_config)

lemma core_initialize_configs:
  assumes "core_initialize e now mq_now st = Inr st'" "\<not> enabled_flag st"
  shows "own_configs st' = fresh_configs \<and> dump_timestamp (p_dump st') = time_point_default"
proof -
  have "internal_initialize e now (p_internal st) = Inr (p_internal st')"
    "mq_initialize e mq_now (p_queue st) = Inr (p_queue st')" "p_dump st' = dump_initialize (p_dump st)"
    using assms by (auto simp: core_initialize_def Let_def bind_result_Inr_iff split: if_splits)
  then show ?thesis
    using internal_initialize_configs mq_initialize_configs
    by (simp add: own_configs_def fresh_configs_def dump_initialize_def dump_stats_reset_def gauge_new_def new_config)
qed

lemma drained_run_configs:
  assumes "drained_run e J fnm now mq_now ss clks st = Inr st'" "\<not> enabled_flag st"
  shows "own_configs st' = fresh_configs \<and> dump_timestamp (p_dump st')
    \<in> insert time_point_default (round_times ss \<union> update_time_now ` set clks)"
proof -
  obtain st1 st2 where "core_initialize e now mq_now st = Inr st1" "exec e J fnm ss st1 = Inr st2"
    "run_processor e J fnm clks st2 = Inr st'"
    using assms(1) by (auto simp: bind_result_Inr_iff)
  then show ?thesis
    using core_initialize_configs [OF _ assms(2)] exec_configs run_processor_configs by fastforce
qed

lemma fresh_configs_readable:
  "sc \<in> set fresh_configs \<Longrightarrow> readable_config e sc \<and> tags sc \<noteq> tag_type Tag_empty"
  by (auto simp: fresh_configs_def internal_size_opts_def process_time_opts_def mq_size_opts_def
      mq_wait_time_opts_def mq_pop_count_opts_def dump_time_opts_def readable_config_def rate_ok_def
      enabled_def one_second_def stat_config_default_def unit_less_def)

subsection \<open>The metrics of the program\<close>

definition readable_options :: "chrono_env \<Rightarrow> 'v config_state \<Rightarrow> bool" where
  "readable_options e cfg \<longleftrightarrow> pattern_opts cfg = [] \<and> readable_config e (go_values (cfg_gauge cfg))
     \<and> readable_config e (co_values (cfg_counter cfg)) \<and> readable_config e (to_values (cfg_timer cfg))"

text \<open>With no patterns every metric retains the options of its kind.\<close>

lemma timer_config:
  "timer_set e tm d t = Inr tm' \<Longrightarrow> s_config (t_values tm') = s_config (t_values tm)"
  "timer_stop e tm i t = Inr tm' \<Longrightarrow> s_config (t_values tm') = s_config (t_values tm)"
  by (auto simp: timer_set_def timer_stop_def Let_def bind_result_Inr_iff check_idle_fields
      dest!: update_config split: option.splits if_splits)

lemma process_event_config:
  assumes "process_event e cfg m msg = Inr m'" "metric_config m = global_config cfg m"
  shows "metric_config m' = global_config cfg m'"
proof (cases m)
  case (M_counter c)
  then show ?thesis
    using assms counter_init_config [of e "counter_new (cfg_counter cfg)"]
    by (auto simp: process_counter_defs bind_result_Inr_iff counter_new_def new_config decrement_is_increment
        dest!: counter_increment_config counter_init_config split: if_splits)
next
  case (M_gauge g)
  then show ?thesis
    using assms
    by (auto simp: process_gauge_defs bind_result_Inr_iff gauge_new_def new_config
        dest!: gauge_set_config split: if_splits)
next
  case (M_timer tm)
  then show ?thesis
    using assms
    by (auto simp: process_timer_defs bind_result_Inr_iff timer_new_def new_config check_idle_fields
        timer_start_def timer_discard_def timer_heartbeat_def Let_def
        dest!: timer_config split: if_splits option.splits)
next
  case (M_attribute a)
  then show ?thesis using assms by (auto simp: bind_result_Inr_iff)
qed

lemma relive_config:
  assumes "relive e cfg hs m = Inr m'" "metric_config m = global_config cfg m"
  shows "metric_config m' = global_config cfg m'"
  using assms
proof (induction hs arbitrary: m rule: messages_in.induct)
  case (2 msg hs)
  then show ?case using process_event_config by (fastforce simp: bind_result_Inr_iff)
next
  case (3 t hs)
  have "metric_config (update_metric e t m) = global_config cfg (update_metric e t m)"
    using "3.prems"(2)
    by (cases m) (simp_all add: gauge_update_statistics_def counter_update_statistics_def
        timer_update_statistics_def update_time_config check_idle_fields)
  then show ?case using 3 by simp
qed simp

lemma lived_config:
  assumes "lived e J fnm cfg msgs m" "pattern_opts cfg = []"
  shows "metric_config m = global_config cfg m"
proof -
  obtain hs m0 where h: "newborn J fnm cfg (hd msgs) = Inr (Some m0)" "relive e cfg hs m0 = Inr m"
    using assms(1) by (auto simp: lived_def)
  have "metric_config m0 = global_config cfg m0"
    using h(1) assms(2)
    by (auto simp: newborn_def make_metric_def bind_result_Inr_iff gauge_new_def
        counter_new_def timer_new_def new_config split: if_splits)
  then show ?thesis using relive_config [OF h(2)] by simp
qed

lemma lived_readable: "lived e J fnm cfg msgs m \<Longrightarrow> readable_options e cfg \<Longrightarrow> readable e m"
  using lived_config [of e J fnm cfg msgs m]
  by (cases m) (auto simp: readable_def readable_options_def)

text \<open>The statistics of a counter show its value.\<close>

definition counter_tells :: "counter \<Rightarrow> bool" where
  "counter_tells c \<longleftrightarrow> (stat_computed (c_values c) Tag_value
     \<longrightarrow> m_value (c_values c) = real_of_int (sint (c_value c)))"

lemma update_value: "update e st v t = Inr st' \<Longrightarrow> stat_computed st' Tag_value \<Longrightarrow> m_value st' = v"
  unfolding update_eq by (auto simp: bind_result_Inr_iff stat_computed_def)

lemma update_time_value: "m_value (update_time e st t) = m_value st"
  by (simp add: update_time_def shift_histogram_def Let_def)

lemma report_tells: "counter_report e c = Inr c' \<Longrightarrow> counter_tells c'"
  by (auto simp: counter_report_def counter_tells_def bind_result_Inr_iff dest: update_value)

lemma process_counter_event_tells:
  "process_counter_event e opts c msg = Inr c' \<Longrightarrow> counter_tells c \<Longrightarrow> counter_tells c'"
  by (auto simp: process_counter_defs counter_init_def counter_increment_def counter_decrement_def
      bind_result_Inr_iff Let_def dest: report_tells split: if_splits)

lemma relive_tells:
  assumes "relive e cfg hs (M_counter c) = Inr (M_counter c')" "counter_tells c"
  shows "counter_tells c'"
  using assms
proof (induction hs arbitrary: c rule: messages_in.induct)
  case (2 msg hs)
  then show ?case using process_counter_event_tells by (fastforce simp: bind_result_Inr_iff)
next
  case (3 t hs)
  then show ?case
    by (simp add: counter_update_statistics_def counter_tells_def stat_computed_def update_time_config
        update_time_value)
qed simp

subsection \<open>The dump after the last message\<close>

text \<open>A round with nothing to take publishes a dump, if one is due, of metrics with the same histories.\<close>

lemma idle_round_publishes:
  assumes "program_inv e J kinds st" "tracked e J fnm cfg [] sent (length sent) st" "round_ok clk"
    and "due e (cfg_dump_interval cfg) (update_time_now clk) (p_dump st)"
  obtains st' ts where "processor_round e J fnm clk st = Inr st'" "program_inv e J kinds st'"
    "tracked e J fnm cfg [] sent (length sent) st'"
    "get_dump (p_dump st') = (\<lambda>n. case visible (p_internal st') n of Some m \<Rightarrow> Some m
       | None \<Rightarrow> map_of (own_entries e (cfg_dump_interval cfg) ts (p_internal st') (p_queue st')
           (stats_dump_time (p_dump st'))) n)"
proof -
  obtain st' where st': "processor_round e J fnm clk st = Inr st'" "round_post e J fnm kinds st st'"
    using returns_ex [OF processor_round_returns [OF assms(1,3), of fnm]] by blast
  let ?st1 = "st\<lparr>last_message_timestamp := tp_max e (last_message_timestamp st) (idle_time clk)\<rparr>"
  have "mq_empty (p_queue st)"
    using assms(1,2) empty_iff [of e] by (auto simp: program_inv_def tracked_def)
  then obtain ist q ds where d: "update_dump e (cfg_dump_interval cfg) (round_dump_clock clk)
      (update_time_now clk) (last_message_timestamp ?st1) (p_internal st, p_queue st, p_dump st)
      = Inr (ist, q, ds)"
    "st' = ?st1\<lparr>p_internal := ist, p_queue := q, p_dump := ds\<rparr>"
    using st'(1) assms(2) by (auto simp: processor_round_def bind_result_Inr_iff tracked_def)
  have inv: "internal_inv e kinds (p_internal st)" "mq_inv e (p_queue st)"
    "metric_ok e (M_gauge (stats_dump_time (p_dump st)))" "on_clock (update_time_now clk)"
    "on_clock (last_message_timestamp ?st1)" "on_clock (dump_end_time (round_dump_clock clk))"
    using assms(1,3) by (simp_all add: program_inv_def round_ok_def tp_max_on_clock)
  have "published e (cfg_dump_interval cfg) (round_dump_clock clk) (update_time_now clk)
      (last_message_timestamp ?st1) (p_internal st) (ist, q, ds)"
    using update_dump_due [OF inv assms(4)] d(1) by (auto simp: returns_def)
  then obtain ts where "dump ds = (\<lambda>n. case visible ist n of Some m \<Rightarrow> Some m
      | None \<Rightarrow> map_of (own_entries e (cfg_dump_interval cfg) ts ist q (stats_dump_time ds)) n)"
    by auto
  then have "get_dump (p_dump st') = (\<lambda>n. case visible (p_internal st') n of Some m \<Rightarrow> Some m
      | None \<Rightarrow> map_of (own_entries e (cfg_dump_interval cfg) ts (p_internal st') (p_queue st')
          (stats_dump_time (p_dump st'))) n)"
    unfolding get_dump_def d(2) by (simp cong: option.case_cong)
  moreover have "program_inv e J kinds st'" using st'(2) by (simp add: round_post_def)
  moreover have "tracked e J fnm cfg [] sent (length sent) st'"
    using tracked_round [OF assms(2) st'(2)] by simp
  ultimately show ?thesis using that [OF st'(1)] by blast
qed

text \<open>What the library adds to a dump can always be written.\<close>

lemma own_entries_configs:
  assumes "(n, m) \<in> set (own_entries e interval ts (p_internal st) (p_queue st) (stats_dump_time (p_dump st)))"
  shows "(\<exists>a. m = M_attribute a) \<or> (\<exists>sc\<in>set (own_configs st). metric_config m = Some sc)"
  using assms
  by (auto simp: own_entries_def own_statistics_def own_configs_def internal_configs_def mq_configs_def
      dump_interval_attr_def timestamp_attr_def)

lemma config_written:
  "metric_config m = Some sc \<Longrightarrow> readable_config e sc \<Longrightarrow> tags sc \<noteq> tag_type Tag_empty \<Longrightarrow> shown m \<and> readable e m"
  by (cases m) (auto simp: readable_def stat_tags_def)

lemma own_entries_written:
  assumes "(n, m) \<in> set (own_entries e interval ts (p_internal st) (p_queue st) (stats_dump_time (p_dump st)))"
    and "own_configs st = fresh_configs"
  shows "shown m \<and> readable e m"
  using own_entries_configs [OF assms(1)] unfolding assms(2)
proof (elim disjE exE bexE)
  fix sc assume "sc \<in> set fresh_configs" "metric_config m = Some sc"
  then show ?thesis using config_written fresh_configs_readable by blast
qed (simp add: readable_def)

lemma tracked_lived:
  assumes "tracked e J fnm cfg [] (sends e ss) (length (sends e ss)) st"
    and "map_of (metrics (p_internal st)) n = Some (Some m)"
  shows "lived e J fnm cfg (sent_to e n ss) m"
proof -
  have "history e J fnm cfg n (sent_to e n ss) (metrics (p_internal st))"
    using assms(1) by (simp add: tracked_def)
  then show ?thesis using assms(2) by (simp add: history_def)
qed

lemma dump_is_written:
  assumes "tracked e J fnm cfg [] (sends e ss) (length (sends e ss)) st" "readable_options e cfg"
    and "own_configs st = fresh_configs"
    and "d = (\<lambda>n. case visible (p_internal st) n of Some m \<Rightarrow> Some m
       | None \<Rightarrow> map_of (own_entries e interval ts (p_internal st) (p_queue st)
           (stats_dump_time (p_dump st))) n)"
  shows "\<exists>vs. json_fill e te d = Inr (J_object vs) \<and> (\<forall>n m. map_of (metrics (p_internal st)) n = Some (Some m)
    \<longrightarrow> shown m \<longrightarrow> (\<exists>v. write_metric e te m = Inr (J_object v) \<and> (c_str n, J_object v) \<in> set vs))"
proof -
  let ?own = "own_entries e interval ts (p_internal st) (p_queue st) (stats_dump_time (p_dump st))"
  have vis: "shown m \<and> readable e m" if "visible (p_internal st) n = Some m" for n m
  proof -
    have "map_of (metrics (p_internal st)) n = Some (Some m)" "shown m"
      using that by (auto simp: visible_def split: option.splits if_splits)
    then show ?thesis using lived_readable [OF tracked_lived [OF assms(1)] assms(2)] by blast
  qed
  have own: "shown m \<and> readable e m" if "map_of ?own n = Some m" for n m
    using own_entries_written [OF map_of_SomeD [OF that] assms(3)] .
  have "dom d \<subseteq> dom (map_of (metrics (p_internal st))) \<union> dom (map_of ?own)"
    by (auto simp: assms(4) visible_def split: option.splits)
  then have "finite (dom d)" by (rule finite_subset) (simp add: finite_dom_map_of)
  moreover have "\<forall>m\<in>ran d. shown m \<and> readable e m"
    using vis own by (auto simp: assms(4) ran_def split: option.splits)
  ultimately obtain vs where "json_fill e te d = Inr (J_object vs)"
    "\<forall>n m. d n = Some m \<longrightarrow> (\<exists>v. write_metric e te m = Inr (J_object v) \<and> (c_str n, J_object v) \<in> set vs)"
    using json_fill_members by blast
  moreover have "d n = Some m" if "map_of (metrics (p_internal st)) n = Some (Some m)" "shown m" for n m
    using that by (simp add: assms(4) visible_def)
  ultimately show ?thesis by blast
qed

subsection \<open>What stands in the object of a metric\<close>

definition basic_tags :: "stat_tag set" where
  "basic_tags = {Tag_count, Tag_sum, Tag_min, Tag_max, Tag_value}"

definition aggregates_in :: "real list \<Rightarrow> (string \<times> json_value) list \<Rightarrow> bool" where
  "aggregates_in xs ms \<longleftrightarrow>
     (''count'', J_uint64 (of_nat (length xs))) \<in> set ms
   \<and> (''sum'', J_double (sum_list xs)) \<in> set ms
   \<and> (''min'', J_double (foldl min double_max xs)) \<in> set ms
   \<and> (''max'', J_double (foldl max double_min xs)) \<in> set ms
   \<and> (''value'', J_double (last (0 # xs))) \<in> set ms"

text \<open>What the measuring points of an execution have to show for a name of a kind.\<close>

definition told_of ::
  "chrono_env \<Rightarrow> 'v config_state \<Rightarrow> step list \<Rightarrow> string \<Rightarrow> char_code \<Rightarrow> (string \<times> json_value) list \<Rightarrow> bool" where
  "told_of e cfg ss n kind ms \<longleftrightarrow>
     (if kind = DEST_GAUGE then aggregates_in (fold (values_after n) ss []) ms
      else if kind = DEST_COUNTER then
        (''value'', J_double (real_of_int (sint (fold (count_after n) ss 0)))) \<in> set ms
      else if kind = DEST_TIMER then clock_sorted (map timestamp (sent_to e n ss)) \<longrightarrow>
        aggregates_in (snd (fold (account_after e (to_idle_timeout (cfg_timer cfg)) n) ss nothing_timed)) ms
      else (''value'', attribute_json (fold (attribute_after n) ss (A_bool False))) \<in> set ms)"

definition telling_options :: "chrono_env \<Rightarrow> 'v config_state \<Rightarrow> bool" where
  "telling_options e cfg \<longleftrightarrow> readable_options e cfg \<and> timeout_ok e (to_idle_timeout (cfg_timer cfg))
     \<and> (\<forall>t\<in>basic_tags. enabled (tags (go_values (cfg_gauge cfg))) t
          \<and> enabled (tags (to_values (cfg_timer cfg))) t)
     \<and> enabled (tags (co_values (cfg_counter cfg))) Tag_value"

lemma enabled_not_empty: "enabled ts Tag_value \<Longrightarrow> ts \<noteq> tag_type Tag_empty"
  by (auto simp: enabled_def)

lemma enabled_new: "enabled (tags sc) t \<Longrightarrow> stat_computed (statistics_new sc) t"
  by (rule stat_enabled_computed) (simp add: stat_enabled_def new_config)

lemma statistics_told:
  assumes "write_statistics e te st (J_object us) = Inr (J_object ms)"
    and "\<forall>t\<in>basic_tags. enabled (tags (s_config st)) t"
    and "stat_count st = Inr (of_nat (length xs)) \<and> stat_sum st = Inr (sum_list xs)
      \<and> stat_min st = Inr (foldl min double_max xs) \<and> stat_max st = Inr (foldl max double_min xs)
      \<and> stat_value st = Inr (last (0 # xs))"
  shows "aggregates_in xs ms"
proof -
  have on: "\<forall>t\<in>basic_tags. stat_enabled st t" using assms(2) by (simp add: stat_enabled_def)
  have "stat_tags st \<noteq> tag_type Tag_empty"
    using assms(2) enabled_not_empty by (simp add: basic_tags_def stat_tags_def)
  then have "write_tags e te st (J_object us) = Inr (J_object ms)"
    using assms(1) by (simp add: write_statistics_def)
  from write_tags_puts [OF this] show ?thesis
    using on assms(3) unfolding aggregates_in_def basic_tags_def by blast
qed

lemma lived_shown:
  assumes "lived e J fnm cfg msgs m" "telling_options e cfg"
  shows "shown m"
proof -
  have "metric_config m = global_config cfg m"
    using lived_config [OF assms(1)] assms(2) by (simp add: telling_options_def readable_options_def)
  then show ?thesis
    using assms(2) enabled_not_empty
    by (cases m) (auto simp: telling_options_def basic_tags_def stat_tags_def)
qed

lemma lived_tells: "lived e J fnm cfg msgs (M_counter c) \<Longrightarrow> counter_tells c"
proof -
  assume "lived e J fnm cfg msgs (M_counter c)"
  then obtain hs m0 where h: "newborn J fnm cfg (hd msgs) = Inr (Some m0)" "relive e cfg hs m0 = Inr (M_counter c)"
    by (auto simp: lived_def)
  have kind: "relive e cfg hs m = Inr m' \<Longrightarrow> (\<exists>c. m = M_counter c) = (\<exists>c. m' = M_counter c)" for m m'
  proof (induction hs arbitrary: m rule: messages_in.induct)
    case (2 msg hs)
    then show ?case by (cases m) (fastforce simp: bind_result_Inr_iff)+
  next
    case (3 t hs)
    then show ?case by (cases m) fastforce+
  qed simp
  obtain c0 where c0: "m0 = M_counter c0" using kind [OF h(2)] by blast
  obtain opts where opts: "c0 = counter_new opts"
    using h(1) by (auto simp: c0 newborn_def make_metric_def bind_result_Inr_iff split: if_splits)
  have "counter_tells c0"
    by (simp add: opts counter_tells_def counter_new_def statistics_new_def reset_def)
  then show ?thesis using relive_tells h(2) by (simp add: c0)
qed

text \<open>The object of a metric shows what its measuring points said, kind by kind.\<close>

lemma sent_of_kind:
  assumes "\<forall>s\<in>set ss. step_ok e kinds s" "\<forall>(n, msg)\<in>set (sends e ss). 0 < tick_pos (timestamp msg)"
    and "kinds n = k"
  shows "\<forall>msg\<in>set (sent_to e n ss). created msg \<and> destination_type msg = k \<and> on_clock (timestamp msg)
    \<and> 0 < tick_pos (timestamp msg)"
proof
  fix msg assume msg: "msg \<in> set (sent_to e n ss)"
  then show "created msg \<and> destination_type msg = k \<and> on_clock (timestamp msg) \<and> 0 < tick_pos (timestamp msg)"
    using sent_message_ok [OF assms(1) msg] assms(2,3) by auto
qed

lemma counter_told:
  assumes "lived e J fnm cfg (sent_to e n ss) m" "telling_options e cfg" "\<forall>s\<in>set ss. step_ok e kinds s"
    and "\<forall>(n, msg)\<in>set (sends e ss). 0 < tick_pos (timestamp msg)" "kinds n = DEST_COUNTER"
    and "write_metric e te m = Inr (J_object ms)"
  shows "(''value'', J_double (real_of_int (sint (fold (count_after n) ss 0)))) \<in> set ms"
proof -
  from lived_counter [OF assms(1) sent_of_kind [OF assms(3-5)]] obtain c where
    c: "m = M_counter c" "c_value c = fold counted (sent_to e n ss) 0" by blast
  have counts: "fold counted (sent_to e n ss) 0 = fold (count_after n) ss 0"
    by (rule fold_sent_to) (use counted_point assms(3,5) in blast)
  have on: "stat_enabled (c_values c) Tag_value"
    using lived_config [OF assms(1)] assms(2)
    by (simp add: c(1) stat_enabled_def telling_options_def readable_options_def)
  then have "stat_value (c_values c) = Inr (real_of_int (sint (c_value c)))"
    using lived_tells [OF assms(1) [unfolded c(1)]] stat_enabled_computed [OF on]
    by (simp add: counter_tells_def stat_value_def get_def get_impl_def get_impl_value_def)
  moreover have "write_tags e te (c_values c) (J_object [(''type'', J_string ''counter'')]) = Inr (J_object ms)"
    using assms(6) on enabled_not_empty
    by (auto simp: c(1) write_counter_def write_statistics_def stat_enabled_def stat_tags_def split: if_splits)
  ultimately show ?thesis
    using write_tags_puts(1) on unfolding c(2) counts by blast
qed

lemma gauge_told:
  assumes "lived e J fnm cfg (sent_to e n ss) m" "telling_options e cfg" "\<forall>s\<in>set ss. step_ok e kinds s"
    and "\<forall>(n, msg)\<in>set (sends e ss). 0 < tick_pos (timestamp msg)" "kinds n = DEST_GAUGE"
    and "write_metric e te m = Inr (J_object ms)" "globals_ok e cfg"
  shows "aggregates_in (fold (values_after n) ss []) ms"
proof -
  let ?sc = "go_values (cfg_gauge cfg)"
  have opts: "pattern_opts cfg = []" "\<forall>t\<in>basic_tags. enabled (tags ?sc) t" "good_interval e ?sc"
    using assms(2,7) by (simp_all add: telling_options_def readable_options_def globals_ok_def)
  have computed: "\<forall>t\<in>{Tag_count, Tag_sum, Tag_min, Tag_max, Tag_value}. stat_computed (statistics_new ?sc) t"
    using opts(2) enabled_new unfolding basic_tags_def by blast
  have none: "select_pattern fnm (pattern_opts cfg) (destination_name (hd (sent_to e n ss))) = None"
    by (simp add: opts(1))
  have "\<forall>msg\<in>set (sent_to e n ss). created msg \<and> destination_type msg = DEST_GAUGE \<and> on_clock (timestamp msg)"
    using sent_of_kind [OF assms(3-5)] by blast
  from lived_gauge [OF assms(1) none this] obtain g where
    g: "m = M_gauge g" "gauge_of e ?sc (fold seen (sent_to e n ss) []) g" by blast
  have "fold seen (sent_to e n ss) [] = fold (values_after n) ss []"
    by (rule fold_sent_to) (use seen_point assms(3,5) in blast)
  then have "gauge_of e ?sc (fold (values_after n) ss []) g" using g(2) by simp
  from gauge_of_aggregates [OF opts(3) this computed] show ?thesis
    by (rule statistics_told [rotated 2])
      (use opts lived_config [OF assms(1)] assms(6) in \<open>simp_all add: g(1) write_gauge_def\<close>)
qed

lemma timer_told:
  assumes "lived e J fnm cfg (sent_to e n ss) m" "telling_options e cfg" "\<forall>s\<in>set ss. step_ok e kinds s"
    and "\<forall>(n, msg)\<in>set (sends e ss). 0 < tick_pos (timestamp msg)" "kinds n = DEST_TIMER"
    and "write_metric e te m = Inr (J_object ms)" "globals_ok e cfg"
    and "clock_sorted (map timestamp (sent_to e n ss))"
  shows "aggregates_in (snd (fold (account_after e (to_idle_timeout (cfg_timer cfg)) n) ss nothing_timed)) ms"
proof -
  let ?sc = "to_values (cfg_timer cfg)" and ?I = "to_idle_timeout (cfg_timer cfg)"
  have opts: "pattern_opts cfg = []" "\<forall>t\<in>basic_tags. enabled (tags ?sc) t" "good_interval e ?sc" "timeout_ok e ?I"
    using assms(2,7) by (simp_all add: telling_options_def readable_options_def globals_ok_def)
  have computed: "\<forall>t\<in>{Tag_count, Tag_sum, Tag_min, Tag_max, Tag_value}. stat_computed (statistics_new ?sc) t"
    using opts(2) enabled_new unfolding basic_tags_def by blast
  have none: "select_pattern fnm (pattern_opts cfg) (destination_name (hd (sent_to e n ss))) = None"
    by (simp add: opts(1))
  have "\<forall>msg\<in>set (sent_to e n ss). created msg \<and> destination_type msg = DEST_TIMER"
    using sent_of_kind [OF assms(3-5)] by blast
  from lived_timer [OF assms(1) none this assms(8) opts(3,4)] obtain tm where tm: "m = M_timer tm"
    "timer_of e (cfg_timer cfg) (last (map timestamp (sent_to e n ss)))
       (fold (clocked e ?I) (sent_to e n ss) nothing_timed) tm" by blast
  have "fold (clocked e ?I) (sent_to e n ss) nothing_timed = fold (account_after e ?I n) ss nothing_timed"
    by (rule fold_sent_to) (use clocked_point assms(3,5) in blast)
  then have "timer_of e (cfg_timer cfg) (last (map timestamp (sent_to e n ss)))
      (fold (account_after e ?I n) ss nothing_timed) tm" using tm(2) by simp
  from timer_of_aggregates [OF opts(3) this computed] show ?thesis
    by (rule statistics_told [rotated 2])
      (use opts lived_config [OF assms(1)] assms(6) in \<open>simp_all add: tm(1) write_timer_def\<close>)
qed

lemma attribute_told:
  assumes "lived e J fnm cfg (sent_to e n ss) m" "\<forall>s\<in>set ss. step_ok e kinds s"
    and "\<forall>(n, msg)\<in>set (sends e ss). 0 < tick_pos (timestamp msg)" "kinds n = DEST_ATTRIBUTE"
    and "write_metric e te m = Inr (J_object ms)"
  shows "(''value'', attribute_json (fold (attribute_after n) ss (A_bool False))) \<in> set ms"
proof -
  have "\<forall>msg\<in>set (sent_to e n ss). created msg \<and> destination_type msg = DEST_ATTRIBUTE"
    using sent_of_kind [OF assms(2-4)] by blast
  from lived_attribute [OF assms(1) this]
  have m: "m = M_attribute \<lparr>a_value = fold told (sent_to e n ss) (A_bool False)\<rparr>" .
  have "fold told (sent_to e n ss) (A_bool False) = fold (attribute_after n) ss (A_bool False)"
    by (rule fold_sent_to) (use told_point assms(2,4) in blast)
  then show ?thesis using assms(5) by (auto simp: m write_attribute_def)
qed

lemma metric_told:
  assumes "lived e J fnm cfg (sent_to e n ss) m" "telling_options e cfg" "\<forall>s\<in>set ss. step_ok e kinds s"
    and "\<forall>(n, msg)\<in>set (sends e ss). 0 < tick_pos (timestamp msg)"
    and "write_metric e te m = Inr (J_object ms)" "globals_ok e cfg"
  shows "told_of e cfg ss n (kinds n) ms"
proof -
  have "sent_to e n ss \<noteq> []" using assms(1) by (simp add: lived_def)
  from hd_in_set [OF this] have "created (hd (sent_to e n ss))" "destination_type (hd (sent_to e n ss)) = kinds n"
    using sent_of_kind [OF assms(3,4)] by blast+
  then consider "kinds n = DEST_COUNTER" | "kinds n = DEST_GAUGE" | "kinds n = DEST_TIMER"
    | "kinds n = DEST_ATTRIBUTE"
    by (cases rule: created.cases) (auto simp: create_defs)
  then show ?thesis
  proof cases
    case 1
    then show ?thesis using counter_told [OF assms(1-4) 1 assms(5)] by (simp add: told_of_def codes)
  next
    case 2
    then show ?thesis using gauge_told [OF assms(1-4) 2 assms(5,6)] by (simp add: told_of_def)
  next
    case 3
    then show ?thesis using timer_told [OF assms(1-4) 3 assms(5,6)] by (simp add: told_of_def codes)
  next
    case 4
    then show ?thesis using attribute_told [OF assms(1,3,4) 4 assms(5)] by (simp add: told_of_def codes)
  qed
qed

subsection \<open>Properties\<close>

text \<open>Everything from \<open>initialize\<close> to the text of \<open>HANDY_JSON_DUMP\<close>: measuring points interleaved with
  rounds of the processor thread, rounds that drain the queue, and one more at a later time.\<close>

definition json_after ::
  "(json_value \<Rightarrow> string) \<Rightarrow> chrono_env \<Rightarrow> chrono_env \<Rightarrow> 'v rapidjson \<Rightarrow> (string \<Rightarrow> string \<Rightarrow> bool)
     \<Rightarrow> time_point \<Rightarrow> time_point \<Rightarrow> step list \<Rightarrow> round_clock list \<Rightarrow> round_clock \<Rightarrow> 'v program \<Rightarrow> string result" where
  "json_after pretty e te J fnm now mq_now ss clks clk st =
     bind_result (bind_result (drained_run e J fnm now mq_now ss clks st) (processor_round e J fnm clk))
       (\<lambda>st. handy_json_dump pretty e te (p_dump st))"

text \<open>The last round is later than every other by more than the dump interval.\<close>

definition last_is_due :: "chrono_env \<Rightarrow> duration \<Rightarrow> step list \<Rightarrow> round_clock list \<Rightarrow> round_clock \<Rightarrow> bool" where
  "last_is_due e interval ss clks clk \<longleftrightarrow> m_rep interval \<noteq> 0
     \<and> (\<forall>t\<in>insert time_point_default (round_times ss \<union> update_time_now ` set clks).
          dur_gt e (tp_diff e (update_time_now clk) t) interval)"

text \<open>C4: From the measuring points to the text a reader gets: after as many rounds as messages, when
  every round so far lies more than the dump interval back, one more publishes a dump whose JSON can be written and has an object for
  every name that was used, in which a counter has its last init value plus the sum of the changes
  since, a gauge the number, sum, least, greatest and last of the values since its last init event, a
  timer with messages in order of time the same of the times measured, and an attribute its last value.
  The least and the greatest are those the code starts from the largest finite double and from
  \<open>double_min\<close>, the smallest positive normal double, so the greatest of values that are all below it is
  \<open>double_min\<close>. This is for options without patterns, with neither the quantile nor the entropy tag
  (with these the JSON may fail), with a rate that is a number and with the five basic tags enabled for
  gauges and timers and the value for counters; for one kind of metric per name; and for time stamps
  past zero.\<close>

theorem json_reports_what_was_measured:
  assumes "env_ok e" "at_start e J st" "on_clock now" "on_clock mq_now"
    and "\<forall>s\<in>set ss. step_ok e kinds s" "distinct (map fst (sends e ss))" "length ss < 2 ^ 64"
    and "\<forall>clk\<in>set clks. round_ok clk" "length (sends e ss) \<le> length clks"
    and "round_ok clk" "last_is_due e (cfg_dump_interval (p_config st)) ss clks clk"
    and "telling_options e (p_config st)" "\<forall>(n, msg)\<in>set (sends e ss). 0 < tick_pos (timestamp msg)"
  shows "\<exists>members. json_after pretty e te J fnm now mq_now ss clks clk st = Inr (pretty (J_object members))
    \<and> (\<forall>n\<in>(\<lambda>(k, msg). destination_name msg) ` set (sends e ss). \<exists>ms. (c_str n, J_object ms) \<in> set members
        \<and> told_of e (p_config st) ss n (kinds n) ms)"
proof -
  let ?cfg = "p_config st"
  have start: "\<not> enabled_flag st" "globals_ok e ?cfg" using assms(2) by (simp_all add: at_start_def)
  obtain st1 where st1: "drained_run e J fnm now mq_now ss clks st = Inr st1" "program_inv e J kinds st1"
    "tracked e J fnm ?cfg [] (sends e ss) (length (sends e ss)) st1"
    by (rule drained_run_returns [OF assms(1-9)])
  note configs = drained_run_configs [OF st1(1) start(1)]
  then have "due e (cfg_dump_interval ?cfg) (update_time_now clk) (p_dump st1)"
    using assms(11) by (auto simp: last_is_due_def due_def)
  from idle_round_publishes [OF st1(2,3) assms(10) this] obtain st2 ts where
    st2: "processor_round e J fnm clk st1 = Inr st2"
    "tracked e J fnm ?cfg [] (sends e ss) (length (sends e ss)) st2"
    and dump: "get_dump (p_dump st2) = (\<lambda>n. case visible (p_internal st2) n of Some m \<Rightarrow> Some m
       | None \<Rightarrow> map_of (own_entries e (cfg_dump_interval ?cfg) ts (p_internal st2) (p_queue st2)
           (stats_dump_time (p_dump st2))) n)" .
  have own: "own_configs st2 = fresh_configs" using processor_round_configs(1) [OF st2(1)] configs by simp
  have readable: "readable_options e ?cfg" using assms(12) by (simp add: telling_options_def)
  from dump_is_written [OF st2(2) readable own dump] obtain vs where
    vs: "json_fill e te (get_dump (p_dump st2)) = Inr (J_object vs)"
    "\<And>n m. map_of (metrics (p_internal st2)) n = Some (Some m) \<Longrightarrow> shown m \<Longrightarrow>
       \<exists>v. write_metric e te m = Inr (J_object v) \<and> (c_str n, J_object v) \<in> set vs" by metis
  have "\<exists>ms. (c_str n, J_object ms) \<in> set vs \<and> told_of e ?cfg ss n (kinds n) ms"
    if "n \<in> (\<lambda>(k, msg). destination_name msg) ` set (sends e ss)" for n
  proof -
    have "sent_to e n ss \<noteq> []" using that by (force simp: filter_empty_conv)
    from tracked_metric [OF st2(2) this] obtain m where
      m: "map_of (metrics (p_internal st2)) n = Some (Some m)" "lived e J fnm ?cfg (sent_to e n ss) m" .
    then show ?thesis
      using vs(2) [OF m(1) lived_shown [OF m(2) assms(12)]] metric_told [OF m(2) assms(12,5,13) _ start(2)]
      by blast
  qed
  then show ?thesis
    using st1(1) st2(1) vs(1)
    by (intro exI [of _ vs]) (simp add: json_after_def handy_json_dump_def handy_metrics_dump_def json_to_string_def)
qed

definition late_round :: round_clock where
  "late_round = example_round\<lparr>update_time_now := tick_time 90000000000\<rparr>"

theorem json_reports_what_was_measured_witness:
  "\<exists>members ms. json_after (\<lambda>j. ''json'') example_env example_env example_json (=) (tick_time 5) (tick_time 5)
      gauge_steps [example_round, example_round, example_round] late_round program_unset = Inr ''json''
    \<and> (''g'', J_object ms) \<in> set members \<and> aggregates_in [3, 6] ms"
proof -
  have ok: "\<forall>s\<in>set gauge_steps. step_ok example_env (\<lambda>n. DEST_GAUGE) s"
    "distinct (map fst (sends example_env gauge_steps))"
    using example_round_ok example_clock created.intros
    by (simp_all add: gauge_steps_def message_ok_def create_defs)
  have run: "length gauge_steps < 2 ^ 64" "length (sends example_env gauge_steps) \<le> 3"
    "(\<lambda>(n, m). destination_name m) ` set (sends example_env gauge_steps) = {''g''}"
    "fold (values_after ''g'') gauge_steps [] = [3, 6]"
    "\<forall>(n, msg)\<in>set (sends example_env gauge_steps). 0 < tick_pos (timestamp msg)"
    by (simp_all add: gauge_steps_def create_defs tick_pos_def)
  have enabled: "enabled (tags stat_config_default) t" if "t \<in> basic_tags" for t
    using that by (auto simp: basic_tags_def stat_config_default_def enabled_def)
  have readable: "readable_config example_env stat_config_default"
    by (simp add: readable_config_def stat_config_default_def enabled_def)
  have opts: "telling_options example_env (p_config program_unset)"
    using example_timeout enabled readable
    by (simp add: telling_options_def readable_options_def program_unset_def config_reset_def
        gauge_opts_default_def counter_opts_default_def timer_opts_default_def basic_tags_def)
  have times: "round_times gauge_steps = {tick_time 9000000000}"
    "update_time_now ` set [example_round, example_round, example_round] = {tick_time 9000000000}"
    "update_time_now late_round = tick_time 90000000000"
    "cfg_dump_interval (p_config program_unset) = dur 750 MSEC"
    by (simp_all add: gauge_steps_def late_round_def example_round_def program_unset_def config_reset_def
        dump_interval_default_def)
  have later: "dur_gt example_env (tp_diff example_env (tick_time 90000000000) (tick_time 9000000000)) (dur 750 MSEC)"
    "dur_gt example_env (tp_diff example_env (tick_time 90000000000) time_point_default) (dur 750 MSEC)"
    by (simp_all add: tp_diff_def dur_sub_def dur_gt_def time_point_default_def duration_default_def
        dur_convert_to_def real_to_int64_def trunc_def less_eq_time_unit_def)
  have last: "last_is_due example_env (cfg_dump_interval (p_config program_unset)) gauge_steps
      [example_round, example_round, example_round] late_round"
    unfolding last_is_due_def times using later by simp
  have late: "round_ok late_round"
    using example_round_ok by (simp add: round_ok_def late_round_def on_clock_def on_tick_line_def tick_pos_def)
  show ?thesis
    using json_reports_what_was_measured [OF program_unset_ok _ _ ok run(1) _ _ late last opts run(5),
        of "tick_time 5" "tick_time 5" "\<lambda>j. ''json''" example_env "(=)"] example_round_ok example_clock run(2-4)
    by (auto simp: told_of_def c_str_def)
qed

end
