(* ===== verification/Quantiles.thy ===== *)
theory Quantiles
  imports Histogram_Laws
begin

section \<open>What a quantile is\<close>

text \<open>
  The extractor of \<open>src/statistics.cpp\<close> against its mathematical meaning. A histogram stands for a
  weight spread over the line, with a density that is linear between neighbouring centers and falls
  to zero at an edge before the first and one after the last bin. The quantile of a probability is
  the place with that share of the weight to its left.
\<close>

subsection \<open>The weight to the left of a place\<close>

text \<open>Bins and edges by position, from \<open>-1\<close> for the edge in front to the length for the edge behind.\<close>

definition mean_center :: "bin \<Rightarrow> bin \<Rightarrow> real" where
  "mean_center l r = (bin_center l * bin_count l + bin_center r * bin_count r) / (bin_count l + bin_count r)"

definition place :: "histogram \<Rightarrow> int \<Rightarrow> real" where
  "place h i =
     (if i = -1 then 2 * bin_center (h ! 0) - mean_center (h ! 0) (h ! 1)
      else if i < int (length h) then bin_center (h ! nat i)
      else 2 * bin_center (last h) - mean_center (h ! (length h - 2)) (last h))"

definition count_at :: "histogram \<Rightarrow> int \<Rightarrow> real" where
  "count_at h i = (if i = -1 \<or> int (length h) \<le> i then 0 else bin_count (h ! nat i))"

text \<open>The place a part \<open>z\<close> of the way from one position to the next, and the weight to its left.\<close>

definition place_between :: "histogram \<Rightarrow> int \<Rightarrow> real \<Rightarrow> real" where
  "place_between h i z = place h i + (place h (i + 1) - place h i) * z"

definition weight_left_of :: "histogram \<Rightarrow> int \<Rightarrow> real \<Rightarrow> real" where
  "weight_left_of h i z = (weight h - rest_weight h i)
     + (count_at h i * z + (count_at h (i + 1) - count_at h i) * z\<^sup>2 / 2)"

lemma volume_counts: "volume h i = (count_at h i + count_at h (i + 1)) / 2"
  if "-1 \<le> i" "i < int (length h)"
  using that by (auto simp: volume_def count_at_def)

text \<open>The weight left of the first place is none, that left of the last is all, and crossing a
  position neither loses nor gains any.\<close>

lemma weight_left_of_ends:
  "weight_left_of h (-1) 0 = 0" "h \<noteq> [] \<Longrightarrow> weight_left_of h (int (length h) - 1) 1 = weight h"
proof -
  show "weight_left_of h (-1) 0 = 0" by (simp add: weight_left_of_def)
  assume "h \<noteq> []"
  then have "rest_weight h (int (length h) - 1) = volume h (int (length h) - 1)"
    using rest_weight_step [of "int (length h) - 1" h] by simp
  then show "weight_left_of h (int (length h) - 1) 1 = weight h"
    using volume_counts [of "int (length h) - 1" h] \<open>h \<noteq> []\<close> by (simp add: weight_left_of_def field_simps)
qed

lemma weight_left_of_joins:
  "-1 \<le> i \<Longrightarrow> i < int (length h) \<Longrightarrow> weight_left_of h i 1 = weight_left_of h (i + 1) 0"
  using rest_weight_step [of i h] volume_counts [of i h] by (simp add: weight_left_of_def field_simps)

lemma count_at_nonneg: "counts_nonneg h \<Longrightarrow> 0 \<le> count_at h i" if "-1 \<le> i"
  using that nth_mem [of "nat i" h] by (auto simp: count_at_def counts_nonneg_def)

lemma weight_left_of_mono:
  assumes "counts_nonneg h" "-1 \<le> i" "0 \<le> y" "y \<le> z" "z \<le> 1"
  shows "weight_left_of h i y \<le> weight_left_of h i z"
proof -
  let ?l = "count_at h i" and ?r = "count_at h (i + 1)"
  have "0 \<le> (z - y) * (?l * (2 - (y + z)) + ?r * (y + z))"
    using assms count_at_nonneg [OF _ assms(1), of i] count_at_nonneg [OF _ assms(1), of "i + 1"]
    by (intro mult_nonneg_nonneg add_nonneg_nonneg) auto
  then show ?thesis by (simp add: weight_left_of_def field_simps power2_eq_square)
qed

lemma mean_center_between:
  assumes "0 \<le> bin_count l" "0 \<le> bin_count r" "0 < bin_count l + bin_count r" "bin_center l \<le> bin_center r"
  shows "bin_center l \<le> mean_center l r" "mean_center l r \<le> bin_center r"
  using average_between [OF assms] by (simp_all add: mean_center_def)

lemma place_mono:
  assumes "centers_sorted h" "2 \<le> length h" "\<forall>b\<in>set h. 0 < bin_count b" "-1 \<le> i" "i < int (length h)"
  shows "place h i \<le> place h (i + 1)"
proof -
  have c: "bin_center (h ! j) \<le> bin_center (h ! k)" if "j < k" "k < length h" for j k
    using assms(1) that by (simp add: centers_sorted_nth)
  have pos: "0 < bin_count (h ! j)" if "j < length h" for j using assms(3) that by simp
  have ne: "h \<noteq> []" using assms(2) by auto
  then have last: "last h = h ! (length h - 1)" by (rule last_conv_nth)
  consider "i = -1" | "0 \<le> i" "i + 1 < int (length h)" | "i + 1 = int (length h)"
    using assms(4,5) by linarith
  then show ?thesis
  proof cases
    case 1
    have "bin_center (h ! 0) \<le> mean_center (h ! 0) (h ! 1)"
      using c [of 0 1] pos [of 0] pos [of 1] assms(2) ne by (intro mean_center_between) auto
    then show ?thesis using 1 ne by (simp add: place_def)
  next
    case 2
    then show ?thesis using c [of "nat i" "nat (i + 1)"] by (simp add: place_def nat_less_iff)
  next
    case 3
    have lt: "length h - 2 < length h - 1" "length h - 1 < length h" using assms(2) by linarith+
    have "mean_center (h ! (length h - 2)) (last h) \<le> bin_center (last h)"
      using c [OF lt] pos [of "length h - 2"] pos [OF lt(2)] lt unfolding last
      by (intro mean_center_between) auto
    moreover have "nat i = length h - 1" using 3 by linarith
    ultimately show ?thesis using 3 assms(2) last by (auto simp: place_def)
  qed
qed

subsection \<open>The root in the unit interval\<close>

definition near_unit :: "real \<Rightarrow> bool" where
  "near_unit z \<longleftrightarrow> - (4 * epsilon_double) \<le> z \<and> z \<le> 1 + 4 * epsilon_double"

lemma first_in_unit_finds:
  "\<exists>z\<in>set zs. near_unit z \<Longrightarrow> \<exists>z\<in>set zs. first_in_unit zs = Inr z \<and> near_unit z"
  by (induction zs) (auto simp: near_unit_def cmp_ge_0_iff cmp_le_0_iff)

lemma near_unit_between: "0 \<le> z \<Longrightarrow> z \<le> 1 \<Longrightarrow> near_unit z"
  using epsilon_nonneg(1) unfolding near_unit_def by linarith

lemma find_z_regular:
  fixes a b c :: real
  defines "s \<equiv> sqrt (b * b - 4 * a * c)"
  assumes "cmp_ld a 0 \<noteq> 0" "0 < cmp_ld (b * b - 4 * a * c) 0" "near_unit ((s - b) / 2 / a)"
  shows "\<exists>z. find_z a b c = Inr z \<and> near_unit z \<and> a * z\<^sup>2 + b * z + c = 0"
proof -
  let ?zs = "[(- s - b) / 2 / a, (s - b) / 2 / a]"
  have "a \<noteq> 0" "0 < b * b - 4 * a * c" using cmp_ld_nonzero [OF assms(2)] cmp_ld_pos [OF assms(3)] by auto
  then have roots: "a * z\<^sup>2 + b * z + c = 0" if "z \<in> set ?zs" for z
    using that quadratic_factors [of a s b c z] by (auto simp: s_def)
  have "\<exists>z\<in>set ?zs. near_unit z" using assms(4) by simp
  from first_in_unit_finds [OF this] obtain z where "z \<in> set ?zs" "first_in_unit ?zs = Inr z" "near_unit z"
    by blast
  then show ?thesis
    using roots solve_quadratic_regular [OF assms(2,3)] unfolding find_z_def s_def [symmetric] by auto
qed

text \<open>Two positions with a count of two or more each, or with the edge behind.\<close>

lemma find_z_level:
  fixes l r q :: real
  assumes "2 \<le> l" "- (4 * epsilon_double) \<le> q" "q + 4 * epsilon_double < (l + r) / 2" "cmp_ld (r - l) 0 = 0"
  shows "\<exists>z. find_z (r - l) (2 * l) (- 2 * q) = Inr z \<and> near_unit z
    \<and> \<bar>l * z + (r - l) * z\<^sup>2 / 2 - q\<bar> \<le> epsilon_double"
proof -
  have a: "r - l \<le> 4 * epsilon_long_double" "\<bar>r - l\<bar> \<le> 4 * epsilon_long_double"
    using assms(4) by (simp_all add: cmp_eq_0_iff abs_le_iff)
  define z where "z = q / l"
  have z: "- (4 * epsilon_double) \<le> z" "z \<le> 1"
    using a(1) assms(1-3) epsilon_less
    by (simp_all add: z_def pos_le_divide_eq pos_divide_le_eq epsilon_double_def epsilon_long_double_def)
  have "\<bar>z\<bar> \<le> 1" using z by (simp add: epsilon_double_def)
  then have "z\<^sup>2 \<le> 1" by (simp add: abs_square_le_1)
  then have "\<bar>r - l\<bar> * z\<^sup>2 \<le> 4 * epsilon_long_double * 1" using a(2) by (intro mult_mono) auto
  then have "\<bar>(r - l) * z\<^sup>2 / 2\<bar> \<le> 4 * epsilon_long_double * 1 / 2" by (simp add: abs_mult)
  also have "\<dots> \<le> epsilon_double" by (simp add: epsilon_double_def epsilon_long_double_def)
  finally have "\<bar>l * z + (r - l) * z\<^sup>2 / 2 - q\<bar> \<le> epsilon_double" using assms(1) by (simp add: z_def)
  moreover have "solve_quadratic (r - l) (2 * l) (- 2 * q) = Inr [z]"
    using assms(1,4) by (simp add: solve_quadratic_def z_def) (simp add: cmp_def epsilon_long_double_def)
  moreover have "near_unit z" using z epsilon_nonneg(1) unfolding near_unit_def by linarith
  moreover from this have "first_in_unit [z] = Inr z" by (simp add: near_unit_def cmp_iffs)
  ultimately show ?thesis by (simp add: find_z_def)
qed

text \<open>The discriminant is far from zero, and the greater root is in reach.\<close>

lemma discriminant_big:
  fixes l r q :: real
  assumes l: "2 \<le> l" "l \<le> 2 ^ 40" and r: "r = 0 \<or> 2 \<le> r" "r \<le> 2 ^ 40"
    and q: "- (4 * epsilon_double) \<le> q" "q + 4 * epsilon_double < (l + r) / 2"
  shows "2 * epsilon_double < 4 * l * l + 8 * (r - l) * q"
proof (cases "l \<le> r")
  case True
  have "(r - l) * (- (4 * epsilon_double)) \<le> (r - l) * q" using True q(1) by (intro mult_left_mono) auto
  moreover have "(r - l) * (4 * epsilon_double) \<le> 2 ^ 40 * (4 * epsilon_double)"
    using l r(2) by (intro mult_right_mono) auto
  moreover have "2 * 2 \<le> l * l" using l by (intro mult_mono) auto
  moreover have "2 ^ 40 * (4 * epsilon_double) \<le> 1" "2 * epsilon_double \<le> 1"
    by (simp_all add: epsilon_double_def)
  ultimately show ?thesis unfolding mult.assoc by argo
next
  case False
  define v where "v = (l + r) / 2 - q"
  have d: "4 * l * l + 8 * (r - l) * q = 4 * (r * r) + 8 * ((l - r) * v)" by (simp add: v_def field_simps)
  have v: "4 * epsilon_double < v" "0 \<le> v" using q(2) epsilon_nonneg(1) unfolding v_def by linarith+
  show ?thesis
  proof (cases "r = 0")
    case True
    have "2 * (4 * epsilon_double) \<le> l * v" using l v by (intro mult_mono) auto
    moreover have "4 * l * l + 8 * (r - l) * q = 8 * (l * v)" using d \<open>r = 0\<close> by simp
    ultimately show ?thesis using epsilon_pos(1) by linarith
  next
    case False
    then have "2 * 2 \<le> r * r" using r by (intro mult_mono) auto
    moreover have "0 \<le> (l - r) * v" using \<open>\<not> l \<le> r\<close> v(2) by (intro mult_nonneg_nonneg) auto
    ultimately show ?thesis using d by (simp add: epsilon_double_def)
  qed
qed

lemma root_near_unit:
  fixes l r q s :: real
  assumes "2 \<le> l" "- (4 * epsilon_double) \<le> q" "q + 4 * epsilon_double < (l + r) / 2" "r - l \<noteq> 0"
    and s: "0 < s" "s * s = 4 * l * l + 8 * (r - l) * q"
  shows "near_unit ((s - 2 * l) / 2 / (r - l))"
proof -
  have "(s - 2 * l) * (s + 2 * l) = s * s - 4 * l * l" by (simp add: algebra_simps)
  then have "(s - 2 * l) * (s + 2 * l) = 8 * (r - l) * q" unfolding s(2) by simp
  moreover have "s + 2 * l \<noteq> 0" using s(1) assms(1) by auto
  ultimately have z: "(s - 2 * l) / 2 / (r - l) = 4 * q / (s + 2 * l)" using assms(4) by (simp add: field_simps)
  have "4 * q \<le> s + 2 * l"
  proof (cases "4 * q \<le> 2 * l")
    case False
    moreover have "2 * q \<le> l + r" using assms(3) epsilon_pos(1) by argo
    ultimately have "0 \<le> q * (l + r - 2 * q)" using assms(1) by (intro mult_nonneg_nonneg) auto
    moreover have "(4 * q - 2 * l)\<^sup>2 = 4 * l * l + 8 * (r - l) * q - 8 * (q * (l + r - 2 * q))"
      by (simp add: power2_eq_square algebra_simps)
    ultimately have "(4 * q - 2 * l)\<^sup>2 \<le> s\<^sup>2" unfolding power2_eq_square [of s] s(2) by linarith
    then have "4 * q - 2 * l \<le> s" using less_imp_le [OF s(1)] by (rule power2_le_imp_le)
    then show ?thesis by simp
  qed (use s in simp)
  moreover have "- (4 * epsilon_double) * (s + 2 * l) \<le> 4 * q"
  proof -
    have "epsilon_double * 4 \<le> epsilon_double * (s + 2 * l)" using s assms(1) by (intro mult_left_mono) auto
    then show ?thesis using assms(2) by argo
  qed
  ultimately have "4 * q / (s + 2 * l) \<le> 1" "- (4 * epsilon_double) \<le> 4 * q / (s + 2 * l)"
    using s assms(1)
    by (simp_all only: pos_le_divide_eq pos_divide_le_eq add_pos_pos mult_pos_pos zero_less_numeral) argo+
  then show ?thesis unfolding z near_unit_def using epsilon_nonneg(1) by argo
qed

lemma find_z_inner:
  fixes l r q :: real
  assumes l: "2 \<le> l" "l \<le> 2 ^ 40" and r: "r = 0 \<or> 2 \<le> r" "r \<le> 2 ^ 40"
    and q: "- (4 * epsilon_double) \<le> q" "q + 4 * epsilon_double < (l + r) / 2"
  shows "\<exists>z. find_z (r - l) (2 * l) (- 2 * q) = Inr z \<and> near_unit z
    \<and> \<bar>l * z + (r - l) * z\<^sup>2 / 2 - q\<bar> \<le> epsilon_double"
proof (cases "cmp_ld (r - l) 0 = 0")
  case True
  then show ?thesis by (rule find_z_level [OF l(1) q])
next
  case False
  define d where "d = 4 * l * l + 8 * (r - l) * q"
  have big: "2 * epsilon_double < d" unfolding d_def by (rule discriminant_big [OF assms])
  then have "0 < d" using epsilon_pos(1) by linarith
  then have "0 < sqrt d" "sqrt d * sqrt d = 4 * l * l + 8 * (r - l) * q" by (simp_all add: d_def)
  moreover have "r - l \<noteq> 0" using cmp_ld_nonzero [OF False] .
  ultimately have "near_unit ((sqrt d - 2 * l) / 2 / (r - l))" by (intro root_near_unit [OF l(1) q])
  moreover have "2 * l * (2 * l) - 4 * (r - l) * (- 2 * q) = d" by (simp add: d_def)
  moreover have "0 < cmp_ld d 0" using big by (simp add: cmp_def epsilon_double_def epsilon_long_double_def)
  ultimately obtain z where "find_z (r - l) (2 * l) (- 2 * q) = Inr z" "near_unit z"
    "(r - l) * z\<^sup>2 + 2 * l * z + - 2 * q = 0"
    using find_z_regular [of "r - l" "2 * l" "- 2 * q"] False by auto
  then show ?thesis using epsilon_nonneg(1) by (intro exI [of _ z]) (simp add: field_simps)
qed

lemma cmp_ld_small: "0 \<le> x \<Longrightarrow> \<not> 0 < cmp_ld x 0 \<Longrightarrow> cmp_ld x 0 = 0 \<and> x \<le> 4 * epsilon_long_double"
  using epsilon_pos(2) unfolding cmp_def by (auto split: if_splits)

text \<open>The edge in front and the first bin.\<close>

lemma find_z_first:
  fixes r q :: real
  assumes "2 \<le> r" "0 \<le> q" "q + 4 * epsilon_double < r / 2"
  shows "\<exists>z. find_z (r - 0) (2 * 0) (- 2 * q) = Inr z \<and> near_unit z
    \<and> \<bar>0 * z + (r - 0) * z\<^sup>2 / 2 - q\<bar> \<le> epsilon_double"
proof -
  have a: "cmp_ld (r - 0) 0 \<noteq> 0" using assms(1) by (simp add: cmp_def epsilon_long_double_def)
  have d: "2 * 0 * (2 * 0) - 4 * (r - 0) * (- 2 * q) = 8 * r * q" by simp
  show ?thesis
  proof (cases "0 < cmp_ld (8 * r * q) 0")
    case True
    have "2 * q \<le> r" using assms(3) epsilon_pos(1) by linarith
    then have "8 * r * q \<le> (2 * r)\<^sup>2" using assms(1) by (simp add: power2_eq_square)
    then have "sqrt (8 * r * q) \<le> 2 * r" using assms(1) by (intro real_le_lsqrt) auto
    then have "near_unit ((sqrt (8 * r * q) - 2 * 0) / 2 / (r - 0))"
      using assms(1,2) by (intro near_unit_between) (simp_all add: pos_divide_le_eq)
    then obtain z where "find_z (r - 0) (2 * 0) (- 2 * q) = Inr z" "near_unit z"
      "(r - 0) * z\<^sup>2 + 2 * 0 * z + - 2 * q = 0"
      using find_z_regular [of "r - 0" "2 * 0" "- 2 * q"] a True unfolding d by blast
    then show ?thesis using epsilon_nonneg(1) by (intro exI [of _ z]) (simp add: field_simps)
  next
    case False
    have rq: "2 * q \<le> r * q" using assms(1,2) by (intro mult_right_mono)
    moreover have "0 \<le> 8 * r * q" using assms(1,2) by simp
    note small = cmp_ld_small [OF this False]
    ultimately have "q \<le> epsilon_double" using assms(2) by (simp add: epsilon_double_def epsilon_long_double_def)
    moreover have "cmp_ld (8 * (r * q)) 0 = 0" using small by (simp add: mult.assoc)
    moreover have "cmp_d 0 1 \<le> 0" "0 \<le> cmp_d 0 0" by (simp_all add: cmp_def epsilon_double_def)
    ultimately have "find_z (r - 0) (2 * 0) (- 2 * q) = Inr 0" "q \<le> epsilon_double"
      using a by (simp_all add: find_z_def solve_quadratic_def Let_def)
    moreover have "near_unit 0" by (rule near_unit_between) simp_all
    ultimately show ?thesis using assms(2) by (intro exI [of _ 0]) simp
  qed
qed

subsection \<open>The extractor\<close>

lemma quantile_scan_rest:
  assumes "-1 \<le> i" "quantile_scan h i req = (j, r)"
  shows "r = req - (rest_weight h i - rest_weight h j)"
  using assms
proof (induction "nat (int (length h) - i)" arbitrary: i req)
  case (Suc n)
  then have i: "i < int (length h)" by linarith
  show ?case
  proof (cases "cmp_d (volume h i) req \<le> 0")
    case True
    then have "quantile_scan h (i + 1) (req - volume h i) = (j, r)"
      using Suc.prems i by (simp add: quantile_scan_step [of h i req])
    moreover have "n = nat (int (length h) - (i + 1))" using Suc.hyps(2) by linarith
    ultimately have "r = req - volume h i - (rest_weight h (i + 1) - rest_weight h j)"
      using Suc.hyps(1) Suc.prems(1) by simp
    then show ?thesis using rest_weight_step [of i h] Suc by simp
  qed (use Suc.prems in \<open>simp add: quantile_scan_step [of h i req]\<close>)
qed (use quantile_scan_step in auto)

lemma weighted_average_mean:
  "2 \<le> bin_count l \<Longrightarrow> 2 \<le> bin_count r \<Longrightarrow>
    weighted_average (bin_center l) (bin_count l) (bin_center r) (bin_count r) = Inr (mean_center l r)"
  by (subst weighted_average_ok) (auto simp: mean_center_def cmp_def epsilon_long_double_def)

lemma quantile_bins_places:
  assumes "2 \<le> length h" "\<forall>b\<in>set h. 2 \<le> bin_count b" "-1 \<le> j" "j < int (length h)"
  shows "\<exists>l r. quantile_bins h j = Inr (l, r) \<and> bin_center l = place h j \<and> bin_center r = place h (j + 1)
    \<and> bin_count l = count_at h j \<and> bin_count r = count_at h (j + 1)"
proof -
  have two: "2 \<le> bin_count (h ! k)" if "k < length h" for k using assms(2) that by simp
  have ne: "h \<noteq> []" using assms(1) by auto
  then have last: "last h = h ! (length h - 1)" by (rule last_conv_nth)
  consider "j = -1" | "0 \<le> j" "j + 1 < int (length h)" | "j + 1 = int (length h)"
    using assms(3,4) by linarith
  then show ?thesis
  proof cases
    case 1
    then show ?thesis
      using weighted_average_mean [of "h ! 0" "h ! 1"] two [of 0] two [of 1] assms(1) ne
      by (auto simp: quantile_bins_def place_def count_at_def)
  next
    case 2
    then show ?thesis by (simp add: quantile_bins_def place_def count_at_def)
  next
    case 3
    then have "nat (j - 1) = length h - 2" "nat j = length h - 1" by linarith+
    then show ?thesis
      using 3 weighted_average_mean [of "h ! (length h - 2)" "last h"] two [of "length h - 2"]
        two [of "length h - 1"] assms(1) last
      by (auto simp: quantile_bins_def place_def count_at_def)
  qed
qed

text \<open>In the half-bin the scan stops at, \<open>find_z\<close> finds the place.\<close>

lemma half_bin_root:
  assumes "2 \<le> length h" "\<forall>b\<in>set h. 2 \<le> bin_count b \<and> bin_count b \<le> 2 ^ 40"
    and "-1 \<le> j" "j < int (length h)" "q + 4 * epsilon_double < volume h j" "- (4 * epsilon_double) \<le> q"
    and "j = -1 \<longrightarrow> 0 \<le> q"
  shows "\<exists>z. find_z (count_at h (j + 1) - count_at h j) (2 * count_at h j) (- 2 * q) = Inr z \<and> near_unit z
    \<and> \<bar>count_at h j * z + (count_at h (j + 1) - count_at h j) * z\<^sup>2 / 2 - q\<bar> \<le> epsilon_double"
proof -
  have counts: "count_at h i = 0 \<and> (i = -1 \<or> int (length h) \<le> i) \<or> 2 \<le> count_at h i \<and> count_at h i \<le> 2 ^ 40"
    if "-1 \<le> i" for i
    using assms(2) that nth_mem [of "nat i" h] by (auto simp: count_at_def)
  show ?thesis
  proof (cases "j = -1")
    case True
    then show ?thesis
      using find_z_first [of "count_at h 0" q] counts [of 0] assms(1,5,7) volume_counts [of j h]
      by (auto simp: count_at_def)
  next
    case False
    then show ?thesis
      using find_z_inner [of "count_at h j" "count_at h (j + 1)" q] counts [of j] counts [of "j + 1"] assms(3-6)
        volume_counts [of j h]
      by auto
  qed
qed

text \<open>C27: For a histogram of two bins or more, in order, whose counts are between 2 and \<open>2 ^ 40\<close>, and for
  a probability that is not negative and leaves a weight of more than four epsilons beyond it (for
  others the extractor may throw or read out of bounds), it returns, and what it returns is the quantile: a place
  between two neighbouring bins (or a bin and the edge beyond the first or last) that has this share
  of the weight to its left, up to one machine epsilon.\<close>

theorem quantile_splits_the_weight:
  assumes "centers_sorted h" "2 \<le> length h" "\<forall>b\<in>set h. 2 \<le> bin_count b \<and> bin_count b \<le> 2 ^ 40"
    and "0 \<le> probability" "4 * epsilon_double < weight h * (1 - probability)"
  shows "\<exists>i z. quantile_at h probability = Inr (place_between h i z)
    \<and> -1 \<le> i \<and> i < int (length h) \<and> place h i \<le> place h (i + 1) \<and> near_unit z
    \<and> \<bar>weight_left_of h i z - weight h * probability\<bar> \<le> epsilon_double"
proof -
  have nonneg: "counts_nonneg h" using assms(3) by (fastforce simp: counts_nonneg_def)
  have pos: "0 \<le> weight h * probability" using assms(4) weight_nonneg [OF nonneg] by simp
  have w: "4 * epsilon_double < weight h"
    using assms(5) pos by (simp add: algebra_simps)
  have below: "weight h * probability + 4 * epsilon_double < weight h"
    "- (4 * epsilon_double) \<le> weight h * probability"
    using assms(5) pos epsilon_nonneg(1) by (simp add: algebra_simps, linarith)
  obtain j q where j: "quantile_scan h (-1) (weight h * probability) = (j, q)" "-1 \<le> j" "j < int (length h)"
      "q + 4 * epsilon_double < volume h j" "- (4 * epsilon_double) \<le> q"
      "j = -1 \<longrightarrow> q = weight h * probability"
    using quantile_scan_stops [of "-1" h "weight h * probability"] below pos by auto
  have rest: "q = weight h * probability - (weight h - rest_weight h j)"
    using quantile_scan_rest [OF _ j(1)] by simp
  obtain l r where lr: "quantile_bins h j = Inr (l, r)" "bin_center l = place h j"
      "bin_center r = place h (j + 1)" "bin_count l = count_at h j" "bin_count r = count_at h (j + 1)"
    using quantile_bins_places [OF assms(2) _ j(2,3)] assms(3) by auto
  obtain z where z: "find_z (bin_count r - bin_count l) (2 * bin_count l) (- 2 * q) = Inr z" "near_unit z"
      "\<bar>bin_count l * z + (bin_count r - bin_count l) * z\<^sup>2 / 2 - q\<bar> \<le> epsilon_double"
    using half_bin_root [OF assms(2,3) j(2-5)] j(6) pos lr(4,5) by auto
  have "quantile_at h probability = Inr (place_between h j z)"
    using assms(2) w j(1) lr z(1)
    by (auto simp: quantile_at_def Let_def total_count_weight cmp_le_0_iff place_between_def)
  moreover have "\<bar>weight_left_of h j z - weight h * probability\<bar> \<le> epsilon_double"
    using z(3) rest lr(4,5) by (simp add: weight_left_of_def)
  moreover have "place h j \<le> place h (j + 1)"
    using assms(1-3) j(2,3) by (intro place_mono) force+
  ultimately show ?thesis using z(2) j(2,3) by blast
qed

theorem quantile_splits_the_weight_witness:
  "\<exists>i z. quantile_at [\<lparr>bin_center = 1, bin_count = 2, bin_timestamp = time_point_default\<rparr>,
       \<lparr>bin_center = 4, bin_count = 6, bin_timestamp = time_point_default\<rparr>] (1 / 4)
     = Inr (place_between [\<lparr>bin_center = 1, bin_count = 2, bin_timestamp = time_point_default\<rparr>,
       \<lparr>bin_center = 4, bin_count = 6, bin_timestamp = time_point_default\<rparr>] i z)"
  using quantile_splits_the_weight [of "[\<lparr>bin_center = 1, bin_count = 2, bin_timestamp = time_point_default\<rparr>,
       \<lparr>bin_center = 4, bin_count = 6, bin_timestamp = time_point_default\<rparr>]" "1 / 4"]
  by (auto simp: epsilon_double_def)

end
