(* ===== verification/Client_Api.thy ===== *)
theory Client_Api
  imports Measuring_Points
begin

section \<open>Proxies and the C interface\<close>

text \<open>
  The other ways to reach the measuring points: proxy objects that keep a name
  (\<open>include/handystats/measuring_points/\<close>, \<open>*_proxy.hpp\<close>) and the C functions of
  \<open>src/measuring_points/\<close>, whose time stamp is always a reading \<open>now\<close> of the clock.
\<close>

subsection \<open>Proxies\<close>

text \<open>The constructor with a value sends an init event too.\<close>

record counter_proxy = cp_name :: string

definition counter_proxy_new ::
  "node_id \<Rightarrow> string \<Rightarrow> int64 \<Rightarrow> time_point \<Rightarrow> 'v program \<Rightarrow> 'v program \<times> counter_proxy" where
  "counter_proxy_new n name init_value t st =
     (mp_counter_init n name init_value t st, \<lparr>cp_name = name\<rparr>)"

definition counter_proxy_init ::
  "node_id \<Rightarrow> counter_proxy \<Rightarrow> int64 \<Rightarrow> time_point \<Rightarrow> 'v program \<Rightarrow> 'v program" where
  "counter_proxy_init n p value t st = mp_counter_init n (cp_name p) value t st"

definition counter_proxy_increment ::
  "node_id \<Rightarrow> counter_proxy \<Rightarrow> int64 \<Rightarrow> time_point \<Rightarrow> 'v program \<Rightarrow> 'v program" where
  "counter_proxy_increment n p value t st = mp_counter_increment n (cp_name p) value t st"

definition counter_proxy_decrement ::
  "node_id \<Rightarrow> counter_proxy \<Rightarrow> int64 \<Rightarrow> time_point \<Rightarrow> 'v program \<Rightarrow> 'v program" where
  "counter_proxy_decrement n p value t st = mp_counter_decrement n (cp_name p) value t st"

definition counter_proxy_change ::
  "node_id \<Rightarrow> counter_proxy \<Rightarrow> int64 \<Rightarrow> time_point \<Rightarrow> 'v program \<Rightarrow> 'v program" where
  "counter_proxy_change n p value t st = mp_counter_change n (cp_name p) value t st"

record gauge_proxy = gp_name :: string

definition gauge_proxy_new ::
  "node_id \<Rightarrow> string \<Rightarrow> real \<Rightarrow> time_point \<Rightarrow> 'v program \<Rightarrow> 'v program \<times> gauge_proxy" where
  "gauge_proxy_new n name init_value t st =
     (mp_gauge_init n name init_value t st, \<lparr>gp_name = name\<rparr>)"

definition gauge_proxy_init ::
  "node_id \<Rightarrow> gauge_proxy \<Rightarrow> real \<Rightarrow> time_point \<Rightarrow> 'v program \<Rightarrow> 'v program" where
  "gauge_proxy_init n p value t st = mp_gauge_init n (gp_name p) value t st"

definition gauge_proxy_set ::
  "node_id \<Rightarrow> gauge_proxy \<Rightarrow> real \<Rightarrow> time_point \<Rightarrow> 'v program \<Rightarrow> 'v program" where
  "gauge_proxy_set n p value t st = mp_gauge_set n (gp_name p) value t st"

text \<open>The overloads of an attribute proxy choose the instance for the type of the value.\<close>

record attribute_proxy = ap_name :: string

fun attribute_proxy_set ::
  "node_id \<Rightarrow> attribute_proxy \<Rightarrow> attribute_value \<Rightarrow> time_point \<Rightarrow> 'v program \<Rightarrow> 'v program" where
  "attribute_proxy_set n p (A_bool b) t st = mp_attribute_set_bool n (ap_name p) b t st"
| "attribute_proxy_set n p (A_int i) t st = mp_attribute_set_int n (ap_name p) i t st"
| "attribute_proxy_set n p (A_unsigned u) t st = mp_attribute_set_unsigned n (ap_name p) u t st"
| "attribute_proxy_set n p (A_int64 i64) t st = mp_attribute_set_int64 n (ap_name p) i64 t st"
| "attribute_proxy_set n p (A_uint64 u64) t st = mp_attribute_set_uint64 n (ap_name p) u64 t st"
| "attribute_proxy_set n p (A_double d) t st = mp_attribute_set_double n (ap_name p) d t st"
| "attribute_proxy_set n p (A_string s) t st = mp_attribute_set_string n (ap_name p) s t st"

text \<open>
  The proxy of a timer also keeps an instance, which goes before the instance of the call unless it
  is the default one.
\<close>

record timer_proxy =
  proxy_name :: string
  proxy_instance_id :: instance_id

definition choose_instance_id :: "timer_proxy \<Rightarrow> instance_id \<Rightarrow> instance_id" where
  "choose_instance_id p i =
     (if proxy_instance_id p \<noteq> default_instance_id then proxy_instance_id p else i)"

definition timer_proxy_init :: "node_id \<Rightarrow> timer_proxy \<Rightarrow> instance_id \<Rightarrow> time_point \<Rightarrow> 'v program \<Rightarrow> 'v program" where
  "timer_proxy_init n p i t st = mp_timer_init n (proxy_name p) (choose_instance_id p i) t st"

definition timer_proxy_start :: "node_id \<Rightarrow> timer_proxy \<Rightarrow> instance_id \<Rightarrow> time_point \<Rightarrow> 'v program \<Rightarrow> 'v program" where
  "timer_proxy_start n p i t st = mp_timer_start n (proxy_name p) (choose_instance_id p i) t st"

definition timer_proxy_stop :: "node_id \<Rightarrow> timer_proxy \<Rightarrow> instance_id \<Rightarrow> time_point \<Rightarrow> 'v program \<Rightarrow> 'v program" where
  "timer_proxy_stop n p i t st = mp_timer_stop n (proxy_name p) (choose_instance_id p i) t st"

definition timer_proxy_discard :: "node_id \<Rightarrow> timer_proxy \<Rightarrow> instance_id \<Rightarrow> time_point \<Rightarrow> 'v program \<Rightarrow> 'v program" where
  "timer_proxy_discard n p i t st = mp_timer_discard n (proxy_name p) (choose_instance_id p i) t st"

definition timer_proxy_heartbeat :: "node_id \<Rightarrow> timer_proxy \<Rightarrow> instance_id \<Rightarrow> time_point \<Rightarrow> 'v program \<Rightarrow> 'v program" where
  "timer_proxy_heartbeat n p i t st = mp_timer_heartbeat n (proxy_name p) (choose_instance_id p i) t st"

definition timer_proxy_set ::
  "chrono_env \<Rightarrow> node_id \<Rightarrow> timer_proxy \<Rightarrow> duration \<Rightarrow> time_point \<Rightarrow> 'v program \<Rightarrow> 'v program" where
  "timer_proxy_set e n p measurement t st = mp_timer_set e n (proxy_name p) measurement t st"

subsection \<open>The C interface\<close>

definition handystats_counter_init ::
  "node_id \<Rightarrow> string \<Rightarrow> int64 \<Rightarrow> time_point \<Rightarrow> 'v program \<Rightarrow> 'v program" where
  "handystats_counter_init n name value now st = mp_counter_init n name value now st"

definition handystats_counter_increment ::
  "node_id \<Rightarrow> string \<Rightarrow> int64 \<Rightarrow> time_point \<Rightarrow> 'v program \<Rightarrow> 'v program" where
  "handystats_counter_increment n name value now st = mp_counter_increment n name value now st"

definition handystats_counter_decrement ::
  "node_id \<Rightarrow> string \<Rightarrow> int64 \<Rightarrow> time_point \<Rightarrow> 'v program \<Rightarrow> 'v program" where
  "handystats_counter_decrement n name value now st = mp_counter_decrement n name value now st"

definition handystats_counter_change ::
  "node_id \<Rightarrow> string \<Rightarrow> int64 \<Rightarrow> time_point \<Rightarrow> 'v program \<Rightarrow> 'v program" where
  "handystats_counter_change n name value now st = mp_counter_change n name value now st"

definition handystats_gauge_init ::
  "node_id \<Rightarrow> string \<Rightarrow> real \<Rightarrow> time_point \<Rightarrow> 'v program \<Rightarrow> 'v program" where
  "handystats_gauge_init n name value now st = mp_gauge_init n name value now st"

definition handystats_gauge_set ::
  "node_id \<Rightarrow> string \<Rightarrow> real \<Rightarrow> time_point \<Rightarrow> 'v program \<Rightarrow> 'v program" where
  "handystats_gauge_set n name value now st = mp_gauge_set n name value now st"

definition handystats_timer_init ::
  "node_id \<Rightarrow> string \<Rightarrow> uint64 \<Rightarrow> time_point \<Rightarrow> 'v program \<Rightarrow> 'v program" where
  "handystats_timer_init n name i now st = mp_timer_init n name i now st"

definition handystats_timer_start ::
  "node_id \<Rightarrow> string \<Rightarrow> uint64 \<Rightarrow> time_point \<Rightarrow> 'v program \<Rightarrow> 'v program" where
  "handystats_timer_start n name i now st = mp_timer_start n name i now st"

definition handystats_timer_stop ::
  "node_id \<Rightarrow> string \<Rightarrow> uint64 \<Rightarrow> time_point \<Rightarrow> 'v program \<Rightarrow> 'v program" where
  "handystats_timer_stop n name i now st = mp_timer_stop n name i now st"

definition handystats_timer_discard ::
  "node_id \<Rightarrow> string \<Rightarrow> uint64 \<Rightarrow> time_point \<Rightarrow> 'v program \<Rightarrow> 'v program" where
  "handystats_timer_discard n name i now st = mp_timer_discard n name i now st"

definition handystats_timer_heartbeat ::
  "node_id \<Rightarrow> string \<Rightarrow> uint64 \<Rightarrow> time_point \<Rightarrow> 'v program \<Rightarrow> 'v program" where
  "handystats_timer_heartbeat n name i now st = mp_timer_heartbeat n name i now st"

text \<open>The C function takes a count of the unit the tick clock has.\<close>

definition handystats_timer_set ::
  "chrono_env \<Rightarrow> node_id \<Rightarrow> time_point \<Rightarrow> string \<Rightarrow> int64 \<Rightarrow> time_point \<Rightarrow> 'v program \<Rightarrow> 'v program" where
  "handystats_timer_set e n at_start name measurement now st =
     mp_timer_set e n name (dur measurement (m_unit (m_since_epoch at_start))) now st"

definition handystats_attribute_set_bool ::
  "node_id \<Rightarrow> string \<Rightarrow> 8 word \<Rightarrow> time_point \<Rightarrow> 'v program \<Rightarrow> 'v program" where
  "handystats_attribute_set_bool n attribute_name b now st =
     mp_attribute_set_bool n attribute_name (b \<noteq> 0) now st"

definition handystats_attribute_set_int ::
  "node_id \<Rightarrow> string \<Rightarrow> int32 \<Rightarrow> time_point \<Rightarrow> 'v program \<Rightarrow> 'v program" where
  "handystats_attribute_set_int n name value now st = mp_attribute_set_int n name value now st"

definition handystats_attribute_set_uint ::
  "node_id \<Rightarrow> string \<Rightarrow> 32 word \<Rightarrow> time_point \<Rightarrow> 'v program \<Rightarrow> 'v program" where
  "handystats_attribute_set_uint n name value now st = mp_attribute_set_unsigned n name value now st"

definition handystats_attribute_set_int64 ::
  "node_id \<Rightarrow> string \<Rightarrow> int64 \<Rightarrow> time_point \<Rightarrow> 'v program \<Rightarrow> 'v program" where
  "handystats_attribute_set_int64 n name value now st = mp_attribute_set_int64 n name value now st"

definition handystats_attribute_set_uint64 ::
  "node_id \<Rightarrow> string \<Rightarrow> uint64 \<Rightarrow> time_point \<Rightarrow> 'v program \<Rightarrow> 'v program" where
  "handystats_attribute_set_uint64 n name value now st = mp_attribute_set_uint64 n name value now st"

definition handystats_attribute_set_double ::
  "node_id \<Rightarrow> string \<Rightarrow> real \<Rightarrow> time_point \<Rightarrow> 'v program \<Rightarrow> 'v program" where
  "handystats_attribute_set_double n name value now st = mp_attribute_set_double n name value now st"

definition handystats_attribute_set_string ::
  "node_id \<Rightarrow> string \<Rightarrow> string \<Rightarrow> time_point \<Rightarrow> 'v program \<Rightarrow> 'v program" where
  "handystats_attribute_set_string n name value now st = mp_attribute_set_string n name value now st"

end
