(* ===== verification/Macros.thy ===== *)
theory Macros
  imports Client_Api
begin

section \<open>The macros a program uses\<close>

text \<open>
  \<open>include/handystats/macros.h\<close> and the macros of \<open>include/handystats/measuring_points/\<close>. A name is given
  as it is or as a format with arguments (how the preprocessor tells them apart is in \<open>Preprocessor\<close>); what \<open>snprintf\<close> makes of a format is an argument. All macros
  expand to nothing when \<open>HANDYSTATS_DISABLE\<close> is defined, the flag \<open>disabled\<close> here.
\<close>

datatype 'a name_argument = Plain_name string | Format_name string "'a list"

text \<open>The buffer has room for 256 characters and \<open>snprintf\<close> is told of 255, the last of them the
  terminating null.\<close>

definition metric_name_buffer :: "(string \<Rightarrow> 'a list \<Rightarrow> string) \<Rightarrow> string \<Rightarrow> 'a list \<Rightarrow> string" where
  "metric_name_buffer printed format args = c_str (take 254 (printed format args))"

fun macro_name :: "(string \<Rightarrow> 'a list \<Rightarrow> string) \<Rightarrow> 'a name_argument \<Rightarrow> string" where
  "macro_name printed (Plain_name name) = name"
| "macro_name printed (Format_name format args) = metric_name_buffer printed format args"

definition measuring_point_wrapper ::
  "(string \<Rightarrow> 'a list \<Rightarrow> string) \<Rightarrow> (string \<Rightarrow> 'v program \<Rightarrow> 'v program) \<Rightarrow> 'a name_argument
     \<Rightarrow> 'v program \<Rightarrow> 'v program" where
  "measuring_point_wrapper printed measuring_point_func name = measuring_point_func (macro_name printed name)"

text \<open>The macros for events, all of this shape.\<close>

definition event_macro ::
  "bool \<Rightarrow> (string \<Rightarrow> 'a list \<Rightarrow> string) \<Rightarrow> (string \<Rightarrow> 'v program \<Rightarrow> 'v program) \<Rightarrow> 'a name_argument
     \<Rightarrow> 'v program \<Rightarrow> 'v program" where
  "event_macro disabled printed measuring_point_func name st =
     (if disabled then st else measuring_point_wrapper printed measuring_point_func name st)"

subsection \<open>Scopes in C++\<close>

definition handy_counter_scope ::
  "bool \<Rightarrow> (string \<Rightarrow> 'a list \<Rightarrow> string) \<Rightarrow> node_id \<Rightarrow> 'a name_argument \<Rightarrow> int64 \<Rightarrow> time_point
     \<Rightarrow> 'v program \<Rightarrow> 'v program \<times> scoped_counter option" where
  "handy_counter_scope disabled printed n name delta now st =
     (if disabled then (st, None)
      else case scoped_counter_begin n (macro_name printed name) delta now st of
        (st, helper) \<Rightarrow> (st, Some helper))"

definition handy_timer_scope ::
  "bool \<Rightarrow> (string \<Rightarrow> 'a list \<Rightarrow> string) \<Rightarrow> 'a name_argument \<Rightarrow> time_point \<Rightarrow> scoped_timer option" where
  "handy_timer_scope disabled printed name now =
     (if disabled then None else Some (scoped_timer_begin (macro_name printed name) now))"

subsection \<open>Scopes in C\<close>

text \<open>In C the compiler calls the cleanup function of the helper at the end of the scope; the counter
  goes up by an increment and down by a decrement, and the timer keeps counts of the clock.\<close>

record c_scoped_counter =
  c_counter_name :: string
  c_delta_value :: int64

definition c_counter_scope ::
  "bool \<Rightarrow> (string \<Rightarrow> 'a list \<Rightarrow> string) \<Rightarrow> node_id \<Rightarrow> 'a name_argument \<Rightarrow> int64 \<Rightarrow> time_point
     \<Rightarrow> 'v program \<Rightarrow> 'v program \<times> c_scoped_counter option" where
  "c_counter_scope disabled printed n name delta now st =
     (if disabled then (st, None)
      else
        let name = macro_name printed name;
            helper = \<lparr>c_counter_name = name, c_delta_value = delta\<rparr>
        in (handystats_counter_increment n name delta now st, Some helper))"

definition scoped_counter_cleanup ::
  "node_id \<Rightarrow> c_scoped_counter \<Rightarrow> time_point \<Rightarrow> 'v program \<Rightarrow> 'v program" where
  "scoped_counter_cleanup n helper now st =
     handystats_counter_decrement n (c_counter_name helper) (c_delta_value helper) now st"

record c_scoped_timer =
  c_timer_name :: string
  c_start_time :: int64

definition c_timer_scope ::
  "bool \<Rightarrow> (string \<Rightarrow> 'a list \<Rightarrow> string) \<Rightarrow> 'a name_argument \<Rightarrow> time_point \<Rightarrow> c_scoped_timer option" where
  "c_timer_scope disabled printed name now =
     (if disabled then None
      else Some \<lparr>c_timer_name = macro_name printed name, c_start_time = handystats_now now\<rparr>)"

definition scoped_timer_cleanup ::
  "chrono_env \<Rightarrow> node_id \<Rightarrow> time_point \<Rightarrow> c_scoped_timer \<Rightarrow> time_point \<Rightarrow> time_point
     \<Rightarrow> 'v program \<Rightarrow> 'v program" where
  "scoped_timer_cleanup e n at_start helper end_time now st =
     handystats_timer_set e n at_start (c_timer_name helper)
       (handystats_now end_time - c_start_time helper) now st"

end
