(* ===== verification/Preprocessor.thy ===== *)
theory Preprocessor
  imports Macros
begin

section \<open>How the macros tell a format from a name\<close>

text \<open>
  The token level of \<open>include/handystats/macros.h\<close>: an argument in parentheses is a format with its
  arguments, anything else a name. A macro is a function from its argument tokens to the tokens it
  expands to, its arguments already expanded. The macros of Boost.Preprocessor it uses are a
  parameter (the record \<open>boost_pp\<close>), with what their documentation says as \<open>boost_ok\<close>. The name of
  the buffer, made from the line number, is a token \<open>buffer_var\<close>.
\<close>

datatype token = Tok string | Num nat | Comma | Group "token list"

type_synonym tokens = "token list"

text \<open>The arguments between the parentheses of a call: what top-level commas separate.\<close>

fun pp_arguments :: "tokens \<Rightarrow> tokens list" where
  "pp_arguments [] = [[]]"
| "pp_arguments (t # ts) =
     (if t = Comma then [] # pp_arguments ts
      else case pp_arguments ts of [] \<Rightarrow> [[t]] | a # as \<Rightarrow> (t # a) # as)"

text \<open>\<open>__VA_ARGS__\<close> stands for the arguments with their commas.\<close>

fun va_args :: "tokens list \<Rightarrow> tokens" where
  "va_args [] = []"
| "va_args [a] = a"
| "va_args (a # as) = a @ Comma # va_args as"

text \<open>A macro of one name applied to what follows: only an open parenthesis makes it a call.\<close>

definition call :: "string \<Rightarrow> (tokens list \<Rightarrow> tokens) \<Rightarrow> tokens \<Rightarrow> tokens" where
  "call name body ts = (case ts of Group g # rest \<Rightarrow> body (pp_arguments g) @ rest | _ \<Rightarrow> Tok name # ts)"

record boost_pp =
  pp_dec :: "tokens \<Rightarrow> tokens"
  pp_if :: "tokens \<Rightarrow> tokens \<Rightarrow> tokens \<Rightarrow> tokens"
  pp_comma_if :: "tokens \<Rightarrow> tokens"
  pp_expand :: "tokens \<Rightarrow> tokens"
  pp_tuple_elem :: "tokens \<Rightarrow> nat \<Rightarrow> tokens \<Rightarrow> tokens"
  pp_tuple_to_seq :: "tokens \<Rightarrow> tokens \<Rightarrow> tokens"
  pp_seq_size :: "tokens \<Rightarrow> tokens"
  pp_seq_pop_front :: "tokens \<Rightarrow> tokens"
  pp_seq_to_tuple :: "tokens \<Rightarrow> tokens"

subsection \<open>Counting arguments\<close>

text \<open>The size is the argument at position 64 of the arguments, the numbers from 64 down to 1 and an
  empty one.\<close>

definition variadic_size :: "tokens list \<Rightarrow> tokens" where
  "variadic_size args = (args @ map (\<lambda>n. [Num n]) (rev [1..<65]) @ [[]]) ! 64"

text \<open>The name that \<open>BOOST_PP_CAT\<close> makes from a prefix and the number of arguments.\<close>

definition pp_overload :: "(nat \<Rightarrow> (tokens list \<Rightarrow> tokens) option) \<Rightarrow> string \<Rightarrow> tokens list \<Rightarrow> tokens" where
  "pp_overload macros prefix args =
     (case variadic_size args of
        [Num n] \<Rightarrow> (case macros n of Some macro \<Rightarrow> macro args
                     | None \<Rightarrow> [Tok prefix, Num n, Group (va_args args)])
      | num \<Rightarrow> Tok prefix # num @ [Group (va_args args)])"

definition is_tuple :: "boost_pp \<Rightarrow> tokens \<Rightarrow> tokens" where
  "is_tuple B x =
     pp_dec B (variadic_size (pp_arguments
       (call ''HANDY_PP_DUMMY_CALL_RET_2'' (\<lambda>_. [Num 0, Comma, Num 0]) x)))"

subsection \<open>Taking tuples apart\<close>

definition tuple_to_seq_1 :: "boost_pp \<Rightarrow> tokens \<Rightarrow> tokens" where
  "tuple_to_seq_1 B tuple = pp_tuple_to_seq B (call ''HANDY_PP_VARIADIC_SIZE'' variadic_size tuple) tuple"

definition tuple_to_seq :: "boost_pp \<Rightarrow> tokens list \<Rightarrow> tokens" where
  "tuple_to_seq B =
     pp_overload [1 \<mapsto> (\<lambda>args. tuple_to_seq_1 B (args ! 0)), 2 \<mapsto> (\<lambda>args. tuple_to_seq_1 B (args ! 1))]
       ''HANDY_PP_TUPLE_TO_SEQ_O_''"

definition tuple_first_elem :: "boost_pp \<Rightarrow> tokens \<Rightarrow> tokens" where
  "tuple_first_elem B x = pp_tuple_elem B (pp_seq_size B (tuple_to_seq B [x])) 0 x"

definition tuple_pop_front :: "boost_pp \<Rightarrow> tokens \<Rightarrow> tokens" where
  "tuple_pop_front B x =
     pp_if B (pp_dec B (call ''HANDY_PP_VARIADIC_SIZE'' variadic_size x))
       (pp_seq_to_tuple B (pp_seq_pop_front B (tuple_to_seq B [x]))) [Group [Num 0]]"

definition tuple_rem :: "tokens \<Rightarrow> tokens" where
  "tuple_rem = call ''HANDY_PP_REM'' va_args"

definition tuple_eat :: "tokens \<Rightarrow> tokens" where
  "tuple_eat = call ''HANDY_PP_EAT'' (\<lambda>_. [])"

subsection \<open>The wrapper\<close>

definition metric_name_print_args :: "boost_pp \<Rightarrow> tokens list \<Rightarrow> tokens" where
  "metric_name_print_args B args = tuple_rem (tuple_first_elem B [Group (va_args args)])"

definition metric_name_buffer_set :: "boost_pp \<Rightarrow> token \<Rightarrow> tokens list \<Rightarrow> tokens" where
  "metric_name_buffer_set B buffer_var args =
     [Tok ''char'', buffer_var, Tok ''['', Num 256, Tok '']'', Tok '';'',
      Tok ''snprintf'',
      Group ([buffer_var, Comma, Num 255, Comma] @ metric_name_print_args B args), Tok '';'']"

text \<open>Of \<open>HANDY_PP_TUPLE_REM()\<close> and \<open>HANDY_PP_TUPLE_EAT()\<close> the chosen name is applied to the tuple behind.\<close>

definition apply_chosen :: "tokens \<Rightarrow> tokens \<Rightarrow> tokens" where
  "apply_chosen chosen x =
     (if chosen = [Tok ''HANDY_PP_REM''] then tuple_rem x
      else if chosen = [Tok ''HANDY_PP_EAT''] then tuple_eat x else chosen @ x)"

definition wrapper_tokens :: "boost_pp \<Rightarrow> token \<Rightarrow> tokens \<Rightarrow> tokens list \<Rightarrow> tokens" where
  "wrapper_tokens B buffer_var measuring_point_func args =
     (let more = pp_dec B (variadic_size args) in
      pp_expand B (tuple_rem
        (pp_if B (is_tuple B (tuple_first_elem B [Group (va_args args)]))
          [Group (metric_name_buffer_set B buffer_var args @ [Tok '';''] @ measuring_point_func
             @ [Group (buffer_var # pp_comma_if B more
                 @ apply_chosen (pp_if B more [Tok ''HANDY_PP_REM''] [Tok ''HANDY_PP_EAT''])
                     (tuple_pop_front B [Group (va_args args)]))])]
          [Group (measuring_point_func @ [Group (va_args args)])])))"

subsection \<open>What Boost promises\<close>

text \<open>Arguments of a call have no comma outside parentheses, and Boost stops at 64 of them.\<close>

abbreviation no_comma :: "tokens \<Rightarrow> bool" where
  "no_comma a \<equiv> Comma \<notin> set a"

definition macro_call_ok :: "tokens list \<Rightarrow> bool" where
  "macro_call_ok args \<longleftrightarrow> args \<noteq> [] \<and> length args \<le> 64 \<and> (\<forall>a\<in>set args. no_comma a)"

text \<open>A tuple and a sequence of the elements \<open>xs\<close>.\<close>

abbreviation tuple :: "tokens list \<Rightarrow> tokens" where
  "tuple xs \<equiv> [Group (va_args xs)]"

abbreviation seq :: "tokens list \<Rightarrow> tokens" where
  "seq xs \<equiv> map Group xs"

definition boost_ok :: "boost_pp \<Rightarrow> bool" where
  "boost_ok B \<longleftrightarrow>
     (\<forall>n\<le>256. pp_dec B [Num n] = [Num (n - 1)])
   \<and> (\<forall>n\<le>256. \<forall>t f. pp_if B [Num n] t f = (if n = 0 then f else t))
   \<and> (\<forall>n\<le>256. pp_comma_if B [Num n] = (if n = 0 then [] else [Comma]))
   \<and> (\<forall>ts. pp_expand B ts = ts)
   \<and> (\<forall>xs. macro_call_ok xs \<longrightarrow>
        pp_tuple_elem B [Num (length xs)] 0 (tuple xs) = hd xs
      \<and> pp_tuple_to_seq B [Num (length xs)] (tuple xs) = seq xs
      \<and> pp_seq_size B (seq xs) = [Num (length xs)]
      \<and> pp_seq_to_tuple B (seq xs) = tuple xs)
   \<and> (\<forall>x xs. xs \<noteq> [] \<and> macro_call_ok (x # xs) \<longrightarrow> pp_seq_pop_front B (seq (x # xs)) = seq xs)"

subsection \<open>Laws\<close>

text \<open>Joining arguments with commas and taking them apart again.\<close>

lemma pp_arguments_ne [simp]: "pp_arguments ts \<noteq> []"
  by (induction ts) (auto split: list.split)

lemma pp_arguments_first: "no_comma a \<Longrightarrow> pp_arguments (a @ Comma # ts) = a # pp_arguments ts"
  by (induction a) auto

lemma pp_arguments_single: "no_comma a \<Longrightarrow> pp_arguments a = [a]"
  by (induction a) auto

lemma pp_arguments_va_args: "args \<noteq> [] \<Longrightarrow> \<forall>a\<in>set args. no_comma a \<Longrightarrow> pp_arguments (va_args args) = args"
  by (induction args rule: va_args.induct) (simp_all add: pp_arguments_first pp_arguments_single)

lemma va_args_pp_arguments: "va_args (pp_arguments ts) = ts"
proof (induction ts)
  case (Cons t ts)
  obtain a as where a: "pp_arguments ts = a # as" by (cases "pp_arguments ts") auto
  then show ?case using Cons by (cases as) auto
qed simp

lemma variadic_size_counts: "args \<noteq> [] \<Longrightarrow> length args \<le> 64 \<Longrightarrow> variadic_size args = [Num (length args)]"
proof -
  assume "args \<noteq> []" "length args \<le> 64"
  then have n: "0 < length args" "64 - length args < length (rev [1..<65])" by (simp_all del: upt_conv_Cons)
  have "rev [1..<65] ! (64 - length args) = [1..<65] ! (64 - Suc (64 - length args))"
    using n by (simp add: rev_nth del: upt_conv_Cons)
  also have "\<dots> = length args" using n \<open>length args \<le> 64\<close> by (subst nth_upt) auto
  finally show ?thesis
    using n \<open>length args \<le> 64\<close>
    by (simp add: variadic_size_def nth_append nth_map del: upt_conv_Cons)
qed

lemma boost_laws:
  assumes "boost_ok B"
  shows "n \<le> 256 \<Longrightarrow> pp_dec B [Num n] = [Num (n - 1)]"
    and "n \<le> 256 \<Longrightarrow> pp_if B [Num n] t f = (if n = 0 then f else t)"
    and "n \<le> 256 \<Longrightarrow> pp_comma_if B [Num n] = (if n = 0 then [] else [Comma])"
    and "pp_expand B ts = ts"
    and "macro_call_ok xs \<Longrightarrow> pp_tuple_elem B [Num (length xs)] 0 (tuple xs) = hd xs"
    and "macro_call_ok xs \<Longrightarrow> pp_tuple_to_seq B [Num (length xs)] (tuple xs) = seq xs"
    and "macro_call_ok xs \<Longrightarrow> pp_seq_size B (seq xs) = [Num (length xs)]"
    and "macro_call_ok xs \<Longrightarrow> pp_seq_to_tuple B (seq xs) = tuple xs"
    and "xs \<noteq> [] \<Longrightarrow> macro_call_ok (x # xs) \<Longrightarrow> pp_seq_pop_front B (seq (x # xs)) = seq xs"
  using assms unfolding boost_ok_def by blast+

lemma size_of_tuple:
  "macro_call_ok xs \<Longrightarrow> call ''HANDY_PP_VARIADIC_SIZE'' variadic_size (tuple xs) = [Num (length xs)]"
  by (simp add: macro_call_ok_def call_def pp_arguments_va_args variadic_size_counts)

lemma tuple_to_seq_ok:
  assumes "boost_ok B" "macro_call_ok xs"
  shows "tuple_to_seq B [tuple xs] = seq xs"
  using variadic_size_counts [of "[tuple xs]"] boost_laws(6) [OF assms]
  by (simp add: tuple_to_seq_def pp_overload_def tuple_to_seq_1_def size_of_tuple [OF assms(2)])

lemma tuple_first_elem_ok: "boost_ok B \<Longrightarrow> macro_call_ok xs \<Longrightarrow> tuple_first_elem B (tuple xs) = hd xs"
  using boost_laws(5,7) by (simp add: tuple_first_elem_def tuple_to_seq_ok)

lemma tuple_pop_front_ok:
  assumes "boost_ok B" "macro_call_ok (x # xs)"
  shows "tuple_pop_front B (tuple (x # xs)) = (if xs = [] then [Group [Num 0]] else tuple xs)"
proof (cases "xs = []")
  case True
  have "macro_call_ok [x]" using assms(2) True by simp
  from size_of_tuple [OF this] show ?thesis
    using boost_laws(1,2) [OF assms(1), of 1] boost_laws(2) [OF assms(1), of 0] True
    by (simp add: tuple_pop_front_def)
next
  case False
  have len: "length xs < 64" "macro_call_ok xs" using assms(2) False by (simp_all add: macro_call_ok_def)
  show ?thesis
    using False len boost_laws(1) [OF assms(1), of "Suc (length xs)"] boost_laws(2) [OF assms(1), of "length xs"]
      boost_laws(8) [OF assms(1) len(2)] boost_laws(9) [OF assms(1) False assms(2)]
    by (simp only: tuple_pop_front_def size_of_tuple [OF assms(2)] tuple_to_seq_ok [OF assms]) simp
qed

text \<open>The test looks at the first token only.\<close>

definition starts_with_group :: "tokens \<Rightarrow> bool" where
  "starts_with_group x \<longleftrightarrow> (\<exists>g rest. x = Group g # rest)"

lemma is_tuple_ok:
  assumes "boost_ok B" "no_comma x"
  shows "is_tuple B x = [Num (if starts_with_group x then 1 else 0)]"
proof (cases "starts_with_group x")
  case True
  then obtain g rest where x: "x = Group g # rest" by (auto simp: starts_with_group_def)
  have "pp_arguments ([Num 0, Comma, Num 0] @ rest) = [[Num 0], Num 0 # rest]"
    using assms(2) pp_arguments_single [of rest] by (simp add: x)
  then show ?thesis
    using variadic_size_counts [of "[[Num 0], Num 0 # rest]"] boost_laws(1) [OF assms(1), of 2] True
    by (simp add: is_tuple_def call_def x numeral_2_eq_2)
next
  case False
  then have c: "call ''HANDY_PP_DUMMY_CALL_RET_2'' body x = Tok ''HANDY_PP_DUMMY_CALL_RET_2'' # x" for body
    by (auto simp: call_def starts_with_group_def split: list.split token.split)
  show ?thesis
    using variadic_size_counts [of "[Tok ''HANDY_PP_DUMMY_CALL_RET_2'' # x]"] boost_laws(1) [OF assms(1), of 1]
      pp_arguments_single [of "Tok ''HANDY_PP_DUMMY_CALL_RET_2'' # x"] assms(2) False
    by (simp add: is_tuple_def c)
qed

lemma tuple_rem_group: "tuple_rem (Group g # rest) = g @ rest"
  by (simp add: tuple_rem_def call_def va_args_pp_arguments)

lemma tuple_eat_group: "tuple_eat (Group g # rest) = rest"
  by (simp add: tuple_eat_def call_def)

subsection \<open>Property\<close>

text \<open>C36: With at most 64 arguments, a macro of a measuring point expands to the call of its function
  with the arguments as they are, unless the first begins with a parenthesis: then the parenthesis
  is opened into a call of \<open>snprintf\<close> with a fresh buffer, and the buffer takes the place of the first
  argument of the call, the others following it. So \<open>(a + b).c_str()\<close> is taken for a format too, and
  becomes \<open>a + b.c_str()\<close>.\<close>

theorem wrapper_expands_to_the_call:
  assumes "boost_ok B" "macro_call_ok (name # args)"
  shows "wrapper_tokens B buffer_var measuring_point_func (name # args) =
    (case name of
       Group format # rest \<Rightarrow>
         [Tok ''char'', buffer_var, Tok ''['', Num 256, Tok '']'', Tok '';'',
          Tok ''snprintf'', Group ([buffer_var, Comma, Num 255, Comma] @ format @ rest), Tok '';'', Tok '';'']
         @ measuring_point_func @ [Group (va_args ([buffer_var] # args))]
     | _ \<Rightarrow> measuring_point_func @ [Group (va_args (name # args))])"
proof -
  have first: "tuple_first_elem B (tuple (name # args)) = name"
    using tuple_first_elem_ok [OF assms] by simp
  have n: "no_comma name" "length args < 64" using assms(2) by (simp_all add: macro_call_ok_def)
  have more: "pp_dec B (variadic_size (name # args)) = [Num (length args)]"
    using variadic_size_counts [of "name # args"] boost_laws(1) [OF assms(1), of "Suc (length args)"] n(2) by simp
  note ifs = boost_laws(2) [OF assms(1)]
  show ?thesis
  proof (cases "starts_with_group name")
    case False
    then show ?thesis
      using ifs [of 0] is_tuple_ok [OF assms(1) n(1)] boost_laws(4) [OF assms(1)]
      by (auto simp: wrapper_tokens_def Let_def first tuple_rem_group starts_with_group_def
          split: list.split token.split)
  next
    case True
    then obtain g rest where g: "name = Group g # rest" by (auto simp: starts_with_group_def)
    have tail: "buffer_var # pp_comma_if B [Num (length args)]
        @ apply_chosen (pp_if B [Num (length args)] [Tok ''HANDY_PP_REM''] [Tok ''HANDY_PP_EAT''])
            (tuple_pop_front B (tuple (name # args)))
      = va_args ([buffer_var] # args)"
      using n(2) ifs [of "length args"] boost_laws(3) [OF assms(1), of "length args"]
      unfolding tuple_pop_front_ok [OF assms]
      by (cases args) (simp_all add: apply_chosen_def tuple_rem_group tuple_eat_group)
    have test: "pp_if B (is_tuple B name) t f = t" for t f
      using ifs [of 1] is_tuple_ok [OF assms(1) n(1)] True by simp
    show ?thesis
      unfolding wrapper_tokens_def Let_def first more tail test boost_laws(4) [OF assms(1)] tuple_rem_group
        metric_name_buffer_set_def metric_name_print_args_def
      by (simp add: g tuple_rem_group)
  qed
qed

text \<open>Boost as it is documented.\<close>

definition elements :: "tokens \<Rightarrow> tokens list" where
  "elements ts = map (\<lambda>t. case t of Group g \<Rightarrow> g | _ \<Rightarrow> [t]) ts"

definition example_boost :: boost_pp where
  "example_boost =
     \<lparr>pp_dec = (\<lambda>n. case n of [Num k] \<Rightarrow> [Num (k - 1)] | _ \<Rightarrow> n),
      pp_if = (\<lambda>c t f. if c = [Num 0] then f else t),
      pp_comma_if = (\<lambda>c. if c = [Num 0] then [] else [Comma]),
      pp_expand = (\<lambda>ts. ts),
      pp_tuple_elem = (\<lambda>n i x. pp_arguments (hd (elements x)) ! i),
      pp_tuple_to_seq = (\<lambda>n x. seq (pp_arguments (hd (elements x)))),
      pp_seq_size = (\<lambda>s. [Num (length s)]),
      pp_seq_pop_front = tl,
      pp_seq_to_tuple = (\<lambda>s. tuple (elements s))\<rparr>"

lemma example_boost_ok: "boost_ok example_boost"
proof -
  have "elements (seq xs) = xs" for xs by (simp add: elements_def comp_def)
  moreover have "elements [Group g] = [g]" for g by (simp add: elements_def)
  ultimately show ?thesis
    unfolding boost_ok_def macro_call_ok_def
    by (auto simp: example_boost_def pp_arguments_va_args hd_conv_nth)
qed

theorem wrapper_expands_to_the_call_witness:
  "wrapper_tokens example_boost (Tok ''B'') [Tok ''f''] [[Group [Tok ''fmt'', Comma, Tok ''i'']], [Num 2]] =
    [Tok ''char'', Tok ''B'', Tok ''['', Num 256, Tok '']'', Tok '';'', Tok ''snprintf'',
     Group [Tok ''B'', Comma, Num 255, Comma, Tok ''fmt'', Comma, Tok ''i''], Tok '';'', Tok '';'',
     Tok ''f'', Group [Tok ''B'', Comma, Num 2]]"
  using wrapper_expands_to_the_call [OF example_boost_ok, of "[Group [Tok ''fmt'', Comma, Tok ''i'']]" "[[Num 2]]"]
  by (simp add: macro_call_ok_def)

end
