(* ===== verification/Client_Laws.thy ===== *)
theory Client_Laws
  imports Core_Laws Macros
begin

section \<open>Laws of the client side\<close>

text \<open>
  The scopes of C++ and of C give the same measurements, and a scoped counter leaves the counter as
  it found it.
\<close>

subsection \<open>Events and points\<close>

lemma change_is_increment:
  "process_counter_event e opts c (point_message e (Counter_change name d t)) = counter_increment e c d t"
  by (simp add: process_counter_defs create_defs codes counter_increment_def counter_decrement_def Let_def
      cong: if_cong)

lemma increment_event:
  "process_counter_event e opts c (point_message e (Counter_increment name d t)) = counter_increment e c d t"
  by (simp add: process_counter_defs create_defs codes)

lemma decrement_event:
  "process_counter_event e opts c (point_message e (Counter_decrement name d t)) = counter_increment e c (- d) t"
  by (simp add: process_counter_defs create_defs codes decrement_is_increment)

text \<open>The timer scope of C sends what that of C++ sends, as both read one clock.\<close>

lemma c_timer_scope_agrees:
  assumes "m_clock t2 = m_clock t1" "m_unit (m_since_epoch t1) = u" "m_unit (m_since_epoch t2) = u"
    and "m_unit (m_since_epoch t0) = u"
  shows "c_timer_scope False printed name t1 = Some ch \<Longrightarrow> handy_timer_scope False printed name t1 = Some h \<Longrightarrow>
    scoped_timer_cleanup e n t0 ch t2 now st = scoped_timer_end e n h t2 now st"
  using assms
  by (auto simp: c_timer_scope_def handy_timer_scope_def scoped_timer_cleanup_def scoped_timer_end_def
      handystats_timer_set_def handystats_now_def scoped_timer_begin_def tp_diff_same_clock dur_sub_def)

text \<open>No macro does anything when the library is disabled at compile time.\<close>

lemma disabled_macros:
  "event_macro True printed f name st = st" "handy_counter_scope True printed n name d t st = (st, None)"
  "c_counter_scope True printed n name d t st = (st, None)"
  "handy_timer_scope True printed name t = None" "c_timer_scope True printed name t = None"
  by (simp_all add: event_macro_def handy_counter_scope_def c_counter_scope_def handy_timer_scope_def
      c_timer_scope_def)

subsection \<open>Scoped counters\<close>

text \<open>A scoped counter adds its delta to the counter when the scope begins and takes it away again
  when it ends, whatever the sign of the delta and also when it is the least 64-bit integer; the
  helper of C++ sends two changes, that of C an increment and a decrement, to the same effect.\<close>

lemma scoped_counter_restores_the_value:
  assumes "counter_begun c" "on_clock t1" "0 < tick_pos t1" "on_clock t2" "0 < tick_pos t2"
    and "process_counter_event e opts c (point_message e (Counter_change name d t1)) = Inr c1"
    and "process_counter_event e opts c1 (point_message e (Counter_change name (- d) t2)) = Inr c2"
  shows "c_value c1 = c_value c + d \<and> c_value c2 = c_value c
    \<and> process_counter_event e opts c (point_message e (Counter_increment name d t1)) = Inr c1
    \<and> process_counter_event e opts c1 (point_message e (Counter_decrement name d t2)) = Inr c2
    \<and> (\<exists>h. handy_counter_scope False printed n1 (Plain_name name) d t1 st
            = (perform e n1 (Counter_change name d t1) st, Some h)
          \<and> scoped_counter_end n2 h t2 st' = perform e n2 (Counter_change name (- d) t2) st')
    \<and> (\<exists>h. c_counter_scope False printed n1 (Plain_name name) d t1 st
            = (perform e n1 (Counter_increment name d t1) st, Some h)
          \<and> scoped_counter_cleanup n2 h t2 st' = perform e n2 (Counter_decrement name d t2) st')"
proof -
  have inc: "counter_increment e c d t1 = Inr c1" "counter_increment e c1 (- d) t2 = Inr c2"
    using assms(6,7) by (simp_all only: change_is_increment)
  then have "c_value c1 = c_value c + d" "c_value c2 = c_value c"
    using counter_increment_counts assms(1-5) by fastforce+
  then show ?thesis
    using inc
    by (simp add: increment_event decrement_event handy_counter_scope_def scoped_counter_begin_def
        scoped_counter_end_def c_counter_scope_def scoped_counter_cleanup_def
        handystats_counter_increment_def handystats_counter_decrement_def del: point_message.simps)
qed

end
