(* ===== verification/Event_Macros.thy ===== *)
theory Event_Macros
  imports Macros Core_Laws
begin

section \<open>The event macros\<close>

text \<open>
  The declarations of the measuring points in \<open>include/handystats/measuring_points/\<close> with their
  default arguments, the macros \<open>HANDY_COUNTER_INIT\<close> and so on that call them, their versions for C,
  and the macros of \<open>core.hpp\<close> and \<open>core.h\<close>. An argument left out is a constructor without it; a
  time stamp left out is the reading \<open>now\<close> of the clock. The lemmas say that each macro is one
  measuring point of the name its argument gives, so that what is proved of points holds of macros.
\<close>

text \<open>The arguments after the name: a value that may be left out, or one that may not.\<close>

datatype 'b optional_arguments = Defaults | Given 'b | Given_at 'b time_point

datatype 'b arguments = Value 'b | Value_at 'b time_point

fun given_value :: "'b \<Rightarrow> 'b optional_arguments \<Rightarrow> 'b" where
  "given_value unset Defaults = unset"
| "given_value unset (Given v) = v"
| "given_value unset (Given_at v t) = v"

fun given_time :: "time_point \<Rightarrow> 'b optional_arguments \<Rightarrow> time_point" where
  "given_time now (Given_at v t) = t"
| "given_time now args = now"

fun value_of :: "'b arguments \<Rightarrow> 'b" where
  "value_of (Value v) = v"
| "value_of (Value_at v t) = v"

fun time_of :: "time_point \<Rightarrow> 'b arguments \<Rightarrow> time_point" where
  "time_of now (Value v) = now"
| "time_of now (Value_at v t) = t"

subsection \<open>Counters\<close>

datatype counter_event =
    Init_counter "int64 optional_arguments"
  | Increment_counter "int64 optional_arguments"
  | Decrement_counter "int64 optional_arguments"
  | Change_counter "int64 arguments"

text \<open>A call of the functions as \<open>counter.hpp\<close> declares them.\<close>

fun counter_function :: "node_id \<Rightarrow> time_point \<Rightarrow> counter_event \<Rightarrow> string \<Rightarrow> 'v program \<Rightarrow> 'v program" where
  "counter_function n now (Init_counter a) name = mp_counter_init n name (given_value 0 a) (given_time now a)"
| "counter_function n now (Increment_counter a) name =
     mp_counter_increment n name (given_value 1 a) (given_time now a)"
| "counter_function n now (Decrement_counter a) name =
     mp_counter_decrement n name (given_value 1 a) (given_time now a)"
| "counter_function n now (Change_counter a) name = mp_counter_change n name (value_of a) (time_of now a)"

definition counter_macro ::
  "bool \<Rightarrow> (string \<Rightarrow> 'a list \<Rightarrow> string) \<Rightarrow> node_id \<Rightarrow> time_point \<Rightarrow> counter_event \<Rightarrow> 'a name_argument
     \<Rightarrow> 'v program \<Rightarrow> 'v program" where
  "counter_macro disabled printed n now ev name st = event_macro disabled printed (counter_function n now ev) name st"

text \<open>The functions for C take every argument but the time stamp.\<close>

datatype c_counter_event =
    C_counter_init int64
  | C_counter_increment int64
  | C_counter_decrement int64
  | C_counter_change int64

fun c_counter_function ::
  "node_id \<Rightarrow> time_point \<Rightarrow> c_counter_event \<Rightarrow> string \<Rightarrow> 'v program \<Rightarrow> 'v program" where
  "c_counter_function n now (C_counter_init v) name = handystats_counter_init n name v now"
| "c_counter_function n now (C_counter_increment v) name = handystats_counter_increment n name v now"
| "c_counter_function n now (C_counter_decrement v) name = handystats_counter_decrement n name v now"
| "c_counter_function n now (C_counter_change v) name = handystats_counter_change n name v now"

definition c_counter_macro ::
  "bool \<Rightarrow> (string \<Rightarrow> 'a list \<Rightarrow> string) \<Rightarrow> node_id \<Rightarrow> time_point \<Rightarrow> c_counter_event \<Rightarrow> 'a name_argument
     \<Rightarrow> 'v program \<Rightarrow> 'v program" where
  "c_counter_macro disabled printed n now ev name st =
     event_macro disabled printed (c_counter_function n now ev) name st"

subsection \<open>Gauges\<close>

datatype gauge_event = Init_gauge "real arguments" | Set_gauge "real arguments"

fun gauge_function :: "node_id \<Rightarrow> time_point \<Rightarrow> gauge_event \<Rightarrow> string \<Rightarrow> 'v program \<Rightarrow> 'v program" where
  "gauge_function n now (Init_gauge a) name = mp_gauge_init n name (value_of a) (time_of now a)"
| "gauge_function n now (Set_gauge a) name = mp_gauge_set n name (value_of a) (time_of now a)"

definition gauge_macro ::
  "bool \<Rightarrow> (string \<Rightarrow> 'a list \<Rightarrow> string) \<Rightarrow> node_id \<Rightarrow> time_point \<Rightarrow> gauge_event \<Rightarrow> 'a name_argument
     \<Rightarrow> 'v program \<Rightarrow> 'v program" where
  "gauge_macro disabled printed n now ev name st = event_macro disabled printed (gauge_function n now ev) name st"

datatype c_gauge_event = C_gauge_init real | C_gauge_set real

fun c_gauge_function :: "node_id \<Rightarrow> time_point \<Rightarrow> c_gauge_event \<Rightarrow> string \<Rightarrow> 'v program \<Rightarrow> 'v program" where
  "c_gauge_function n now (C_gauge_init v) name = handystats_gauge_init n name v now"
| "c_gauge_function n now (C_gauge_set v) name = handystats_gauge_set n name v now"

definition c_gauge_macro ::
  "bool \<Rightarrow> (string \<Rightarrow> 'a list \<Rightarrow> string) \<Rightarrow> node_id \<Rightarrow> time_point \<Rightarrow> c_gauge_event \<Rightarrow> 'a name_argument
     \<Rightarrow> 'v program \<Rightarrow> 'v program" where
  "c_gauge_macro disabled printed n now ev name st = event_macro disabled printed (c_gauge_function n now ev) name st"

subsection \<open>Timers\<close>

text \<open>The instance of a timer may be left out, the measurement of a set not.\<close>

datatype timer_event =
    Init_timer "instance_id optional_arguments"
  | Start_timer "instance_id optional_arguments"
  | Stop_timer "instance_id optional_arguments"
  | Discard_timer "instance_id optional_arguments"
  | Heartbeat_timer "instance_id optional_arguments"
  | Set_timer "duration arguments"

fun timer_function ::
  "chrono_env \<Rightarrow> node_id \<Rightarrow> time_point \<Rightarrow> timer_event \<Rightarrow> string \<Rightarrow> 'v program \<Rightarrow> 'v program" where
  "timer_function e n now (Init_timer a) name =
     mp_timer_init n name (given_value default_instance_id a) (given_time now a)"
| "timer_function e n now (Start_timer a) name =
     mp_timer_start n name (given_value default_instance_id a) (given_time now a)"
| "timer_function e n now (Stop_timer a) name =
     mp_timer_stop n name (given_value default_instance_id a) (given_time now a)"
| "timer_function e n now (Discard_timer a) name =
     mp_timer_discard n name (given_value default_instance_id a) (given_time now a)"
| "timer_function e n now (Heartbeat_timer a) name =
     mp_timer_heartbeat n name (given_value default_instance_id a) (given_time now a)"
| "timer_function e n now (Set_timer a) name = mp_timer_set e n name (value_of a) (time_of now a)"

definition timer_macro ::
  "bool \<Rightarrow> (string \<Rightarrow> 'a list \<Rightarrow> string) \<Rightarrow> chrono_env \<Rightarrow> node_id \<Rightarrow> time_point \<Rightarrow> timer_event
     \<Rightarrow> 'a name_argument \<Rightarrow> 'v program \<Rightarrow> 'v program" where
  "timer_macro disabled printed e n now ev name st =
     event_macro disabled printed (timer_function e n now ev) name st"

datatype c_timer_event =
    C_timer_init uint64
  | C_timer_start uint64
  | C_timer_stop uint64
  | C_timer_discard uint64
  | C_timer_heartbeat uint64
  | C_timer_set int64

fun c_timer_function ::
  "chrono_env \<Rightarrow> time_point \<Rightarrow> node_id \<Rightarrow> time_point \<Rightarrow> c_timer_event \<Rightarrow> string \<Rightarrow> 'v program \<Rightarrow> 'v program" where
  "c_timer_function e start n now (C_timer_init i) name = handystats_timer_init n name i now"
| "c_timer_function e start n now (C_timer_start i) name = handystats_timer_start n name i now"
| "c_timer_function e start n now (C_timer_stop i) name = handystats_timer_stop n name i now"
| "c_timer_function e start n now (C_timer_discard i) name = handystats_timer_discard n name i now"
| "c_timer_function e start n now (C_timer_heartbeat i) name = handystats_timer_heartbeat n name i now"
| "c_timer_function e start n now (C_timer_set m) name = handystats_timer_set e n start name m now"

definition c_timer_macro ::
  "bool \<Rightarrow> (string \<Rightarrow> 'a list \<Rightarrow> string) \<Rightarrow> chrono_env \<Rightarrow> time_point \<Rightarrow> node_id \<Rightarrow> time_point \<Rightarrow> c_timer_event
     \<Rightarrow> 'a name_argument \<Rightarrow> 'v program \<Rightarrow> 'v program" where
  "c_timer_macro disabled printed e start n now ev name st =
     event_macro disabled printed (c_timer_function e start n now ev) name st"

subsection \<open>Attributes\<close>

text \<open>
  \<open>attribute_set\<close> has an instance for each type of value, the first for a value of the variant type;
  the type of the argument, or the one the macro names, chooses the instance.
\<close>

datatype attribute_event = Set_variant "attribute_value arguments" | Set_typed "attribute_value arguments"

fun attribute_instance ::
  "node_id \<Rightarrow> string \<Rightarrow> attribute_value \<Rightarrow> time_point \<Rightarrow> 'v program \<Rightarrow> 'v program" where
  "attribute_instance n name (A_bool b) = mp_attribute_set_bool n name b"
| "attribute_instance n name (A_int i) = mp_attribute_set_int n name i"
| "attribute_instance n name (A_unsigned u) = mp_attribute_set_unsigned n name u"
| "attribute_instance n name (A_int64 i64) = mp_attribute_set_int64 n name i64"
| "attribute_instance n name (A_uint64 u64) = mp_attribute_set_uint64 n name u64"
| "attribute_instance n name (A_double d) = mp_attribute_set_double n name d"
| "attribute_instance n name (A_string s) = mp_attribute_set_string n name s"

fun attribute_function ::
  "node_id \<Rightarrow> time_point \<Rightarrow> attribute_event \<Rightarrow> string \<Rightarrow> 'v program \<Rightarrow> 'v program" where
  "attribute_function n now (Set_variant a) name = mp_attribute_set n name (value_of a) (time_of now a)"
| "attribute_function n now (Set_typed a) name = attribute_instance n name (value_of a) (time_of now a)"

definition attribute_macro ::
  "bool \<Rightarrow> (string \<Rightarrow> 'a list \<Rightarrow> string) \<Rightarrow> node_id \<Rightarrow> time_point \<Rightarrow> attribute_event \<Rightarrow> 'a name_argument
     \<Rightarrow> 'v program \<Rightarrow> 'v program" where
  "attribute_macro disabled printed n now ev name st =
     event_macro disabled printed (attribute_function n now ev) name st"

text \<open>In C there is a function for each type; a truth value is a character there.\<close>

datatype c_attribute_event =
    C_set_bool "8 word"
  | C_set_int int32
  | C_set_uint "32 word"
  | C_set_int64 int64
  | C_set_uint64 uint64
  | C_set_double real
  | C_set_string string

fun c_attribute_function ::
  "node_id \<Rightarrow> time_point \<Rightarrow> c_attribute_event \<Rightarrow> string \<Rightarrow> 'v program \<Rightarrow> 'v program" where
  "c_attribute_function n now (C_set_bool b) name = handystats_attribute_set_bool n name b now"
| "c_attribute_function n now (C_set_int i) name = handystats_attribute_set_int n name i now"
| "c_attribute_function n now (C_set_uint u) name = handystats_attribute_set_uint n name u now"
| "c_attribute_function n now (C_set_int64 i) name = handystats_attribute_set_int64 n name i now"
| "c_attribute_function n now (C_set_uint64 u) name = handystats_attribute_set_uint64 n name u now"
| "c_attribute_function n now (C_set_double d) name = handystats_attribute_set_double n name d now"
| "c_attribute_function n now (C_set_string s) name = handystats_attribute_set_string n name s now"

definition c_attribute_macro ::
  "bool \<Rightarrow> (string \<Rightarrow> 'a list \<Rightarrow> string) \<Rightarrow> node_id \<Rightarrow> time_point \<Rightarrow> c_attribute_event \<Rightarrow> 'a name_argument
     \<Rightarrow> 'v program \<Rightarrow> 'v program" where
  "c_attribute_macro disabled printed n now ev name st =
     event_macro disabled printed (c_attribute_function n now ev) name st"

subsection \<open>The core\<close>

text \<open>A macro of the core is a call of its function, or nothing.\<close>

definition handy_init ::
  "bool \<Rightarrow> chrono_env \<Rightarrow> time_point \<Rightarrow> time_point \<Rightarrow> 'v program \<Rightarrow> 'v program result" where
  "handy_init disabled e now mq_now st = (if disabled then Inr st else core_initialize e now mq_now st)"

definition handy_finalize ::
  "bool \<Rightarrow> nat \<Rightarrow> chrono_env \<Rightarrow> (nat \<Rightarrow> time_point) \<Rightarrow> time_point \<Rightarrow> time_point \<Rightarrow> 'v program
     \<Rightarrow> 'v program result option" where
  "handy_finalize disabled fuel e clock now mq_now st =
     (if disabled then Some (Inr st) else core_finalize fuel e clock now mq_now st)"

text \<open>The calls that read a configuration, with what they return; in C the truth value is a number.\<close>

definition handy_config_json ::
  "bool \<Rightarrow> 'v rapidjson \<Rightarrow> (string \<Rightarrow> 'v option) \<Rightarrow> string \<Rightarrow> 'v program
     \<Rightarrow> ('v program \<times> bool option) result" where
  "handy_config_json disabled J parse config st =
     (if disabled then Inr (st, None)
      else bind_result (config_json J parse (is_enabled st) (p_config st) config)
        (\<lambda>(cfg, ok). Inr (st\<lparr>p_config := cfg\<rparr>, Some ok)))"

definition handy_config_file ::
  "bool \<Rightarrow> 'v rapidjson \<Rightarrow> (string \<Rightarrow> 'v option) \<Rightarrow> string option \<Rightarrow> 'v program
     \<Rightarrow> ('v program \<times> bool option) result" where
  "handy_config_file disabled J parse contents st =
     (if disabled then Inr (st, None)
      else bind_result (config_file J parse (is_enabled st) (p_config st) contents)
        (\<lambda>(cfg, ok). Inr (st\<lparr>p_config := cfg\<rparr>, Some ok)))"

definition handystats_config_json ::
  "'v rapidjson \<Rightarrow> (string \<Rightarrow> 'v option) \<Rightarrow> string \<Rightarrow> 'v program \<Rightarrow> ('v program \<times> int32) result" where
  "handystats_config_json J parse config_data st =
     bind_result (config_json J parse (is_enabled st) (p_config st) config_data)
       (\<lambda>(cfg, ok). Inr (st\<lparr>p_config := cfg\<rparr>, of_bool ok))"

definition handystats_config_file ::
  "'v rapidjson \<Rightarrow> (string \<Rightarrow> 'v option) \<Rightarrow> string option \<Rightarrow> 'v program \<Rightarrow> ('v program \<times> int32) result" where
  "handystats_config_file J parse contents st =
     bind_result (config_file J parse (is_enabled st) (p_config st) contents)
       (\<lambda>(cfg, ok). Inr (st\<lparr>p_config := cfg\<rparr>, of_bool ok))"

definition handystats_initialize ::
  "chrono_env \<Rightarrow> time_point \<Rightarrow> time_point \<Rightarrow> 'v program \<Rightarrow> 'v program result" where
  "handystats_initialize e now mq_now st = core_initialize e now mq_now st"

definition handystats_finalize ::
  "nat \<Rightarrow> chrono_env \<Rightarrow> (nat \<Rightarrow> time_point) \<Rightarrow> time_point \<Rightarrow> time_point \<Rightarrow> 'v program
     \<Rightarrow> 'v program result option" where
  "handystats_finalize fuel e clock now mq_now st = core_finalize fuel e clock now mq_now st"

definition c_init_macro ::
  "bool \<Rightarrow> chrono_env \<Rightarrow> time_point \<Rightarrow> time_point \<Rightarrow> 'v program \<Rightarrow> 'v program result" where
  "c_init_macro disabled e now mq_now st = (if disabled then Inr st else handystats_initialize e now mq_now st)"

definition c_finalize_macro ::
  "bool \<Rightarrow> nat \<Rightarrow> chrono_env \<Rightarrow> (nat \<Rightarrow> time_point) \<Rightarrow> time_point \<Rightarrow> time_point \<Rightarrow> 'v program
     \<Rightarrow> 'v program result option" where
  "c_finalize_macro disabled fuel e clock now mq_now st =
     (if disabled then Some (Inr st) else handystats_finalize fuel e clock now mq_now st)"

definition c_config_file_macro ::
  "bool \<Rightarrow> 'v rapidjson \<Rightarrow> (string \<Rightarrow> 'v option) \<Rightarrow> string option \<Rightarrow> 'v program
     \<Rightarrow> ('v program \<times> int32 option) result" where
  "c_config_file_macro disabled J parse contents st =
     (if disabled then Inr (st, None)
      else bind_result (handystats_config_file J parse contents st) (\<lambda>(st, r). Inr (st, Some r)))"

definition c_config_json_macro ::
  "bool \<Rightarrow> 'v rapidjson \<Rightarrow> (string \<Rightarrow> 'v option) \<Rightarrow> string \<Rightarrow> 'v program
     \<Rightarrow> ('v program \<times> int32 option) result" where
  "c_config_json_macro disabled J parse config_data st =
     (if disabled then Inr (st, None)
      else bind_result (handystats_config_json J parse config_data st) (\<lambda>(st, r). Inr (st, Some r)))"

subsection \<open>A macro is a measuring point\<close>

text \<open>Every event of a macro, in either language, with the point it makes.\<close>

datatype macro_event =
    Counter_macro counter_event
  | Gauge_macro gauge_event
  | Timer_macro timer_event
  | Attribute_macro attribute_event
  | C_counter_macro c_counter_event
  | C_gauge_macro c_gauge_event
  | C_timer_macro c_timer_event
  | C_attribute_macro c_attribute_event

fun run_macro ::
  "bool \<Rightarrow> (string \<Rightarrow> 'a list \<Rightarrow> string) \<Rightarrow> chrono_env \<Rightarrow> time_point \<Rightarrow> node_id \<Rightarrow> time_point \<Rightarrow> macro_event
     \<Rightarrow> 'a name_argument \<Rightarrow> 'v program \<Rightarrow> 'v program" where
  "run_macro disabled printed e start n now (Counter_macro ev) = counter_macro disabled printed n now ev"
| "run_macro disabled printed e start n now (Gauge_macro ev) = gauge_macro disabled printed n now ev"
| "run_macro disabled printed e start n now (Timer_macro ev) = timer_macro disabled printed e n now ev"
| "run_macro disabled printed e start n now (Attribute_macro ev) = attribute_macro disabled printed n now ev"
| "run_macro disabled printed e start n now (C_counter_macro ev) = c_counter_macro disabled printed n now ev"
| "run_macro disabled printed e start n now (C_gauge_macro ev) = c_gauge_macro disabled printed n now ev"
| "run_macro disabled printed e start n now (C_timer_macro ev) = c_timer_macro disabled printed e start n now ev"
| "run_macro disabled printed e start n now (C_attribute_macro ev) = c_attribute_macro disabled printed n now ev"

fun c_attribute_value :: "c_attribute_event \<Rightarrow> attribute_value" where
  "c_attribute_value (C_set_bool b) = A_bool (b \<noteq> 0)"
| "c_attribute_value (C_set_int i) = A_int i"
| "c_attribute_value (C_set_uint u) = A_unsigned u"
| "c_attribute_value (C_set_int64 i) = A_int64 i"
| "c_attribute_value (C_set_uint64 u) = A_uint64 u"
| "c_attribute_value (C_set_double d) = A_double d"
| "c_attribute_value (C_set_string s) = A_string s"

fun macro_point :: "time_point \<Rightarrow> time_point \<Rightarrow> macro_event \<Rightarrow> string \<Rightarrow> point" where
  "macro_point start now (Counter_macro (Init_counter a)) name =
     Counter_init name (given_value 0 a) (given_time now a)"
| "macro_point start now (Counter_macro (Increment_counter a)) name =
     Counter_increment name (given_value 1 a) (given_time now a)"
| "macro_point start now (Counter_macro (Decrement_counter a)) name =
     Counter_decrement name (given_value 1 a) (given_time now a)"
| "macro_point start now (Counter_macro (Change_counter a)) name = Counter_change name (value_of a) (time_of now a)"
| "macro_point start now (Gauge_macro (Init_gauge a)) name = Gauge_init name (value_of a) (time_of now a)"
| "macro_point start now (Gauge_macro (Set_gauge a)) name = Gauge_set name (value_of a) (time_of now a)"
| "macro_point start now (Timer_macro (Init_timer a)) name =
     Timer_init name (given_value default_instance_id a) (given_time now a)"
| "macro_point start now (Timer_macro (Start_timer a)) name =
     Timer_start name (given_value default_instance_id a) (given_time now a)"
| "macro_point start now (Timer_macro (Stop_timer a)) name =
     Timer_stop name (given_value default_instance_id a) (given_time now a)"
| "macro_point start now (Timer_macro (Discard_timer a)) name =
     Timer_discard name (given_value default_instance_id a) (given_time now a)"
| "macro_point start now (Timer_macro (Heartbeat_timer a)) name =
     Timer_heartbeat name (given_value default_instance_id a) (given_time now a)"
| "macro_point start now (Timer_macro (Set_timer a)) name = Timer_set name (value_of a) (time_of now a)"
| "macro_point start now (Attribute_macro (Set_variant a)) name = Attribute_set name (value_of a) (time_of now a)"
| "macro_point start now (Attribute_macro (Set_typed a)) name = Attribute_set name (value_of a) (time_of now a)"
| "macro_point start now (C_counter_macro (C_counter_init v)) name = Counter_init name v now"
| "macro_point start now (C_counter_macro (C_counter_increment v)) name = Counter_increment name v now"
| "macro_point start now (C_counter_macro (C_counter_decrement v)) name = Counter_decrement name v now"
| "macro_point start now (C_counter_macro (C_counter_change v)) name = Counter_change name v now"
| "macro_point start now (C_gauge_macro (C_gauge_init v)) name = Gauge_init name v now"
| "macro_point start now (C_gauge_macro (C_gauge_set v)) name = Gauge_set name v now"
| "macro_point start now (C_timer_macro (C_timer_init i)) name = Timer_init name i now"
| "macro_point start now (C_timer_macro (C_timer_start i)) name = Timer_start name i now"
| "macro_point start now (C_timer_macro (C_timer_stop i)) name = Timer_stop name i now"
| "macro_point start now (C_timer_macro (C_timer_discard i)) name = Timer_discard name i now"
| "macro_point start now (C_timer_macro (C_timer_heartbeat i)) name = Timer_heartbeat name i now"
| "macro_point start now (C_timer_macro (C_timer_set m)) name =
     Timer_set name (dur m (m_unit (m_since_epoch start))) now"
| "macro_point start now (C_attribute_macro ev) name = Attribute_set name (c_attribute_value ev) now"

lemma attribute_instance_set [simp]: "attribute_instance n name v t st = mp_attribute_set n name v t st"
  by (cases v) (simp_all add: mp_attribute_set_def mp_attribute_set_bool_def mp_attribute_set_int_def
      mp_attribute_set_unsigned_def mp_attribute_set_int64_def mp_attribute_set_uint64_def
      mp_attribute_set_double_def mp_attribute_set_string_def)

lemma c_attribute_function_set [simp]:
  "c_attribute_function n now ev name st = mp_attribute_set n name (c_attribute_value ev) now st"
  by (cases ev) (simp_all add: mp_attribute_set_def handystats_attribute_set_bool_def mp_attribute_set_bool_def
      handystats_attribute_set_int_def mp_attribute_set_int_def handystats_attribute_set_uint_def
      mp_attribute_set_unsigned_def handystats_attribute_set_int64_def mp_attribute_set_int64_def
      handystats_attribute_set_uint64_def mp_attribute_set_uint64_def handystats_attribute_set_double_def
      mp_attribute_set_double_def handystats_attribute_set_string_def mp_attribute_set_string_def)

lemmas c_functions =
  handystats_counter_init_def handystats_counter_increment_def handystats_counter_decrement_def
  handystats_counter_change_def handystats_gauge_init_def handystats_gauge_set_def handystats_timer_init_def
  handystats_timer_start_def handystats_timer_stop_def handystats_timer_discard_def
  handystats_timer_heartbeat_def handystats_timer_set_def

lemmas macro_expansions =
  counter_macro_def gauge_macro_def timer_macro_def attribute_macro_def c_counter_macro_def c_gauge_macro_def
  c_timer_macro_def c_attribute_macro_def event_macro_def measuring_point_wrapper_def

text \<open>A macro performs its point under the name its argument gives, or nothing when it is disabled.\<close>

lemma run_macro_is_point:
  "run_macro disabled printed e start n now ev name st =
     (if disabled then st else perform e n (macro_point start now ev (macro_name printed name)) st)"
  by (induction start now ev "macro_name printed name" rule: macro_point.induct)
    (simp_all add: macro_expansions c_functions)

text \<open>The names of formats fit in the buffer, so that they have fewer than 255 characters.\<close>

lemma metric_name_buffer_fits: "size (metric_name_buffer printed format args) < 255"
  unfolding metric_name_buffer_def c_str_def
  by (rule order.strict_trans1 [OF length_takeWhile_le]) simp

text \<open>The macros of the core in C do what those of C++ do, and return one for a truth.\<close>

lemma c_core_macros:
  "c_init_macro disabled e now mq_now st = handy_init disabled e now mq_now st"
  "c_finalize_macro disabled fuel e clock now mq_now st = handy_finalize disabled fuel e clock now mq_now st"
  "c_config_json_macro disabled J parse config st =
     bind_result (handy_config_json disabled J parse config st) (\<lambda>(st, ok). Inr (st, map_option of_bool ok))"
  "c_config_file_macro disabled J parse contents st =
     bind_result (handy_config_file disabled J parse contents st) (\<lambda>(st, ok). Inr (st, map_option of_bool ok))"
  by (simp_all add: c_init_macro_def handy_init_def handystats_initialize_def c_finalize_macro_def
      handy_finalize_def handystats_finalize_def c_config_json_macro_def handy_config_json_def
      handystats_config_json_def c_config_file_macro_def handy_config_file_def handystats_config_file_def
      bind_result_assoc case_prod_beta)

end
