(* ===== verification/Tsc_Clock.thy ===== *)
theory Tsc_Clock
  imports Chrono
begin

section \<open>The clocks\<close>

text \<open>
  The clocks of \<open>src/chrono/\<close> and the processor features of \<open>src/cpuid_impl.hpp\<close>: the choice of a
  source for time stamps, the measurement of the processor frequency against a POSIX clock, and the
  time points the two clocks return. What the processor and the system return (\<open>__get_cpuid\<close>, the
  counter, \<open>sysconf\<close>, \<open>clock_gettime\<close>, \<open>getenv\<close>) is an argument.
\<close>

subsection \<open>Processor features\<close>

record cpuid_result =
  eax :: "32 word"
  ebx :: "32 word"
  ecx :: "32 word"
  edx :: "32 word"

type_synonym cpuid = "32 word \<Rightarrow> cpuid_result option"

definition tsc_supported :: "cpuid \<Rightarrow> bool" where
  "tsc_supported get_cpuid =
     (case get_cpuid 1 of None \<Rightarrow> False | Some r \<Rightarrow> and (drop_bit 4 (edx r)) 1 \<noteq> 0)"

definition invariant_tsc :: "cpuid \<Rightarrow> bool" where
  "invariant_tsc get_cpuid =
     (case get_cpuid 0x80000007 of None \<Rightarrow> False | Some r \<Rightarrow> and (drop_bit 8 (edx r)) 1 \<noteq> 0)"

definition rdtscp_supported :: "cpuid \<Rightarrow> bool" where
  "rdtscp_supported get_cpuid =
     (case get_cpuid 0x80000001 of None \<Rightarrow> False | Some r \<Rightarrow> and (drop_bit 27 (edx r)) 1 \<noteq> 0)"

subsection \<open>The clock source\<close>

datatype clock_source = CS_RDTSC | CS_RDTSCP | CS_CLOCK_MONOTONIC | CS_CLOCK_REALTIME

text \<open>\<open>env_clock_source\<close> is the environment variable, \<open>monotonic\<close> what \<open>sysconf\<close> says of that clock.\<close>

definition get_available_clock_source :: "string option \<Rightarrow> cpuid \<Rightarrow> int \<Rightarrow> clock_source" where
  "get_available_clock_source env_clock_source get_cpuid monotonic =
     (case env_clock_source of
        Some s \<Rightarrow>
          if s = ''RDTSCP'' then CS_RDTSCP
          else if s = ''RDTSC'' then CS_RDTSC
          else if s = ''CLOCK_MONOTONIC'' then CS_CLOCK_MONOTONIC
          else if s = ''CLOCK_REALTIME'' then CS_CLOCK_REALTIME
          else CS_CLOCK_REALTIME
      | None \<Rightarrow>
          if tsc_supported get_cpuid \<and> invariant_tsc get_cpuid then
            if rdtscp_supported get_cpuid then CS_RDTSCP else CS_RDTSC
          else if monotonic \<ge> 0 then CS_CLOCK_MONOTONIC
          else CS_CLOCK_REALTIME)"

subsection \<open>Readings\<close>

record timespec =
  tv_sec :: int64
  tv_nsec :: int64

definition get_nanoseconds :: "int \<Rightarrow> timespec \<Rightarrow> timespec \<Rightarrow> uint64" where
  "get_nanoseconds monotonic monotonic_time realtime =
     (let tm = (if monotonic \<ge> 0 then monotonic_time else realtime)
      in tv_sec tm * 1000000000 + tv_nsec tm)"

definition get_cycles_count :: "clock_source \<Rightarrow> uint64 \<Rightarrow> uint64 \<Rightarrow> uint64" where
  "get_cycles_count clock_source tsc_ticks tscp_ticks =
     (if clock_source = CS_RDTSC then tsc_ticks else tscp_ticks)"

text \<open>
  The two instructions leave the halves of the counter in two registers; the upper one is shifted
  and joined to the lower. With halves of 32 bits nothing is lost.
\<close>

definition rdtsc :: "64 word \<Rightarrow> 64 word \<Rightarrow> uint64" where
  "rdtsc rdx rax = or (push_bit 32 rdx) rax"

definition rdtscp :: "64 word \<Rightarrow> 64 word \<Rightarrow> uint64" where
  "rdtscp rdx rax = or (push_bit 32 rdx) rax"

lemma rdtsc_halves:
  fixes hi lo :: "32 word"
  shows "unat (rdtsc (ucast hi) (ucast lo)) = unat hi * 2 ^ 32 + unat lo"
    and "rdtscp (ucast hi) (ucast lo) = rdtsc (ucast hi) (ucast lo)"
proof -
  have lt: "unat w < 4294967296" for w :: "32 word"
    by (rule unsigned_less [of w, where 'a = nat, simplified])
  have uc: "unat (ucast w :: 64 word) = unat w" for w :: "32 word"
    by (simp add: unsigned_ucast_eq take_bit_nat_eq_self order.strict_trans [OF lt])
  have "and (push_bit 32 (ucast hi)) (ucast lo :: 64 word) = 0"
    by (rule bit_word_eqI) (auto simp: bit_simps dest: bit_imp_le_length)
  then have "rdtsc (ucast hi) (ucast lo) = push_bit 32 (ucast hi) + ucast lo"
    by (simp add: rdtsc_def disjunctive_add_eq_or)
  moreover have "unat (push_bit 32 (ucast hi) :: 64 word) = unat hi * 2 ^ 32"
    using lt [of hi] by (simp add: push_bit_eq_mult unat_word_ariths uc)
  ultimately show "unat (rdtsc (ucast hi) (ucast lo)) = unat hi * 2 ^ 32 + unat lo"
    using lt [of hi] lt [of lo] by (simp add: unat_word_ariths uc)
qed (simp add: rdtsc_def rdtscp_def)

text \<open>A point of the tick clock, from the readings its source would give.\<close>

definition tsc_now :: "clock_source \<Rightarrow> uint64 \<Rightarrow> uint64 \<Rightarrow> timespec \<Rightarrow> timespec \<Rightarrow> time_point" where
  "tsc_now clock_source tsc_ticks tscp_ticks monotonic_time realtime =
     (case clock_source of
        CS_RDTSC \<Rightarrow> tpt (dur tsc_ticks TICK) TSC
      | CS_RDTSCP \<Rightarrow> tpt (dur tscp_ticks TICK) TSC
      | CS_CLOCK_MONOTONIC \<Rightarrow>
          tpt (dur (tv_sec monotonic_time * 1000000000 + tv_nsec monotonic_time) NSEC) TSC
      | CS_CLOCK_REALTIME \<Rightarrow> tpt (dur (tv_sec realtime * 1000000000 + tv_nsec realtime) NSEC) TSC)"

definition system_now :: "timespec \<Rightarrow> time_point" where
  "system_now ts = tpt (dur (tv_sec ts * 1000 * 1000 * 1000 + tv_nsec ts) NSEC) SYSTEM"

subsection \<open>The frequency of the counter\<close>

definition cycles_delta :: uint64 where
  "cycles_delta = 15000"

text \<open>
  The loop of \<open>get_simultaneous_pair\<close> ends with the first try whose two counter readings are close;
  \<open>readings i\<close> are those of the \<open>i\<close>-th try, around one of the system clock. It need not end.
\<close>

partial_function (option) get_simultaneous_pair ::
  "(nat \<Rightarrow> uint64 \<times> uint64 \<times> uint64) \<Rightarrow> nat \<Rightarrow> (uint64 \<times> uint64) option" where
  "get_simultaneous_pair readings i =
     (case readings i of (tsc1, nanoseconds, tsc2) \<Rightarrow>
        if tsc2 - tsc1 < cycles_delta then Some (tsc1 + (tsc2 - tsc1) div 2, nanoseconds)
        else get_simultaneous_pair readings (i + 1))"

text \<open>
  The pair before and the pair after the sleep. Equal readings of the system clock make the
  quotient infinite or undefined.
\<close>

definition get_cycles_frequency ::
  "(nat \<Rightarrow> uint64 \<times> uint64 \<times> uint64) \<Rightarrow> (nat \<Rightarrow> uint64 \<times> uint64 \<times> uint64) \<Rightarrow> real result option" where
  "get_cycles_frequency readings_start readings_end =
     (case get_simultaneous_pair readings_start 0 of
        None \<Rightarrow> None
      | Some (cycles_start, nanoseconds_start) \<Rightarrow>
          (case get_simultaneous_pair readings_end 0 of
             None \<Rightarrow> None
           | Some (cycles_end, nanoseconds_end) \<Rightarrow>
               Some (if nanoseconds_end - nanoseconds_start = 0 then Inl Not_finite
                     else Inr (real (unat (cycles_end - cycles_start))
                               / real (unat (nanoseconds_end - nanoseconds_start))))))"

definition tests_count :: nat where
  "tests_count = 15"

fun run_tests ::
  "((nat \<Rightarrow> uint64 \<times> uint64 \<times> uint64) \<times> (nat \<Rightarrow> uint64 \<times> uint64 \<times> uint64)) list
     \<Rightarrow> real list result option" where
  "run_tests [] = Some (Inr [])"
| "run_tests ((s, t) # tests) =
     (case get_cycles_frequency s t of
        None \<Rightarrow> None
      | Some (Inl x) \<Rightarrow> Some (Inl x)
      | Some (Inr f) \<Rightarrow>
          (case run_tests tests of
             Some (Inr fs) \<Rightarrow> Some (Inr (f # fs))
           | r \<Rightarrow> r))"

definition median_test :: "real list \<Rightarrow> real" where
  "median_test cycles_tests = sort cycles_tests ! (tests_count div 2)"

definition estimate_cycles_frequency ::
  "(nat \<Rightarrow> (nat \<Rightarrow> uint64 \<times> uint64 \<times> uint64) \<times> (nat \<Rightarrow> uint64 \<times> uint64 \<times> uint64))
     \<Rightarrow> real result option" where
  "estimate_cycles_frequency readings =
     (case run_tests (map readings [0..<tests_count]) of
        None \<Rightarrow> None
      | Some r \<Rightarrow> Some (bind_result r (\<lambda>cycles_tests. Inr (median_test cycles_tests))))"

definition init_cycles_per_nanosec ::
  "clock_source \<Rightarrow> (nat \<Rightarrow> (nat \<Rightarrow> uint64 \<times> uint64 \<times> uint64) \<times> (nat \<Rightarrow> uint64 \<times> uint64 \<times> uint64))
     \<Rightarrow> real result option" where
  "init_cycles_per_nanosec clock_source readings =
     (if clock_source = CS_RDTSC \<or> clock_source = CS_RDTSCP
      then estimate_cycles_frequency readings else Some (Inr 3))"

subsection \<open>Lemmas\<close>

definition close_try :: "(nat \<Rightarrow> uint64 \<times> uint64 \<times> uint64) \<Rightarrow> nat \<Rightarrow> bool" where
  "close_try readings i = (case readings i of (tsc1, ns, tsc2) \<Rightarrow> tsc2 - tsc1 < cycles_delta)"

lemma pair_found:
  assumes "close_try readings (i + k)" "\<forall>j<k. \<not> close_try readings (i + j)"
  shows "get_simultaneous_pair readings i =
    (case readings (i + k) of (tsc1, ns, tsc2) \<Rightarrow> Some (tsc1 + (tsc2 - tsc1) div 2, ns))"
  using assms
proof (induction k arbitrary: i)
  case 0
  then show ?case
    by (subst get_simultaneous_pair.simps) (auto simp: close_try_def split: prod.splits)
next
  case (Suc k)
  have "\<not> close_try readings i" using Suc.prems(2) by force
  moreover have "\<forall>j<k. \<not> close_try readings (i + 1 + j)" using Suc.prems(2) by force
  ultimately show ?case
    using Suc.IH [of "i + 1"] Suc.prems(1)
    by (subst get_simultaneous_pair.simps) (auto simp: close_try_def split: prod.splits)
qed

lemma sort_mono: "a \<le> b \<Longrightarrow> b < length xs \<Longrightarrow> sort xs ! a \<le> (sort xs ! b :: real)"
  by (simp add: sorted_nth_mono)

lemma sort_below:
  fixes xs :: "real list"
  assumes "i < length xs" "sort xs ! i < lo"
  shows "Suc i \<le> length (filter (\<lambda>x. x < lo) xs)"
proof -
  have "\<forall>x\<in>set (take (Suc i) (sort xs)). x < lo"
  proof
    fix x assume "x \<in> set (take (Suc i) (sort xs))"
    then obtain j where "x = sort xs ! j" "j \<le> i" by (auto simp: in_set_conv_nth less_Suc_eq_le)
    then show "x < lo" using sort_mono [of j i xs] assms by simp
  qed
  then have "filter (\<lambda>x. x < lo) (take (Suc i) (sort xs)) = take (Suc i) (sort xs)"
    by (simp add: filter_id_conv)
  then have "Suc i \<le> length (filter (\<lambda>x. x < lo) (sort xs))"
    using assms(1) length_filter_le
    by (metis append_take_drop_id filter_append length_append length_sort length_take
        less_eq_Suc_le min.absorb2 le_add1)
  also have "length (filter (\<lambda>x. x < lo) (sort xs)) = length (filter (\<lambda>x. x < lo) xs)"
    by (simp add: filter_sort)
  finally show ?thesis .
qed

lemma sort_above:
  fixes xs :: "real list"
  assumes "i < length xs" "hi < sort xs ! i"
  shows "length xs - i \<le> length (filter (\<lambda>x. hi < x) xs)"
proof -
  have "\<forall>x\<in>set (drop i (sort xs)). hi < x"
  proof
    fix x assume "x \<in> set (drop i (sort xs))"
    then obtain j where "x = sort xs ! (i + j)" "i + j < length xs" by (auto simp: in_set_conv_nth)
    then show "hi < x" using sort_mono [of i "i + j" xs] assms by simp
  qed
  then have "filter (\<lambda>x. hi < x) (drop i (sort xs)) = drop i (sort xs)"
    by (simp add: filter_id_conv)
  then have "length xs - i \<le> length (filter (\<lambda>x. hi < x) (sort xs))"
    by (metis append_take_drop_id filter_append length_append length_drop length_sort le_add2)
  also have "length (filter (\<lambda>x. hi < x) (sort xs)) = length (filter (\<lambda>x. hi < x) xs)"
    by (simp add: filter_sort)
  finally show ?thesis .
qed

lemma median_between:
  assumes "length xs = 15" "8 \<le> length (filter (\<lambda>x. lo \<le> x \<and> x \<le> hi) xs)"
  shows "lo \<le> median_test xs" "median_test xs \<le> hi"
proof -
  have split: "length (filter P xs) + length (filter (\<lambda>x. lo \<le> x \<and> x \<le> hi) xs) \<le> length xs"
    if "\<And>x. P x \<Longrightarrow> \<not> (lo \<le> x \<and> x \<le> hi)" for P
    using that by (induction xs) auto
  have "\<not> median_test xs < lo"
    using sort_below [of 7 xs lo] split [of "\<lambda>x. x < lo"] assms
    by (auto simp: median_test_def tests_count_def)
  then show "lo \<le> median_test xs" by simp
  have "\<not> hi < median_test xs"
    using sort_above [of 7 xs hi] split [of "\<lambda>x. hi < x"] assms
    by (auto simp: median_test_def tests_count_def)
  then show "median_test xs \<le> hi" by simp
qed

lemma run_tests_all:
  assumes "\<forall>i\<in>set is. get_cycles_frequency (fst (readings i)) (snd (readings i)) = Some (Inr (f i))"
  shows "run_tests (map readings is) = Some (Inr (map f is))"
  using assms
proof (induction "is")
  case (Cons i "is")
  then show ?case by (cases "readings i") simp
qed simp

subsection \<open>Properties\<close>

text \<open>C29: The frequency the library works with is the median of fifteen measurements: when each of them
  returns and eight or more lie between two bounds, so does the result, whatever the others are.\<close>

theorem frequency_ignores_outliers:
  assumes "clock_source \<in> {CS_RDTSC, CS_RDTSCP}"
    and "\<forall>i<15. get_cycles_frequency (fst (readings i)) (snd (readings i)) = Some (Inr (f i))"
    and "8 \<le> card {i. i < 15 \<and> lo \<le> f i \<and> f i \<le> hi}"
  shows "\<exists>r. init_cycles_per_nanosec clock_source readings = Some (Inr r) \<and> lo \<le> r \<and> r \<le> hi"
proof -
  let ?fs = "map f [0..<15]"
  have tests: "run_tests (map readings [0..<tests_count]) = Some (Inr ?fs)"
    using run_tests_all [of "[0..<15]" readings f] assms(2) by (simp add: tests_count_def del: upt_rec_numeral)
  have "length (filter (\<lambda>x. lo \<le> x \<and> x \<le> hi) ?fs) = card {i. i < 15 \<and> lo \<le> f i \<and> f i \<le> hi}"
    by (simp add: length_filter_conv_card conj_commute cong: conj_cong del: upt_rec_numeral)
  then show ?thesis
    using median_between [of ?fs lo hi] tests assms(1,3)
    by (auto simp: init_cycles_per_nanosec_def estimate_cycles_frequency_def simp del: upt_rec_numeral)
qed

theorem frequency_ignores_outliers_witness:
  "\<exists>r. init_cycles_per_nanosec CS_RDTSC (\<lambda>i. (\<lambda>k. (0, 0, 10), \<lambda>k. if i = 3 then (9000, 1000, 9010) else (3000, 1000, 3010)))
      = Some (Inr r) \<and> 3 \<le> r \<and> r \<le> 3"
proof -
  have pair: "get_simultaneous_pair (\<lambda>k. (a, b, c)) 0 = Some (a + (c - a) div 2, b)"
    if "c - a < cycles_delta" for a b c
    using pair_found [of "\<lambda>k. (a, b, c)" 0 0] that by (simp add: close_try_def)
  let ?r = "\<lambda>i :: nat. (\<lambda>k :: nat. (0, 0, 10), \<lambda>k :: nat. if i = 3 then (9000, 1000, 9010) else (3000, 1000, 3010))
    :: (nat \<Rightarrow> uint64 \<times> uint64 \<times> uint64) \<times> (nat \<Rightarrow> uint64 \<times> uint64 \<times> uint64)"
  have tests: "\<forall>i<15. get_cycles_frequency (fst (?r i)) (snd (?r i)) = Some (Inr (if i = 3 then 9 else 3))"
    by (auto simp: get_cycles_frequency_def pair cycles_delta_def)
  have "{0..<3} \<union> {4..<15 :: nat} \<subseteq> {i. i < 15 \<and> 3 \<le> (if i = 3 then 9 else 3 :: real) \<and> (if i = 3 then 9 else 3 :: real) \<le> 3}"
    by auto
  then have "card ({0..<3} \<union> {4..<15 :: nat}) \<le>
      card {i :: nat. i < 15 \<and> 3 \<le> (if i = 3 then 9 else 3 :: real) \<and> (if i = 3 then 9 else 3 :: real) \<le> 3}"
    by (rule card_mono [rotated]) simp
  moreover have "card ({0..<3} \<union> {4..<15 :: nat}) = 14" by (simp add: card_Un_disjoint)
  ultimately show ?thesis using frequency_ignores_outliers [OF _ tests, of CS_RDTSC 3 3] by simp
qed

end
