(* ===== verification/Mpsc_Concurrent.thy ===== *)
theory Mpsc_Concurrent
  imports Mpsc_Queue
begin

section \<open>The queue under concurrency\<close>

text \<open>
  The same code as steps between its atomic operations. A producer exchanges the head (\<open>pushing\<close>
  remembers the link it has still to store) and then stores the link; the consumer loads, tests
  and moves on as \<open>pop\<close> does, and pushes the stub in the same two steps. \<open>pushed\<close> and \<open>popped\<close>
  record the history: nodes in the order of the exchanges, and what \<open>pop\<close> has returned. A producer
  pushes any node the queue does not own, in particular one that was returned and allocated anew.
\<close>

datatype consumer_pc =
    C_idle
  | C_next node_id
  | C_test node_id "node_id option"
  | C_stub node_id
  | C_link node_id node_id
  | C_last node_id

record mpsc =
  m_queue :: queue
  pushing :: "(node_id \<times> node_id) set"
  consumer :: consumer_pc
  pushed :: "node_id list"
  popped :: "node_id list"

definition mpsc_new :: mpsc where
  "mpsc_new = \<lparr>m_queue = queue_new, pushing = {}, consumer = C_idle, pushed = [], popped = []\<rparr>"

definition live :: "mpsc \<Rightarrow> node_id list" where
  "live s = drop (length (popped s)) (pushed s)"

definition exchange :: "queue \<Rightarrow> node_id \<Rightarrow> queue" where
  "exchange q n = q\<lparr>nxt := (nxt q)(n := None), m_head_node := n\<rparr>"

definition store :: "queue \<Rightarrow> node_id \<Rightarrow> node_id \<Rightarrow> queue" where
  "store q prev n = q\<lparr>nxt := (nxt q)(prev := Some n)\<rparr>"

text \<open>A push that is not interrupted is the sequential one.\<close>

lemma push_exchange_store: "queue_push q n = store (exchange q n) (m_head_node q) n"
  by (simp add: queue_push_def exchange_def store_def)

inductive mstep :: "mpsc \<Rightarrow> mpsc \<Rightarrow> bool" where
  push_exchange:
  "n \<noteq> Stub \<Longrightarrow> n \<notin> set (live s) \<Longrightarrow>
   mstep s (s\<lparr>m_queue := exchange (m_queue s) n,
              pushing := insert (m_head_node (m_queue s), n) (pushing s),
              pushed := pushed s @ [n]\<rparr>)"
| push_store:
  "(prev, n) \<in> pushing s \<Longrightarrow>
   mstep s (s\<lparr>m_queue := store (m_queue s) prev n, pushing := pushing s - {(prev, n)}\<rparr>)"
| pop_empty:
  "consumer s = C_idle \<Longrightarrow> m_tail_node (m_queue s) = Stub \<Longrightarrow> nxt (m_queue s) Stub = None \<Longrightarrow>
   mstep s s"
| pop_stub:
  "consumer s = C_idle \<Longrightarrow> m_tail_node (m_queue s) = Stub \<Longrightarrow> nxt (m_queue s) Stub = Some n \<Longrightarrow>
   mstep s (s\<lparr>m_queue := (m_queue s)\<lparr>m_tail_node := n\<rparr>, consumer := C_next n\<rparr>)"
| pop_load:
  "consumer s = C_idle \<Longrightarrow> m_tail_node (m_queue s) = t \<Longrightarrow> t \<noteq> Stub \<Longrightarrow>
   mstep s (s\<lparr>consumer := C_test t (nxt (m_queue s) t)\<rparr>)"
| pop_next:
  "consumer s = C_next t \<Longrightarrow> mstep s (s\<lparr>consumer := C_test t (nxt (m_queue s) t)\<rparr>)"
| pop_take:
  "consumer s = C_test t (Some n) \<Longrightarrow>
   mstep s (s\<lparr>m_queue := (m_queue s)\<lparr>m_tail_node := n\<rparr>, consumer := C_idle,
              popped := popped s @ [t]\<rparr>)"
| pop_busy:
  "consumer s = C_test t None \<Longrightarrow> t \<noteq> m_head_node (m_queue s) \<Longrightarrow>
   mstep s (s\<lparr>consumer := C_idle\<rparr>)"
| pop_alone:
  "consumer s = C_test t None \<Longrightarrow> t = m_head_node (m_queue s) \<Longrightarrow>
   mstep s (s\<lparr>consumer := C_stub t\<rparr>)"
| stub_exchange:
  "consumer s = C_stub t \<Longrightarrow>
   mstep s (s\<lparr>m_queue := exchange (m_queue s) Stub,
              consumer := C_link t (m_head_node (m_queue s))\<rparr>)"
| stub_store:
  "consumer s = C_link t prev \<Longrightarrow>
   mstep s (s\<lparr>m_queue := store (m_queue s) prev Stub, consumer := C_last t\<rparr>)"
| pop_last:
  "consumer s = C_last t \<Longrightarrow> nxt (m_queue s) t = Some n \<Longrightarrow>
   mstep s (s\<lparr>m_queue := (m_queue s)\<lparr>m_tail_node := n\<rparr>, consumer := C_idle,
              popped := popped s @ [t]\<rparr>)"
| pop_give_up:
  "consumer s = C_last t \<Longrightarrow> nxt (m_queue s) t = None \<Longrightarrow> mstep s (s\<lparr>consumer := C_idle\<rparr>)"

inductive reachable :: "mpsc \<Rightarrow> bool" where
  start: "reachable mpsc_new"
| step: "reachable s \<Longrightarrow> mstep s s' \<Longrightarrow> reachable s'"

subsection \<open>Chains with missing links\<close>

fun plinked :: "(node_id \<Rightarrow> node_id option) \<Rightarrow> (node_id \<times> node_id) set \<Rightarrow> node_id list \<Rightarrow> bool" where
  "plinked f P [] \<longleftrightarrow> False"
| "plinked f P [a] \<longleftrightarrow> f a = None"
| "plinked f P (a # b # p) \<longleftrightarrow>
     (f a = Some b \<and> (a, b) \<notin> P \<or> f a = None \<and> (a, b) \<in> P) \<and> plinked f P (b # p)"

fun pairs :: "node_id list \<Rightarrow> (node_id \<times> node_id) set" where
  "pairs (a # b # p) = insert (a, b) (pairs (b # p))"
| "pairs p = {}"

lemma pairs_set: "(a, b) \<in> pairs p \<Longrightarrow> a \<in> set p \<and> b \<in> set p"
  by (induction p rule: pairs.induct) auto

lemma pairs_fun: "distinct p \<Longrightarrow> (a, b) \<in> pairs p \<Longrightarrow> (a, c) \<in> pairs p \<Longrightarrow> b = c"
  by (induction p rule: pairs.induct) (auto dest: pairs_set)

lemma pairs_snoc: "p \<noteq> [] \<Longrightarrow> pairs (p @ [n]) = insert (last p, n) (pairs p)"
  by (induction p rule: pairs.induct) auto

lemma plinked_nonempty: "plinked f P p \<Longrightarrow> p \<noteq> []"
  by (cases p) auto

lemma plinked_cong:
  "\<forall>a\<in>set p. f a = g a \<Longrightarrow> \<forall>ab\<in>pairs p. ab \<in> P \<longleftrightarrow> ab \<in> R \<Longrightarrow> plinked f P p = plinked g R p"
  by (induction f P p rule: plinked.induct) auto

lemma plinked_snoc:
  assumes "plinked f P p" "distinct p" "n \<notin> set p"
  shows "plinked (f(n := None)) (insert (last p, n) P) (p @ [n])"
  using assms
proof (induction f P p rule: plinked.induct)
  case (3 f P a b p)
  then show ?case by (auto split: if_splits)
qed auto

lemma plinked_store:
  assumes "plinked f P p" "distinct p" "(a, b) \<in> P" "(a, b) \<in> pairs p"
  shows "plinked (f(a := Some b)) (P - {(a, b)}) p"
  using assms
proof (induction f P p rule: plinked.induct)
  case (3 f P x y p)
  show ?case
  proof (cases "a = x")
    case True
    then have "b = y" using "3.prems"(2,4) by (auto dest: pairs_set)
    moreover have "plinked (f(a := Some b)) (P - {(a, b)}) (y # p) = plinked f P (y # p)"
      using "3.prems"(2) True by (intro plinked_cong) (auto dest: pairs_set)
    ultimately show ?thesis using "3.prems"(1) True by (simp add: fun_upd_def)
  next
    case False
    then have "(a, b) \<in> pairs (y # p)" using "3.prems"(4) by auto
    then show ?thesis using 3 False by auto
  qed
qed auto

lemma plinked_pending:
  "plinked f P p \<Longrightarrow> distinct p \<Longrightarrow> (a, b) \<in> P \<Longrightarrow> (a, b) \<in> pairs p \<Longrightarrow> f a = None"
  by (induction f P p rule: plinked.induct) (auto dest: pairs_set)

lemma plinked_tl:
  assumes "plinked f P (a # b # p)" "distinct (a # b # p)" "f a \<noteq> None" "P \<subseteq> pairs (a # b # p)"
  shows "f a = Some b" "plinked f P (b # p)" "P \<subseteq> pairs (b # p)"
  using assms by auto

lemma plinked_linked: "plinked f {} p \<Longrightarrow> linked f p"
  by (induction f "{} :: (node_id \<times> node_id) set" p rule: plinked.induct) auto

subsection \<open>The invariant\<close>

text \<open>All links still to be stored, those of producers and that of the consumer.\<close>

definition pending :: "mpsc \<Rightarrow> (node_id \<times> node_id) set" where
  "pending s = pushing s \<union> (case consumer s of C_link t prev \<Rightarrow> {(prev, Stub)} | _ \<Rightarrow> {})"

fun consumer_ok :: "queue \<Rightarrow> (node_id \<times> node_id) set \<Rightarrow> consumer_pc \<Rightarrow> node_id list \<Rightarrow> bool" where
  "consumer_ok q P C_idle p \<longleftrightarrow> True"
| "consumer_ok q P (C_next t) p \<longleftrightarrow> t = m_tail_node q \<and> Stub \<notin> set p"
| "consumer_ok q P (C_test t n) p \<longleftrightarrow>
     t = m_tail_node q \<and> t \<noteq> Stub \<and> (n = None \<or> nxt q t = n)"
| "consumer_ok q P (C_stub t) p \<longleftrightarrow> t = m_tail_node q \<and> Stub \<notin> set p"
| "consumer_ok q P (C_link t prev) p \<longleftrightarrow> t = m_tail_node q \<and> t \<noteq> Stub \<and> (prev, Stub) \<notin> P"
| "consumer_ok q P (C_last t) p \<longleftrightarrow> t = m_tail_node q \<and> t \<noteq> Stub"

definition path :: "mpsc \<Rightarrow> node_id list \<Rightarrow> bool" where
  "path s p \<longleftrightarrow> plinked (nxt (m_queue s)) (pending s) p \<and> distinct p
     \<and> hd p = m_tail_node (m_queue s) \<and> last p = m_head_node (m_queue s)
     \<and> pending s \<subseteq> pairs p \<and> pushed s = popped s @ messages p
     \<and> consumer_ok (m_queue s) (pushing s) (consumer s) p"

lemma path_live: "path s p \<Longrightarrow> live s = messages p"
  by (simp add: path_def live_def)

lemma messages_set: "set (messages p) = set p - {Stub}"
  by (auto simp: messages_def)

lemma path_cons: "path s p \<Longrightarrow> \<exists>r. p = m_tail_node (m_queue s) # r"
  using plinked_nonempty by (cases p) (auto simp: path_def)

lemma path_new: "path mpsc_new [Stub]"
  by (simp add: path_def mpsc_new_def queue_new_def pending_def messages_def)

text \<open>The two halves of a push, for producers and for the consumer's stub.\<close>

lemma exchange_path:
  assumes "plinked (nxt q) P p" "distinct p" "n \<notin> set p" "last p = m_head_node q" "P \<subseteq> pairs p"
  shows "plinked (nxt (exchange q n)) (insert (m_head_node q, n) P) (p @ [n])"
    "insert (m_head_node q, n) P \<subseteq> pairs (p @ [n])" "(m_head_node q, n) \<notin> P"
    "hd (p @ [n]) = hd p"
proof -
  show "plinked (nxt (exchange q n)) (insert (m_head_node q, n) P) (p @ [n])"
    using plinked_snoc [OF assms(1-3)] assms(4) by (simp add: exchange_def)
  show "insert (m_head_node q, n) P \<subseteq> pairs (p @ [n])"
    using assms(4,5) plinked_nonempty [OF assms(1)] by (auto simp: pairs_snoc)
  show "(m_head_node q, n) \<notin> P" using assms(3,5) pairs_set by fastforce
  show "hd (p @ [n]) = hd p" using plinked_nonempty [OF assms(1)] by simp
qed

text \<open>Removing the first node, once its link is there.\<close>

lemma drop_first:
  assumes "plinked (nxt q) P (t # r)" "distinct (t # r)" "nxt q t = Some n" "P \<subseteq> pairs (t # r)"
    and "last (t # r) = h"
  shows "\<exists>r'. r = n # r' \<and> plinked (nxt q) P r \<and> P \<subseteq> pairs r \<and> last r = h"
proof (cases r)
  case Nil
  then show ?thesis using assms by simp
next
  case (Cons b r')
  then show ?thesis using plinked_tl [of "nxt q" P t b r'] assms by auto
qed

text \<open>What each kind of step does to the path: nothing, move the tail, add a node, complete a link.\<close>

lemma same_path:
  assumes "path s p" "m_queue s' = m_queue s" "pending s' = pending s" "pushed s' = pushed s"
    and "popped s' = popped s" "consumer_ok (m_queue s') (pushing s') (consumer s') p"
  shows "path s' p"
  using assms by (simp add: path_def)

lemma advance_path:
  assumes "path s p" "nxt (m_queue s) (m_tail_node (m_queue s)) = Some n"
    and "m_queue s' = (m_queue s)\<lparr>m_tail_node := n\<rparr>" "pending s' = pending s" "pushed s' = pushed s"
    and "popped s' = popped s @ messages [m_tail_node (m_queue s)]"
    and "consumer_ok (m_queue s') (pushing s') (consumer s') (tl p)"
  shows "path s' (tl p)"
proof -
  obtain r where r: "p = m_tail_node (m_queue s) # r" using path_cons [OF assms(1)] by blast
  then obtain r' where "r = n # r'" "plinked (nxt (m_queue s)) (pending s) r" "pending s \<subseteq> pairs r"
    "last r = m_head_node (m_queue s)"
    using drop_first [of "m_queue s" "pending s" "m_tail_node (m_queue s)" r n "m_head_node (m_queue s)"]
      assms(1,2)
    by (auto simp: path_def)
  then show ?thesis using assms r by (auto simp: path_def messages_def)
qed

lemma enqueue_path:
  assumes "path s p" "n \<notin> set p" "m_queue s' = exchange (m_queue s) n"
    and "pending s' = insert (m_head_node (m_queue s), n) (pending s)"
    and "pushed s' = pushed s @ messages [n]" "popped s' = popped s"
    and "consumer_ok (m_queue s') (pushing s') (consumer s') (p @ [n])"
  shows "path s' (p @ [n])"
  using assms exchange_path [of "m_queue s" "pending s" p n]
  by (auto simp: path_def messages_def exchange_def)

lemma link_path:
  assumes "path s p" "(prev, n) \<in> pending s" "m_queue s' = store (m_queue s) prev n"
    and "pending s' = pending s - {(prev, n)}" "pushed s' = pushed s" "popped s' = popped s"
    and "consumer_ok (m_queue s') (pushing s') (consumer s') p"
  shows "path s' p"
proof -
  have "(prev, n) \<in> pairs p" using assms(1,2) by (auto simp: path_def)
  then show ?thesis
    using assms plinked_store [of "nxt (m_queue s)" "pending s" p prev n]
    by (auto simp: path_def store_def)
qed

lemma path_pending:
  assumes "path s p" "(prev, n) \<in> pending s"
  shows "(prev, n) \<in> pairs p \<and> nxt (m_queue s) prev = None"
proof -
  have in_p: "(prev, n) \<in> pairs p" using assms by (auto simp: path_def)
  have "plinked (nxt (m_queue s)) (pending s) p" "distinct p" using assms(1) by (simp_all add: path_def)
  from plinked_pending [OF this assms(2) in_p] in_p show ?thesis by blast
qed

lemma path_tail: "path s p \<Longrightarrow> p = m_tail_node (m_queue s) # tl p"
  using path_cons by fastforce

lemma path_tail_in: "path s p \<Longrightarrow> m_tail_node (m_queue s) \<in> set p"
  using path_tail by (metis list.set_intros(1))

lemma path_stub_alone:
  assumes "path s p" "m_tail_node (m_queue s) = m_head_node (m_queue s)" "m_tail_node (m_queue s) \<noteq> Stub"
  shows "Stub \<notin> set p"
proof -
  obtain r where r: "p = m_tail_node (m_queue s) # r" using path_cons [OF assms(1)] by blast
  have "last p = m_tail_node (m_queue s)" "distinct p" using assms(1,2) by (simp_all add: path_def)
  then show ?thesis using r assms(3) by (cases r rule: rev_cases) auto
qed

lemma path_ok: "path s p \<Longrightarrow> consumer_ok (m_queue s) (pushing s) (consumer s) p"
  by (simp add: path_def)

lemma producer_step_path:
  assumes "path s p"
  shows "n \<noteq> Stub \<Longrightarrow> n \<notin> set (live s) \<Longrightarrow> path (s\<lparr>m_queue := exchange (m_queue s) n,
      pushing := insert (m_head_node (m_queue s), n) (pushing s), pushed := pushed s @ [n]\<rparr>) (p @ [n])"
    "(prev, n) \<in> pushing s \<Longrightarrow> path (s\<lparr>m_queue := store (m_queue s) prev n,
      pushing := pushing s - {(prev, n)}\<rparr>) p"
proof -
  assume n: "n \<noteq> Stub" "n \<notin> set (live s)"
  then have "n \<notin> set p" using path_live [OF assms] by (auto simp: messages_set)
  then show "path (s\<lparr>m_queue := exchange (m_queue s) n,
      pushing := insert (m_head_node (m_queue s), n) (pushing s), pushed := pushed s @ [n]\<rparr>) (p @ [n])"
    using path_ok [OF assms] path_tail_in [OF assms] n
    by (intro enqueue_path [OF assms]; cases "consumer s")
      (auto simp: pending_def messages_def exchange_def)
next
  assume i: "(prev, n) \<in> pushing s"
  then have pend: "(prev, n) \<in> pending s" by (simp add: pending_def)
  have "nxt (m_queue s) prev = None" using path_pending [OF assms pend] by simp
  with i show "path (s\<lparr>m_queue := store (m_queue s) prev n, pushing := pushing s - {(prev, n)}\<rparr>) p"
    using path_ok [OF assms]
    by (intro link_path [OF assms pend]; cases "consumer s") (auto simp: pending_def store_def)
qed

lemma mstep_path:
  assumes "mstep s s'" "path s p"
  shows "\<exists>p'. path s' p'"
  using assms(1)
proof cases
  case (push_exchange n)
  then show ?thesis using producer_step_path(1) [OF assms(2)] by blast
next
  case (push_store prev n)
  then show ?thesis using producer_step_path(2) [OF assms(2)] by blast
next
  case pop_empty
  then show ?thesis using assms(2) by blast
next
  case (pop_stub n)
  have "Stub \<notin> set (tl p)" using path_tail [OF assms(2)] assms(2) pop_stub(3)
    by (metis distinct.simps(2) path_def)
  then have "path s' (tl p)"
    using pop_stub by (intro advance_path [OF assms(2)]) (simp_all add: pending_def messages_def)
  then show ?thesis by blast
next
  case (pop_load t)
  then have "path s' p" by (intro same_path [OF assms(2)]) (simp_all add: pending_def)
  then show ?thesis by blast
next
  case (pop_next t)
  moreover have "t = m_tail_node (m_queue s)" "t \<noteq> Stub"
    using path_ok [OF assms(2)] path_tail_in [OF assms(2)] pop_next(2) by auto
  ultimately have "path s' p" by (intro same_path [OF assms(2)]) (simp_all add: pending_def)
  then show ?thesis by blast
next
  case (pop_take t n)
  then have "path s' (tl p)"
    using path_ok [OF assms(2)] by (intro advance_path [OF assms(2)]) (auto simp: pending_def messages_def)
  then show ?thesis by blast
next
  case (pop_busy t)
  then have "path s' p" by (intro same_path [OF assms(2)]) (simp_all add: pending_def)
  then show ?thesis by blast
next
  case (pop_alone t)
  then have "Stub \<notin> set p" using path_ok [OF assms(2)] by (intro path_stub_alone [OF assms(2)]) auto
  then have "path s' p"
    using pop_alone path_ok [OF assms(2)] by (intro same_path [OF assms(2)]) (simp_all add: pending_def)
  then show ?thesis by blast
next
  case (stub_exchange t)
  have t: "t = m_tail_node (m_queue s)" "Stub \<notin> set p" using path_ok [OF assms(2)] stub_exchange(2) by simp_all
  moreover have "t \<noteq> Stub" using t path_tail_in [OF assms(2)] by auto
  moreover have "(m_head_node (m_queue s), Stub) \<notin> pushing s"
    using t(2) assms(2) pairs_set by (fastforce simp: path_def pending_def)
  ultimately have "path s' (p @ [Stub])"
    using stub_exchange by (intro enqueue_path [OF assms(2)]) (auto simp: pending_def messages_def exchange_def)
  then show ?thesis by blast
next
  case (stub_store t prev)
  then have "path s' p"
    using path_ok [OF assms(2)]
    by (intro link_path [OF assms(2), of prev Stub]) (auto simp: pending_def store_def)
  then show ?thesis by blast
next
  case (pop_last t n)
  then have "path s' (tl p)"
    using path_ok [OF assms(2)] by (intro advance_path [OF assms(2)]) (auto simp: pending_def messages_def)
  then show ?thesis by blast
next
  case (pop_give_up t)
  then have "path s' p" by (intro same_path [OF assms(2)]) (simp_all add: pending_def)
  then show ?thesis by blast
qed

lemma reachable_path: "reachable s \<Longrightarrow> \<exists>p. path s p"
  by (induction rule: reachable.induct) (use path_new mstep_path in blast)+

text \<open>The steps a pop still has to take, at most.\<close>

fun steps_left :: "consumer_pc \<Rightarrow> nat" where
  "steps_left C_idle = 0"
| "steps_left (C_last t) = 1"
| "steps_left (C_link t prev) = 2"
| "steps_left (C_stub t) = 3"
| "steps_left (C_test t n) = 4"
| "steps_left (C_next t) = 5"

inductive_cases mstepE: "mstep s s'"

lemma steps_left_bound: "steps_left c \<le> 5"
  by (cases c) simp_all

lemma mstep_steps_left:
  assumes "mstep s s'" "consumer s \<noteq> C_idle"
  shows "consumer s' = consumer s \<or> steps_left (consumer s') < steps_left (consumer s)"
  using assms by (elim mstepE) simp_all

lemma busy_consumer_moves:
  assumes "consumer s \<noteq> C_idle"
  shows "\<exists>s'. mstep s s' \<and> steps_left (consumer s') < steps_left (consumer s)"
proof (cases "consumer s")
  case C_idle
  then show ?thesis using assms by simp
next
  case (C_next t)
  then show ?thesis using mstep.pop_next by fastforce
next
  case (C_test t n)
  show ?thesis
  proof (cases n)
    case None
    then show ?thesis using C_test mstep.pop_busy mstep.pop_alone
      by (cases "t = m_head_node (m_queue s)") fastforce+
  next
    case (Some n)
    then show ?thesis using C_test mstep.pop_take by fastforce
  qed
next
  case (C_stub t)
  then show ?thesis using mstep.stub_exchange by fastforce
next
  case (C_link t prev)
  then show ?thesis using mstep.stub_store by fastforce
next
  case (C_last t)
  then show ?thesis using mstep.pop_last mstep.pop_give_up
    by (cases "nxt (m_queue s) t") fastforce+
qed

lemma path_quiet_chain:
  "path s p \<Longrightarrow> pushing s = {} \<Longrightarrow> consumer s = C_idle \<Longrightarrow> chain (m_queue s) p"
  using plinked_linked by (auto simp: path_def chain_def pending_def)

subsection \<open>Properties\<close>

text \<open>A reachable state for the examples: one push, between its two steps, and then completed.\<close>

definition half_pushed :: mpsc where
  "half_pushed = mpsc_new\<lparr>m_queue := exchange queue_new (Msg 1), pushing := {(Stub, Msg 1)},
     pushed := [Msg 1]\<rparr>"

definition one_pushed :: mpsc where
  "one_pushed = half_pushed\<lparr>m_queue := store (exchange queue_new (Msg 1)) Stub (Msg 1), pushing := {}\<rparr>"

lemma half_pushed_reachable: "reachable half_pushed"
proof -
  have "mstep mpsc_new half_pushed"
    using push_exchange [of "Msg 1" mpsc_new]
    by (simp add: half_pushed_def live_def) (simp add: mpsc_new_def queue_new_def)
  then show ?thesis using start step by blast
qed

lemma one_pushed_reachable: "reachable one_pushed"
proof -
  have "mstep half_pushed one_pushed"
    using push_store [of Stub "Msg 1" half_pushed] by (simp add: half_pushed_def one_pushed_def)
  then show ?thesis using half_pushed_reachable step by blast
qed

lemma reachable_live: "reachable s \<Longrightarrow> pushed s = popped s @ live s"
  using reachable_path by (fastforce simp: path_def live_def)

text \<open>Each step is one of an atomic queue, or none of its.\<close>

definition atomic_step :: "node_id list \<Rightarrow> node_id list \<Rightarrow> mpsc \<Rightarrow> mpsc \<Rightarrow> bool" where
  "atomic_step ns ns' s s' \<longleftrightarrow>
     (\<exists>n. ns' = ns @ [n] \<and> pushed s' = pushed s @ [n] \<and> popped s' = popped s)
   \<or> (\<exists>n. ns = n # ns' \<and> pushed s' = pushed s \<and> popped s' = popped s @ [n])
   \<or> ns' = ns \<and> pushed s' = pushed s \<and> popped s' = popped s"

lemma mstep_atomic:
  assumes "reachable s" "mstep s s'"
  shows "atomic_step (live s) (live s') s s'"
proof -
  have "pushed s = popped s @ live s" "pushed s' = popped s' @ live s'"
    using assms reachable.step reachable_live by blast+
  then show ?thesis using assms(2) by (elim mstepE) (auto simp: atomic_step_def)
qed

text \<open>C5: With any number of producers interrupted anywhere, what the consumer has received is a
  prefix of what was pushed, in the order of the exchanges on the head, and the rest lies on the
  path from the tail to the head, linked but for the stores still pending: no message is lost,
  duplicated or reordered. Every step appends a message at the end of this rest, takes its first,
  or leaves it: the queue behaves as if push and pop were atomic.\<close>

theorem concurrent_queue_is_fifo:
  assumes "reachable s"
  shows "pushed s = popped s @ live s
    \<and> (\<exists>p. plinked (nxt (m_queue s)) (pending s) p \<and> distinct p
        \<and> hd p = m_tail_node (m_queue s) \<and> last p = m_head_node (m_queue s) \<and> messages p = live s)
    \<and> (\<forall>s'. mstep s s' \<longrightarrow> atomic_step (live s) (live s') s s')"
proof -
  obtain p where "path s p" using reachable_path [OF assms] by blast
  then have "plinked (nxt (m_queue s)) (pending s) p \<and> distinct p
      \<and> hd p = m_tail_node (m_queue s) \<and> last p = m_head_node (m_queue s) \<and> messages p = live s"
    by (simp add: path_def live_def)
  then show ?thesis using reachable_live [OF assms] mstep_atomic [OF assms] by blast
qed

theorem concurrent_queue_is_fifo_witness: "pushed one_pushed = popped one_pushed @ live one_pushed"
  by (rule conjunct1 [OF concurrent_queue_is_fifo [OF one_pushed_reachable]])

text \<open>No thread still has a link to store in a node that was returned: every store that is
  pending is between two nodes the queue owns, so a received message can be freed at once.\<close>

lemma pending_stores_stay_inside:
  assumes "reachable s" "(prev, n) \<in> pending s"
  shows "prev \<in> insert Stub (set (live s)) \<and> n \<in> insert Stub (set (live s))
    \<and> nxt (m_queue s) prev = None"
proof -
  obtain p where p: "path s p" using reachable_path [OF assms(1)] by blast
  from path_pending [OF p assms(2)] have in_p: "(prev, n) \<in> pairs p" "nxt (m_queue s) prev = None"
    by simp_all
  then show ?thesis using pairs_set [OF in_p(1)] by (auto simp: path_live [OF p] messages_set)
qed

text \<open>C33: Once the producers have stored their links, a pop returns the oldest message that was
  pushed and not yet received, and nothing only when there is none; while a producer is between its
  two steps it can return nothing although a message was pushed.\<close>

theorem pop_is_exact_when_quiet:
  "(reachable s \<longrightarrow> pushing s = {} \<longrightarrow> consumer s = C_idle \<longrightarrow>
      snd (queue_pop (m_queue s)) = (case live s of [] \<Rightarrow> None | n # ns \<Rightarrow> Some n))
   \<and> (\<exists>s. reachable s \<and> live s \<noteq> [] \<and> consumer s = C_idle \<and> snd (queue_pop (m_queue s)) = None)"
proof (intro conjI impI)
  assume s: "reachable s" "pushing s = {}" "consumer s = C_idle"
  obtain p where p: "path s p" using reachable_path [OF s(1)] by blast
  then have "chain (m_queue s) p" using path_quiet_chain s(2,3) by blast
  then show "snd (queue_pop (m_queue s)) = (case live s of [] \<Rightarrow> None | n # ns \<Rightarrow> Some n)"
    using pop_chain path_live [OF p] by (fastforce split: list.splits)
next
  show "\<exists>s. reachable s \<and> live s \<noteq> [] \<and> consumer s = C_idle \<and> snd (queue_pop (m_queue s)) = None"
    using half_pushed_reachable
    by (intro exI [of _ half_pushed])
      (simp add: half_pushed_def live_def mpsc_new_def queue_pop_def exchange_def queue_new_def)
qed

theorem pop_is_exact_when_quiet_witness: "snd (queue_pop (m_queue one_pushed)) = Some (Msg 1)"
  using pop_is_exact_when_quiet [THEN conjunct1, of one_pushed] one_pushed_reachable
  by (simp add: one_pushed_def half_pushed_def live_def mpsc_new_def)

text \<open>C32: A pop is wait-free: while it is under way it has a next step whatever the producers have
  done, each of its steps brings it nearer to the end, of which there are at most five after the
  first, and no step of a producer holds it back.\<close>

theorem pop_is_wait_free:
  assumes "consumer s \<noteq> C_idle"
  shows "(\<exists>s'. mstep s s' \<and> steps_left (consumer s') < steps_left (consumer s))
    \<and> (\<forall>s'. mstep s s' \<longrightarrow> consumer s' = consumer s \<or> steps_left (consumer s') < steps_left (consumer s))
    \<and> steps_left (consumer s) \<le> 5"
  using busy_consumer_moves [OF assms] mstep_steps_left [OF _ assms] steps_left_bound by blast

theorem pop_is_wait_free_witness:
  "\<exists>s'. mstep (one_pushed\<lparr>consumer := C_stub (Msg 1)\<rparr>) s' \<and> steps_left (consumer s') < 3"
  using pop_is_wait_free [of "one_pushed\<lparr>consumer := C_stub (Msg 1)\<rparr>"] by simp

end
