(* ===== verification/Lifecycle.thy ===== *)
theory Lifecycle
  imports Mpsc_Concurrent "HOL-Library.Multiset"
begin

section \<open>Starting and stopping with other threads at work\<close>

text \<open>
  How \<open>initialize\<close> and \<open>finalize\<close> of \<open>src/core.cpp\<close> and \<open>src/message_queue.cpp\<close> meet the threads of
  the program, which send messages at any moment, and the processor thread. Every thread is a
  program counter between its shared accesses: the pointer to the queue, the exchange, the link
  and the count of \<open>push\<close>; the test of the size, the steps of \<open>pop\<close>, the count and the deletion of
  whoever takes messages; the flag, the join, the deletion of the queue. Queues are numbered in the
  order of their creation, since a thread may come back to one that is gone. The ghost fields
  record the allocated messages, what was put into queues and what was freed, and whether memory
  was used after its end.
\<close>

datatype worker_pc =
    P_out
  | P_in node_id
  | P_push nat node_id
  | P_link nat node_id node_id
  | P_count

text \<open>One turn of whoever takes messages: test the size, pop, count down, delete.\<close>

datatype popper = Look | Popping | Got node_id | Have node_id

datatype turn = Empty | Again | Next popper

datatype processor_pc = R_none | R_test | R_work popper | R_ended

datatype control_pc =
    K_off
  | K_size bool
  | K_enable bool
  | K_start
  | K_on
  | K_join
  | K_drain popper
  | K_zero
  | K_delete
  | K_null

record sys =
  pointer :: "nat option"
  queue_mem :: "mpsc option"
  queues_made :: nat
  sys_size :: uint64
  sys_flag :: bool
  workers :: "worker_pc list"
  processor :: processor_pc
  control :: control_pc
  heap :: "node_id set"
  sent :: "node_id list"
  freed_nodes :: "node_id list"
  faulted :: bool

definition sys_start :: "nat \<Rightarrow> sys" where
  "sys_start k = \<lparr>pointer = None, queue_mem = None, queues_made = 0, sys_size = 0, sys_flag = False,
     workers = replicate k P_out, processor = R_none, control = K_off, heap = {}, sent = [],
     freed_nodes = [], faulted = False\<rparr>"

text \<open>The queue with this number, if it exists.\<close>

definition queue_of :: "nat \<Rightarrow> sys \<Rightarrow> mpsc option" where
  "queue_of g s = (if g = queues_made s then queue_mem s else None)"

definition set_worker :: "nat \<Rightarrow> worker_pc \<Rightarrow> sys \<Rightarrow> sys" where
  "set_worker i pc s = s\<lparr>workers := (workers s)[i := pc]\<rparr>"

definition fault :: "sys \<Rightarrow> sys" where
  "fault s = s\<lparr>faulted := True\<rparr>"

subsection \<open>The steps of a pop\<close>

definition consumer_step :: "mpsc \<Rightarrow> mpsc" where
  "consumer_step m =
     (let q = m_queue m in
      case consumer m of
        C_idle \<Rightarrow>
          if m_tail_node q = Stub then
            case nxt q Stub of
              None \<Rightarrow> m
            | Some n \<Rightarrow> m\<lparr>m_queue := q\<lparr>m_tail_node := n\<rparr>, consumer := C_next n\<rparr>
          else m\<lparr>consumer := C_test (m_tail_node q) (nxt q (m_tail_node q))\<rparr>
      | C_next t \<Rightarrow> m\<lparr>consumer := C_test t (nxt q t)\<rparr>
      | C_test t (Some n) \<Rightarrow>
          m\<lparr>m_queue := q\<lparr>m_tail_node := n\<rparr>, consumer := C_idle, popped := popped m @ [t]\<rparr>
      | C_test t None \<Rightarrow>
          if t \<noteq> m_head_node q then m\<lparr>consumer := C_idle\<rparr> else m\<lparr>consumer := C_stub t\<rparr>
      | C_stub t \<Rightarrow> m\<lparr>m_queue := exchange q Stub, consumer := C_link t (m_head_node q)\<rparr>
      | C_link t prev \<Rightarrow> m\<lparr>m_queue := store q prev Stub, consumer := C_last t\<rparr>
      | C_last t \<Rightarrow>
          (case nxt q t of
             Some n \<Rightarrow>
               m\<lparr>m_queue := q\<lparr>m_tail_node := n\<rparr>, consumer := C_idle, popped := popped m @ [t]\<rparr>
           | None \<Rightarrow> m\<lparr>consumer := C_idle\<rparr>))"

text \<open>A node may be written to while it is allocated; the stub lives and dies with its queue.\<close>

definition accessible :: "nat \<Rightarrow> node_id \<Rightarrow> sys \<Rightarrow> bool" where
  "accessible g n s \<longleftrightarrow> (if n = Stub then queue_of g s \<noteq> None else n \<in> heap s)"

subsection \<open>The threads\<close>

text \<open>
  A thread of the program inside a measuring point. It has found the library enabled and allocated
  its message (\<open>P_in\<close>); with no queue the message is dropped and never freed. A store through a link
  of a queue that is gone touches nothing any other thread reads.
\<close>

definition worker_step :: "nat \<Rightarrow> sys \<Rightarrow> sys option" where
  "worker_step i s =
     (if i < length (workers s) then
        case workers s ! i of
          P_out \<Rightarrow> None
        | P_in n \<Rightarrow>
            (case pointer s of
               None \<Rightarrow> Some (set_worker i P_out s)
             | Some g \<Rightarrow> Some (set_worker i (P_push g n) s))
        | P_push g n \<Rightarrow>
            (case queue_of g s of
               None \<Rightarrow> Some (fault s)
             | Some m \<Rightarrow>
                 Some (set_worker i (P_link g (m_head_node (m_queue m)) n)
                   (s\<lparr>queue_mem := Some (m\<lparr>m_queue := exchange (m_queue m) n,
                        pushing := insert (m_head_node (m_queue m), n) (pushing m),
                        pushed := pushed m @ [n]\<rparr>),
                      sent := sent s @ [n]\<rparr>)))
        | P_link g prev n \<Rightarrow>
            if accessible g prev s then
              (case queue_of g s of
                 None \<Rightarrow> Some (set_worker i P_count s)
               | Some m \<Rightarrow>
                   Some (set_worker i P_count
                     (s\<lparr>queue_mem := Some (m\<lparr>m_queue := store (m_queue m) prev n,
                          pushing := pushing m - {(prev, n)}\<rparr>)\<rparr>)))
            else Some (fault s)
        | P_count \<Rightarrow> Some (set_worker i P_out (s\<lparr>sys_size := sys_size s + 1\<rparr>))
      else None)"

fun popper_step :: "popper \<Rightarrow> sys \<Rightarrow> sys \<times> turn" where
  "popper_step Look s = (s, if sys_size s = 0 then Empty else Next Popping)"
| "popper_step Popping s =
     (case pointer s of
        None \<Rightarrow> (s, Again)
      | Some g \<Rightarrow>
          (case queue_of g s of
             None \<Rightarrow> (fault s, Again)
           | Some m \<Rightarrow>
               (s\<lparr>queue_mem := Some (consumer_step m)\<rparr>,
                if consumer (consumer_step m) \<noteq> C_idle then Next Popping
                else if popped (consumer_step m) = popped m then Again
                else Next (Got (last (popped (consumer_step m)))))))"
| "popper_step (Got n) s = (s\<lparr>sys_size := sys_size s - 1\<rparr>, Next (Have n))"
| "popper_step (Have n) s =
     (s\<lparr>heap := heap s - {n}, freed_nodes := freed_nodes s @ [n]\<rparr>, Again)"

text \<open>The processor thread: one turn for each test of the flag.\<close>

fun processor_next :: "turn \<Rightarrow> processor_pc" where
  "processor_next (Next w) = R_work w"
| "processor_next Empty = R_test"
| "processor_next Again = R_test"

definition processor_step :: "sys \<Rightarrow> sys option" where
  "processor_step s =
     (case processor s of
        R_none \<Rightarrow> None
      | R_test \<Rightarrow> Some (s\<lparr>processor := (if sys_flag s then R_work Look else R_ended)\<rparr>)
      | R_work w \<Rightarrow>
          (case popper_step w s of (s', r) \<Rightarrow> Some (s'\<lparr>processor := processor_next r\<rparr>))
      | R_ended \<Rightarrow> None)"

text \<open>The calls of \<open>initialize\<close> (with the option \<open>enable\<close>) and \<open>finalize\<close>, one at a time by the mutex.\<close>

definition initialize_call :: "bool \<Rightarrow> sys \<Rightarrow> sys option" where
  "initialize_call enable s =
     (if control s = K_off then
        case pointer s of
          None \<Rightarrow>
            Some (s\<lparr>queue_mem := Some mpsc_new, queues_made := queues_made s + 1,
                    pointer := Some (queues_made s + 1), control := K_size enable\<rparr>)
        | Some g \<Rightarrow> Some (s\<lparr>control := K_enable enable\<rparr>)
      else None)"

definition finalize_call :: "sys \<Rightarrow> sys option" where
  "finalize_call s =
     (if control s = K_off \<or> control s = K_on
      then Some (s\<lparr>sys_flag := False, control := K_join\<rparr>) else None)"

fun drain_next :: "turn \<Rightarrow> control_pc" where
  "drain_next (Next w) = K_drain w"
| "drain_next Empty = K_zero"
| "drain_next Again = K_drain Look"

definition control_step :: "sys \<Rightarrow> sys option" where
  "control_step s =
     (case control s of
        K_off \<Rightarrow> None
      | K_size b \<Rightarrow> Some (s\<lparr>sys_size := 0, control := K_enable b\<rparr>)
      | K_enable b \<Rightarrow>
          Some (if b then s\<lparr>sys_flag := True, control := K_start\<rparr> else s\<lparr>control := K_off\<rparr>)
      | K_start \<Rightarrow> Some (s\<lparr>processor := R_test, control := K_on\<rparr>)
      | K_on \<Rightarrow> None
      | K_join \<Rightarrow>
          if processor s = R_none \<or> processor s = R_ended
          then Some (s\<lparr>processor := R_none, control := K_drain Look\<rparr>) else None
      | K_drain w \<Rightarrow>
          (case popper_step w s of (s', r) \<Rightarrow> Some (s'\<lparr>control := drain_next r\<rparr>))
      | K_zero \<Rightarrow> Some (s\<lparr>sys_size := 0, control := K_delete\<rparr>)
      | K_delete \<Rightarrow> Some (s\<lparr>queue_mem := None, control := K_null\<rparr>)
      | K_null \<Rightarrow> Some (s\<lparr>pointer := None, control := K_off\<rparr>))"

text \<open>A measuring point begins: the library is enabled and the message gets unused memory.\<close>

definition measure_call :: "nat \<Rightarrow> node_id \<Rightarrow> sys \<Rightarrow> sys option" where
  "measure_call i n s =
     (if i < length (workers s) \<and> workers s ! i = P_out \<and> sys_flag s \<and> n \<noteq> Stub \<and> n \<notin> heap s
      then Some (set_worker i (P_in n) (s\<lparr>heap := insert n (heap s)\<rparr>)) else None)"

datatype action =
    Measure nat node_id
  | Worker nat
  | Processor
  | Initialize bool
  | Finalize
  | Control

fun sys_step :: "action \<Rightarrow> sys \<Rightarrow> sys option" where
  "sys_step (Measure i n) s = measure_call i n s"
| "sys_step (Worker i) s = worker_step i s"
| "sys_step Processor s = processor_step s"
| "sys_step (Initialize b) s = initialize_call b s"
| "sys_step Finalize s = finalize_call s"
| "sys_step Control s = control_step s"

text \<open>The states some interleaving reaches, when all states on the way satisfy \<open>P\<close>; a run ends with
  a fault.\<close>

inductive sys_reach :: "(sys \<Rightarrow> bool) \<Rightarrow> nat \<Rightarrow> sys \<Rightarrow> bool" for P k where
  at_start: "sys_reach P k (sys_start k)"
| by_step: "sys_reach P k s \<Longrightarrow> \<not> faulted s \<Longrightarrow> sys_step a s = Some s' \<Longrightarrow> P s' \<Longrightarrow> sys_reach P k s'"

fun sys_run :: "(sys \<Rightarrow> bool) \<Rightarrow> action list \<Rightarrow> sys \<Rightarrow> sys option" where
  "sys_run P [] s = Some s"
| "sys_run P (a # as) s =
     (if faulted s then None
      else case sys_step a s of
        None \<Rightarrow> None
      | Some s' \<Rightarrow> if P s' then sys_run P as s' else None)"

lemma sys_run_reach: "sys_reach P k s \<Longrightarrow> sys_run P as s = Some s' \<Longrightarrow> sys_reach P k s'"
proof (induction as arbitrary: s)
  case (Cons a as)
  then obtain t where "sys_step a s = Some t" "P t" "\<not> faulted s" "sys_run P as t = Some s'"
    by (auto split: if_splits option.splits)
  then show ?case using Cons by_step by blast
qed simp

end
