(* ===== verification/Lifecycle_Laws.thy ===== *)
theory Lifecycle_Laws
  imports Lifecycle
begin

section \<open>Laws of starting and stopping\<close>

subsection \<open>The steps of a pop are those of the queue\<close>

lemma consumer_step_mstep: "mstep m (consumer_step m)"
proof (cases "consumer m")
  case C_idle
  then show ?thesis
    using mstep.pop_empty mstep.pop_stub mstep.pop_load
    by (cases "nxt (m_queue m) Stub") (auto simp: consumer_step_def Let_def)
next
  case (C_next t)
  then show ?thesis using mstep.pop_next by (simp add: consumer_step_def Let_def)
next
  case (C_test t n)
  then show ?thesis
    using mstep.pop_take mstep.pop_busy mstep.pop_alone by (cases n) (auto simp: consumer_step_def Let_def)
next
  case (C_stub t)
  then show ?thesis using mstep.stub_exchange by (simp add: consumer_step_def Let_def)
next
  case (C_link t prev)
  then show ?thesis using mstep.stub_store by (simp add: consumer_step_def Let_def)
next
  case (C_last t)
  then show ?thesis
    using mstep.pop_last mstep.pop_give_up
    by (cases "nxt (m_queue m) t") (auto simp: consumer_step_def Let_def)
qed

lemma consumer_step_keeps: "pushing (consumer_step m) = pushing m" "pushed (consumer_step m) = pushed m"
  by (auto simp: consumer_step_def Let_def split: consumer_pc.splits option.splits)

lemma consumer_step_popped:
  "popped (consumer_step m) = popped m
   \<or> (\<exists>t. popped (consumer_step m) = popped m @ [t] \<and> consumer (consumer_step m) = C_idle)"
  by (auto simp: consumer_step_def Let_def split: consumer_pc.splits option.splits)

lemma reachable_consumer_step: "reachable m \<Longrightarrow> reachable (consumer_step m)"
  using step consumer_step_mstep by blast

lemma reachable_history: "reachable m \<Longrightarrow> pushed m = popped m @ live m"
  using reachable_path by (fastforce simp: path_def live_def)

text \<open>What a step of a pop does to the messages of the queue: it takes the first, or nothing.\<close>

lemma consumer_step_live:
  assumes "reachable m"
  shows "live m = (if popped (consumer_step m) = popped m then []
      else [last (popped (consumer_step m))]) @ live (consumer_step m)"
proof -
  have "popped m @ live m = popped (consumer_step m) @ live (consumer_step m)"
    using reachable_history [OF assms] reachable_history [OF reachable_consumer_step [OF assms]]
      consumer_step_keeps(2) by simp
  then show ?thesis using consumer_step_popped [of m] by auto
qed

subsection \<open>Counting over the threads\<close>

lemma sum_list_update:
  fixes f :: "'a \<Rightarrow> 'b :: comm_monoid_add"
  assumes "i < length xs"
  shows "sum_list (map f (xs[i := x])) + f (xs ! i) = sum_list (map f xs) + f x"
  using assms
proof (induction xs arbitrary: i)
  case (Cons a xs)
  then show ?case by (cases i) (simp_all add: ac_simps)
qed simp

text \<open>The message a thread holds, the link it has to store and the message it has to count.\<close>

fun held :: "worker_pc \<Rightarrow> node_id multiset" where
  "held (P_in n) = {#n#}"
| "held (P_push g n) = {#n#}"
| "held p = {#}"

fun link_of :: "worker_pc \<Rightarrow> (node_id \<times> node_id) multiset" where
  "link_of (P_link g prev n) = {#(prev, n)#}"
| "link_of p = {#}"

fun uncounted :: "worker_pc \<Rightarrow> nat" where
  "uncounted (P_link g prev n) = 1"
| "uncounted P_count = 1"
| "uncounted p = 0"

fun queue_used :: "worker_pc \<Rightarrow> nat option" where
  "queue_used (P_push g n) = Some g"
| "queue_used (P_link g prev n) = Some g"
| "queue_used p = None"

abbreviation over :: "(worker_pc \<Rightarrow> 'b) \<Rightarrow> sys \<Rightarrow> ('b :: comm_monoid_add)" where
  "over f s \<equiv> sum_list (map f (workers s))"

text \<open>The messages taken from the queue and not yet counted down, and those not yet deleted.\<close>

fun in_hand :: "popper \<Rightarrow> node_id list" where
  "in_hand (Got n) = [n]"
| "in_hand (Have n) = [n]"
| "in_hand w = []"

fun not_counted :: "popper \<Rightarrow> nat" where
  "not_counted (Got n) = 1"
| "not_counted w = 0"

definition popper_of :: "sys \<Rightarrow> popper" where
  "popper_of s = (case control s of K_drain w \<Rightarrow> w
     | _ \<Rightarrow> (case processor s of R_work w \<Rightarrow> w | _ \<Rightarrow> Look))"

definition queue_live :: "sys \<Rightarrow> node_id list" where
  "queue_live s = (case queue_mem s of None \<Rightarrow> [] | Some m \<Rightarrow> live m)"

definition all_out :: "sys \<Rightarrow> bool" where
  "all_out s \<longleftrightarrow> (\<forall>p\<in>set (workers s). p = P_out)"

fun emptying :: "control_pc \<Rightarrow> bool" where
  "emptying (K_drain w) \<longleftrightarrow> True"
| "emptying K_zero \<longleftrightarrow> True"
| "emptying K_delete \<longleftrightarrow> True"
| "emptying K_null \<longleftrightarrow> True"
| "emptying k \<longleftrightarrow> False"

text \<open>
  The discipline the library needs and does not enforce: when the queue begins to be drained, no
  thread is inside a measuring point. (And fewer than \<open>2 ^ 64\<close> messages are allocated.)
\<close>

definition calm :: "sys \<Rightarrow> bool" where
  "calm s \<longleftrightarrow> (emptying (control s) \<longrightarrow> all_out s) \<and> card (heap s) < 2 ^ 64"

subsection \<open>The invariant of calm runs\<close>

definition phase_ok :: "sys \<Rightarrow> bool" where
  "phase_ok s \<longleftrightarrow>
     (case control s of
        K_off \<Rightarrow> all_out s \<and> processor s = R_none \<and> \<not> sys_flag s
      | K_size b \<Rightarrow> all_out s \<and> processor s = R_none \<and> \<not> sys_flag s \<and> queue_mem s \<noteq> None
          \<and> queue_live s = []
      | K_enable b \<Rightarrow> all_out s \<and> processor s = R_none \<and> \<not> sys_flag s \<and> queue_mem s \<noteq> None
      | K_start \<Rightarrow> processor s = R_none \<and> sys_flag s \<and> queue_mem s \<noteq> None
      | K_on \<Rightarrow> processor s \<noteq> R_none \<and> processor s \<noteq> R_ended \<and> sys_flag s \<and> queue_mem s \<noteq> None
      | K_join \<Rightarrow> \<not> sys_flag s \<and> (queue_mem s = None \<longrightarrow> all_out s \<and> processor s = R_none)
      | K_drain w \<Rightarrow> all_out s \<and> processor s = R_none \<and> \<not> sys_flag s \<and> (queue_mem s = None \<longrightarrow> w = Look)
      | K_zero \<Rightarrow> all_out s \<and> processor s = R_none \<and> \<not> sys_flag s \<and> queue_live s = []
      | K_delete \<Rightarrow> all_out s \<and> processor s = R_none \<and> \<not> sys_flag s \<and> queue_live s = []
      | K_null \<Rightarrow> all_out s \<and> processor s = R_none \<and> \<not> sys_flag s \<and> queue_mem s = None)"

definition pointer_ok :: "sys \<Rightarrow> bool" where
  "pointer_ok s \<longleftrightarrow>
     (control s \<noteq> K_null \<longrightarrow> pointer s = (if queue_mem s = None then None else Some (queues_made s)))
     \<and> (\<forall>p\<in>set (workers s). \<forall>g. queue_used p = Some g \<longrightarrow> g = queues_made s)"

text \<open>The queue, the memory and the count, when the one who takes messages is at \<open>w\<close>.\<close>

definition queue_ok :: "popper \<Rightarrow> sys \<Rightarrow> bool" where
  "queue_ok w s \<longleftrightarrow>
     (\<forall>m. queue_mem s = Some m \<longrightarrow> reachable m \<and> over link_of s = mset_set (pushing m)
       \<and> finite (pushing m) \<and> (consumer m \<noteq> C_idle \<longrightarrow> w = Popping))"

definition memory_ok :: "popper \<Rightarrow> sys \<Rightarrow> bool" where
  "memory_ok w s \<longleftrightarrow> finite (heap s) \<and> Stub \<notin> heap s
     \<and> mset_set (heap s) = over held s + mset (in_hand w) + mset (queue_live s)
     \<and> sent s = freed_nodes s @ in_hand w @ queue_live s"

definition size_ok :: "popper \<Rightarrow> sys \<Rightarrow> bool" where
  "size_ok w s \<longleftrightarrow> sys_size s + of_nat (over uncounted s)
     = of_nat (length (queue_live s) + not_counted w)"

definition store_ok :: "popper \<Rightarrow> sys \<Rightarrow> bool" where
  "store_ok w s \<longleftrightarrow> \<not> faulted s \<and> queue_ok w s \<and> memory_ok w s \<and> size_ok w s"

definition sys_inv :: "sys \<Rightarrow> bool" where
  "sys_inv s \<longleftrightarrow> phase_ok s \<and> pointer_ok s \<and> store_ok (popper_of s) s"

lemma sys_invD:
  assumes "sys_inv s"
  shows "phase_ok s" "pointer_ok s" "\<not> faulted s" "queue_ok (popper_of s) s"
    "memory_ok (popper_of s) s" "size_ok (popper_of s) s" "store_ok (popper_of s) s"
  using assms by (simp_all add: sys_inv_def store_ok_def)

lemma sys_invI:
  "phase_ok s \<Longrightarrow> pointer_ok s \<Longrightarrow> \<not> faulted s \<Longrightarrow> queue_ok (popper_of s) s \<Longrightarrow>
   memory_ok (popper_of s) s \<Longrightarrow> size_ok (popper_of s) s \<Longrightarrow> sys_inv s"
  by (simp add: sys_inv_def store_ok_def)

subsection \<open>Measuring points keep the invariant\<close>

lemma set_worker_simps [simp]:
  "workers (set_worker i p s) = (workers s)[i := p]" "control (set_worker i p s) = control s"
  "processor (set_worker i p s) = processor s" "sys_flag (set_worker i p s) = sys_flag s"
  "queue_mem (set_worker i p s) = queue_mem s" "pointer (set_worker i p s) = pointer s"
  "queues_made (set_worker i p s) = queues_made s" "heap (set_worker i p s) = heap s"
  "sent (set_worker i p s) = sent s" "freed_nodes (set_worker i p s) = freed_nodes s"
  "faulted (set_worker i p s) = faulted s" "sys_size (set_worker i p s) = sys_size s"
  by (simp_all add: set_worker_def)

text \<open>Whoever is inside a measuring point has a queue.\<close>

lemma busy_phase:
  assumes "phase_ok s" "i < length (workers s)" "workers s ! i \<noteq> P_out"
  shows "control s = K_start \<or> control s = K_on \<or> control s = K_join" "queue_mem s \<noteq> None"
proof -
  have "\<not> all_out s" using assms(2,3) nth_mem by (fastforce simp: all_out_def)
  then show "control s = K_start \<or> control s = K_on \<or> control s = K_join" "queue_mem s \<noteq> None"
    using assms(1) by (auto simp: phase_ok_def split: control_pc.splits)
qed

text \<open>What a thread's step changes, apart from its own counter, is within the queue.\<close>

definition same_phase :: "sys \<Rightarrow> sys \<Rightarrow> bool" where
  "same_phase s s' \<longleftrightarrow> control s' = control s \<and> processor s' = processor s \<and> sys_flag s' = sys_flag s
     \<and> pointer s' = pointer s \<and> queues_made s' = queues_made s \<and> faulted s' = faulted s
     \<and> queue_mem s \<noteq> None \<and> queue_mem s' \<noteq> None"

lemma same_phase_popper: "same_phase s s' \<Longrightarrow> popper_of s' = popper_of s"
  unfolding same_phase_def popper_of_def by (elim conjE) (simp only:)

lemma same_phase_ok:
  assumes "same_phase s s'" "phase_ok s" "control s = K_start \<or> control s = K_on \<or> control s = K_join"
  shows "phase_ok s'"
  using assms by (auto simp: same_phase_def phase_ok_def)

lemma pointer_ok_worker:
  assumes "same_phase s s'" "pointer_ok s" "workers s' = (workers s)[i := p]"
    "\<And>g. queue_used p = Some g \<Longrightarrow> g = queues_made s"
  shows "pointer_ok s'"
  using assms set_update_subset_insert [of "workers s" i p]
  by (auto simp: same_phase_def pointer_ok_def)

lemma over_worker:
  assumes "i < length (workers s)" "workers s' = (workers s)[i := p]"
  shows "over f s' + f (workers s ! i) = over f s + f p"
  using assms sum_list_update by metis

lemma measure_inv:
  assumes "sys_inv s" "measure_call i n s = Some s'"
  shows "sys_inv s'"
proof -
  have i: "i < length (workers s)" "workers s ! i = P_out" "sys_flag s" "n \<noteq> Stub" "n \<notin> heap s"
    and s': "s' = set_worker i (P_in n) (s\<lparr>heap := insert n (heap s)\<rparr>)"
    using assms(2) by (auto simp: measure_call_def split: if_splits)
  have ph: "control s = K_start \<or> control s = K_on" "queue_mem s \<noteq> None"
    using assms(1) i(3) by (auto simp: sys_inv_def phase_ok_def split: control_pc.splits)
  have sp: "same_phase s s'" using ph by (auto simp: same_phase_def s')
  have ov: "over f s' + f P_out = over f s + f (P_in n)" for f :: "worker_pc \<Rightarrow> 'b :: comm_monoid_add"
    using over_worker [OF i(1), of s' "P_in n" f] i(2) by (simp add: s')
  have held: "over held s' = over held s + {#n#}" using ov [of held] by simp
  have rest: "over link_of s' = over link_of s" "over uncounted s' = over uncounted s"
    using ov [of link_of] ov [of uncounted] by simp_all
  have "phase_ok s'" using same_phase_ok [OF sp] assms(1) ph by (auto simp: sys_inv_def)
  moreover have "pointer_ok s'"
    using pointer_ok_worker [OF sp, of i "P_in n"] assms(1) by (auto simp: sys_inv_def s')
  moreover have "queue_mem s' = queue_mem s" "queue_live s' = queue_live s"
    "sys_size s' = sys_size s" "heap s' = insert n (heap s)" "sent s' = sent s"
    "freed_nodes s' = freed_nodes s" "faulted s' = faulted s"
    by (simp_all add: s' queue_live_def)
  ultimately show ?thesis
    using assms(1) rest held i(4,5) same_phase_popper [OF sp]
    by (auto simp: sys_inv_def store_ok_def queue_ok_def memory_ok_def size_ok_def)
qed

lemma held_by:
  assumes "i < length (workers s)"
  shows "held (workers s ! i) \<subseteq># over held s" "link_of (workers s ! i) \<subseteq># over link_of s"
  using over_worker [OF assms, of "set_worker i P_out s" P_out held]
    over_worker [OF assms, of "set_worker i P_out s" P_out link_of]
  by (simp_all add: subset_mset.le_iff_add) (metis add.commute)+

lemma mset_set_disjoint:
  assumes "mset_set A = B + C + D" "x \<in># B"
  shows "x \<notin># C + D"
proof
  assume "x \<in># C + D"
  then have "0 < count B x" "0 < count (C + D) x"
    using assms(2) by (simp_all only: count_greater_zero_iff)
  then have "2 \<le> count B x + count (C + D) x" by linarith
  then have "2 \<le> count (mset_set A) x" using assms(1) by (simp add: add.assoc)
  moreover have "count (mset_set A) x \<le> 1"
    by (cases "finite A \<and> x \<in> A") (auto simp: count_mset_set(2,3))
  ultimately show False by simp
qed

lemma memory_held:
  assumes "memory_ok w s" "n \<in># over held s"
  shows "n \<in> heap s" "n \<noteq> Stub" "n \<notin> set (queue_live s)"
proof -
  have m: "mset_set (heap s) = over held s + mset (in_hand w) + mset (queue_live s)"
    "finite (heap s)" "Stub \<notin> heap s" using assms(1) by (simp_all add: memory_ok_def)
  have "n \<in># mset_set (heap s)" using assms(2) by (simp add: m(1))
  then show "n \<in> heap s" "n \<noteq> Stub" using m(2,3) by auto
  show "n \<notin> set (queue_live s)" using mset_set_disjoint [OF m(1) assms(2)] by simp
qed

lemma memory_live:
  assumes "memory_ok w s" "n \<in> set (queue_live s)"
  shows "n \<in> heap s"
proof -
  have m: "mset_set (heap s) = over held s + mset (in_hand w) + mset (queue_live s)"
    "finite (heap s)" using assms(1) by (simp_all add: memory_ok_def)
  then have "n \<in># mset_set (heap s)" using assms(2) by simp
  then show ?thesis using m(2) by simp
qed

lemma memory_card:
  assumes "memory_ok w s"
  shows "length (queue_live s) \<le> card (heap s)"
proof -
  have "size (mset_set (heap s)) = size (over held s + mset (in_hand w) + mset (queue_live s))"
    using assms unfolding memory_ok_def by (elim conjE) (rule arg_cong)
  then show ?thesis by (simp only: size_mset_set size_union size_mset)
qed

lemma out_worker_step: "all_out s \<Longrightarrow> worker_step i s = None"
  using nth_mem by (fastforce simp: worker_step_def all_out_def)

text \<open>The two halves of a push, as steps of the queue.\<close>

definition pushed_half :: "mpsc \<Rightarrow> node_id \<Rightarrow> mpsc" where
  "pushed_half m n = m\<lparr>m_queue := exchange (m_queue m) n,
     pushing := insert (m_head_node (m_queue m), n) (pushing m), pushed := pushed m @ [n]\<rparr>"

definition pushed_whole :: "mpsc \<Rightarrow> node_id \<Rightarrow> node_id \<Rightarrow> mpsc" where
  "pushed_whole m prev n = m\<lparr>m_queue := store (m_queue m) prev n, pushing := pushing m - {(prev, n)}\<rparr>"

lemma pushed_half:
  assumes "reachable m" "n \<noteq> Stub" "n \<notin> set (live m)"
  shows "reachable (pushed_half m n)" "live (pushed_half m n) = live m @ [n]"
    "consumer (pushed_half m n) = consumer m"
    "(m_head_node (m_queue m), n) \<notin> pushing m"
    "pushing (pushed_half m n) = insert (m_head_node (m_queue m), n) (pushing m)"
proof -
  show "reachable (pushed_half m n)"
    using step [OF assms(1) push_exchange [OF assms(2,3)]] by (simp add: pushed_half_def)
  have "length (popped m) \<le> length (pushed m)" using reachable_history [OF assms(1)] by simp
  then show "live (pushed_half m n) = live m @ [n]" by (simp add: live_def pushed_half_def)
  show "consumer (pushed_half m n) = consumer m"
    "pushing (pushed_half m n) = insert (m_head_node (m_queue m), n) (pushing m)"
    by (simp_all add: pushed_half_def)
  show "(m_head_node (m_queue m), n) \<notin> pushing m"
  proof
    assume "(m_head_node (m_queue m), n) \<in> pushing m"
    then have "(m_head_node (m_queue m), n) \<in> pending m" by (simp add: pending_def)
    obtain p where p: "path m p" using reachable_path [OF assms(1)] by blast
    from path_pending [OF p \<open>(m_head_node (m_queue m), n) \<in> pending m\<close>] pairs_set
    have "n \<in> set p" by blast
    then show False using assms(2,3) path_live [OF p] by (simp add: messages_set)
  qed
qed

lemma pushed_whole:
  assumes "reachable m" "(prev, n) \<in> pushing m"
  shows "reachable (pushed_whole m prev n)" "live (pushed_whole m prev n) = live m"
    "consumer (pushed_whole m prev n) = consumer m"
    "pushing (pushed_whole m prev n) = pushing m - {(prev, n)}" "prev = Stub \<or> prev \<in> set (live m)"
proof -
  show "reachable (pushed_whole m prev n)"
    using step [OF assms(1) push_store [OF assms(2)]] by (simp add: pushed_whole_def)
  show "live (pushed_whole m prev n) = live m" "consumer (pushed_whole m prev n) = consumer m"
    "pushing (pushed_whole m prev n) = pushing m - {(prev, n)}"
    by (simp_all add: pushed_whole_def live_def)
  have "(prev, n) \<in> pending m" using assms(2) by (simp add: pending_def)
  obtain p where p: "path m p" using reachable_path [OF assms(1)] by blast
  from path_pending [OF p \<open>(prev, n) \<in> pending m\<close>] have "prev \<in> set p" using pairs_set by blast
  then show "prev = Stub \<or> prev \<in> set (live m)" using path_live [OF p] by (auto simp: messages_set)
qed

lemma worker_cases:
  assumes "worker_step i s = Some s'" "sys_inv s"
  obtains (test) n where "workers s ! i = P_in n" "s' = set_worker i (P_push (queues_made s) n) s"
  | (half) n m where "workers s ! i = P_push (queues_made s) n" "queue_mem s = Some m"
      "s' = set_worker i (P_link (queues_made s) (m_head_node (m_queue m)) n)
         (s\<lparr>queue_mem := Some (pushed_half m n), sent := sent s @ [n]\<rparr>)"
  | (whole) prev n m where "workers s ! i = P_link (queues_made s) prev n" "queue_mem s = Some m"
      "(prev, n) \<in> pushing m"
      "s' = set_worker i P_count (s\<lparr>queue_mem := Some (pushed_whole m prev n)\<rparr>)"
  | (count) "workers s ! i = P_count" "s' = set_worker i P_out (s\<lparr>sys_size := sys_size s + 1\<rparr>)"
proof -
  have i: "i < length (workers s)" "workers s ! i \<noteq> P_out"
    using assms(1) by (auto simp: worker_step_def split: if_splits)
  have "phase_ok s" using assms(2) by (simp add: sys_inv_def)
  from busy_phase [OF this i] obtain m where ph: "control s \<noteq> K_null" "queue_mem s = Some m" by auto
  then have ptr: "pointer s = Some (queues_made s)"
    using assms(2) by (simp add: sys_inv_def pointer_ok_def)
  have used: "g = queues_made s" if "queue_used (workers s ! i) = Some g" for g
    using assms(2) nth_mem [OF i(1)] that by (simp add: sys_inv_def pointer_ok_def)
  show ?thesis
  proof (cases "workers s ! i")
    case P_out
    then show ?thesis using i by simp
  next
    case (P_in n)
    then show ?thesis using assms(1) i ptr test by (simp add: worker_step_def)
  next
    case (P_push g n)
    then show ?thesis
      using assms(1) i used ph half by (simp add: worker_step_def queue_of_def pushed_half_def)
  next
    case (P_link g prev n)
    have "(prev, n) \<in># over link_of s"
      using held_by(2) [OF i(1)] P_link by (auto dest: mset_subset_eqD)
    moreover have q: "over link_of s = mset_set (pushing m)" "finite (pushing m)" "reachable m"
      using assms(2) ph(2) by (simp_all add: sys_inv_def store_ok_def queue_ok_def)
    ultimately have pr: "(prev, n) \<in> pushing m" "reachable m" by (simp_all only: elem_mset_set)
    then have "accessible g prev s"
      using pushed_whole(5) [OF pr(2,1)] assms(2) ph(2) memory_live [of "popper_of s" s prev] used P_link
      by (auto simp: accessible_def queue_of_def sys_inv_def store_ok_def queue_live_def)
    then show ?thesis
      using assms(1) i used ph P_link pr whole by (simp add: worker_step_def queue_of_def pushed_whole_def)
  next
    case P_count
    then show ?thesis using assms(1) i count by (simp add: worker_step_def)
  qed
qed

lemma worker_inv:
  assumes "sys_inv s" "worker_step i s = Some s'"
  shows "sys_inv s'"
proof -
  have i: "i < length (workers s)" "workers s ! i \<noteq> P_out"
    using assms(2) by (auto simp: worker_step_def split: if_splits)
  have parts: "phase_ok s" "pointer_ok s" "queue_ok (popper_of s) s" "memory_ok (popper_of s) s"
      "size_ok (popper_of s) s" "\<not> faulted s"
    using sys_invD [OF assms(1)] by simp_all
  note busy = busy_phase [OF parts(1) i]
  have ov: "over f s' + f (workers s ! i) = over f s + f p" if "workers s' = (workers s)[i := p]"
    for f :: "worker_pc \<Rightarrow> 'b :: comm_monoid_add" and p
    using over_worker [OF i(1) that] .
  have frame: "sys_inv s'" if "same_phase s s'" "workers s' = (workers s)[i := p]"
    "\<And>g. queue_used p = Some g \<Longrightarrow> g = queues_made s" "queue_ok (popper_of s') s'" "memory_ok (popper_of s') s'" "size_ok (popper_of s') s'" for p
    using same_phase_ok [OF that(1) parts(1) busy(1)] pointer_ok_worker [OF that(1) parts(2) that(2,3)]
      that parts(6) by (intro sys_invI) (simp_all add: same_phase_def)
  from assms(2,1) show ?thesis
  proof (cases rule: worker_cases)
    case (test n)
    let ?p = "P_push (queues_made s) n"
    have sp: "same_phase s s'" using busy by (simp add: same_phase_def test)
    have q: "queue_mem s' = queue_mem s" "queue_live s' = queue_live s" "workers s' = (workers s)[i := ?p]"
      by (simp_all add: test queue_live_def)
    have "over held s' = over held s" "over link_of s' = over link_of s"
      "over uncounted s' = over uncounted s"
      using ov [OF q(3), of held] ov [OF q(3), of link_of] ov [OF q(3), of uncounted] test(1) by simp_all
    then show ?thesis
      using parts same_phase_popper [OF sp] q
      by (intro frame [OF sp q(3)])
        (auto simp: queue_ok_def memory_ok_def size_ok_def test)
  next
    case (half n m)
    let ?p = "P_link (queues_made s) (m_head_node (m_queue m)) n"
    have sp: "same_phase s s'" using busy by (simp add: same_phase_def half)
    have q: "queue_mem s' = Some (pushed_half m n)" "workers s' = (workers s)[i := ?p]"
      "queue_live s = live m"
      by (simp_all add: half queue_live_def)
    have m: "reachable m" "finite (pushing m)" "over link_of s = mset_set (pushing m)"
      using parts(3) half(2) by (simp_all add: queue_ok_def)
    have "n \<in># over held s" using held_by(1) [OF i(1)] half(1) by (auto dest: mset_subset_eqD)
    note n = memory_held [OF parts(4) this]
    have new: "n \<notin> set (live m)" using n(3) q(3) by simp
    note h = pushed_half [OF m(1) n(2) new]
    have o1: "over held s' + {#n#} = over held s" using ov [OF q(2), of held] half(1) by simp
    have o2: "over link_of s' = add_mset (m_head_node (m_queue m), n) (over link_of s)"
      "over uncounted s' = over uncounted s + 1"
      using ov [OF q(2), of link_of] ov [OF q(2), of uncounted] half(1) by simp_all
    have live: "queue_live s' = queue_live s @ [n]" using h(2) by (simp add: queue_live_def half)
    have "queue_ok (popper_of s') s'"
      using parts(3) half(2) h o2(1) m q(1) same_phase_popper [OF sp] by (simp add: queue_ok_def)
    moreover have "memory_ok (popper_of s') s'"
      using parts(4) o1 live same_phase_popper [OF sp] half(3) by (auto simp: memory_ok_def)
    moreover have "size_ok (popper_of s') s'"
      using parts(5) o2 live same_phase_popper [OF sp] half(3) by (simp add: size_ok_def algebra_simps)
    ultimately show ?thesis by (intro frame [OF sp q(2)]) simp_all
  next
    case (whole prev n m)
    have sp: "same_phase s s'" using busy by (simp add: same_phase_def whole)
    have q: "queue_mem s' = Some (pushed_whole m prev n)" "workers s' = (workers s)[i := P_count]"
      by (simp_all add: whole)
    have m: "reachable m" "finite (pushing m)" "over link_of s = mset_set (pushing m)"
      using parts(3) whole(2) by (simp_all add: queue_ok_def)
    note h = pushed_whole [OF m(1) whole(3)]
    have o: "over held s' = over held s" "add_mset (prev, n) (over link_of s') = over link_of s"
      "over uncounted s' = over uncounted s"
      using ov [OF q(2), of held] ov [OF q(2), of link_of] ov [OF q(2), of uncounted] whole(1) by simp_all
    have "over link_of s' = mset_set (pushing m - {(prev, n)})"
      using o(2) m(2,3) whole(3) by (metis add_mset_remove_trivial mset_set.remove add_mset_add_single
          add_implies_diff)
    then have "queue_ok (popper_of s') s'"
      using parts(3) whole(2) h m q(1) same_phase_popper [OF sp] by (simp add: queue_ok_def)
    moreover have "queue_live s' = queue_live s" using h(2) by (simp add: queue_live_def whole)
    ultimately show ?thesis
      using parts(4,5) o same_phase_popper [OF sp]
      by (intro frame [OF sp q(2)]) (auto simp: memory_ok_def size_ok_def whole)
  next
    case count
    have sp: "same_phase s s'" using busy by (simp add: same_phase_def count)
    have q: "queue_mem s' = queue_mem s" "queue_live s' = queue_live s" "workers s' = (workers s)[i := P_out]"
      by (simp_all add: count queue_live_def)
    have o: "over held s' = over held s" "over link_of s' = over link_of s"
      "over uncounted s' + 1 = over uncounted s"
      using ov [OF q(3), of held] ov [OF q(3), of link_of] ov [OF q(3), of uncounted] count(1) by simp_all
    have "size_ok (popper_of s') s'"
      using parts(5) o(3) [symmetric] q(2) same_phase_popper [OF sp]
      by (simp add: size_ok_def count algebra_simps)
    then show ?thesis
      using parts o same_phase_popper [OF sp] q
      by (intro frame [OF sp q(3)]) (auto simp: queue_ok_def memory_ok_def count)
  qed
qed

lemma popper_control:
  "popper_step w s = (s', r) \<Longrightarrow> control s' = control s \<and> processor s' = processor s"
  by (cases w) (auto simp: fault_def split: option.splits)

subsection \<open>Taking messages keeps the invariant\<close>

fun turn_popper :: "turn \<Rightarrow> popper" where
  "turn_popper (Next w) = w"
| "turn_popper Empty = Look"
| "turn_popper Again = Look"

text \<open>States that differ in the counters of the processor and of the control thread only.\<close>

definition same_store :: "sys \<Rightarrow> sys \<Rightarrow> bool" where
  "same_store s t \<longleftrightarrow> queue_mem t = queue_mem s \<and> pointer t = pointer s \<and> queues_made t = queues_made s
     \<and> sys_size t = sys_size s \<and> workers t = workers s \<and> heap t = heap s \<and> sent t = sent s
     \<and> freed_nodes t = freed_nodes s \<and> faulted t = faulted s"

lemma same_store_live: "same_store s t \<Longrightarrow> queue_live t = queue_live s \<and> all_out t = all_out s"
  by (simp add: same_store_def queue_live_def all_out_def)

lemma store_ok_same: "same_store s t \<Longrightarrow> store_ok w t = store_ok w s"
  using same_store_live [of s t]
  by (simp add: same_store_def store_ok_def queue_ok_def memory_ok_def size_ok_def)

lemma same_store_pointer:
  "same_store s t \<Longrightarrow> control s \<noteq> K_null \<Longrightarrow> pointer_ok s \<Longrightarrow> pointer_ok t"
  by (simp add: same_store_def pointer_ok_def)

lemma mset_set_remove:
  assumes "finite A" "mset_set A = add_mset x B"
  shows "mset_set (A - {x}) = B"
proof -
  have "x \<in># mset_set A" using assms(2) by simp
  then have "x \<in> A" using assms(1) by simp
  then have "mset_set A = add_mset x (mset_set (A - {x}))" using assms(1) by (metis mset_set.remove)
  then show ?thesis using assms(2) by simp
qed

lemma popper_store:
  assumes "store_ok w s" "popper_step w s = (s', r)"
    "w = Look \<or> pointer s = Some (queues_made s) \<and> queue_mem s \<noteq> None"
  shows "store_ok (turn_popper r) s'"
    "control s' = control s" "processor s' = processor s" "sys_flag s' = sys_flag s"
    "pointer s' = pointer s" "queues_made s' = queues_made s" "workers s' = workers s"
    "queue_mem s' = None \<longleftrightarrow> queue_mem s = None"
proof -
  have "store_ok (turn_popper r) s' \<and> control s' = control s \<and> processor s' = processor s
    \<and> sys_flag s' = sys_flag s \<and> pointer s' = pointer s \<and> queues_made s' = queues_made s
    \<and> workers s' = workers s \<and> (queue_mem s' = None \<longleftrightarrow> queue_mem s = None)"
  proof (cases w)
    case Look
    then show ?thesis using assms(1,2) by (auto simp: store_ok_def queue_ok_def memory_ok_def size_ok_def)
  next
    case Popping
    then obtain m where m: "pointer s = Some (queues_made s)" "queue_mem s = Some m" using assms(3) by auto
    let ?m = "consumer_step m"
    have q: "reachable m" "queue_live s = live m" using assms(1) m by (simp_all add: store_ok_def queue_ok_def queue_live_def)
    have s': "s' = s\<lparr>queue_mem := Some ?m\<rparr>" "r = (if consumer ?m \<noteq> C_idle then Next Popping
        else if popped ?m = popped m then Again else Next (Got (last (popped ?m))))"
      using assms(2) m Popping by (simp_all add: queue_of_def)
    have l: "live m = (if popped ?m = popped m then [] else [last (popped ?m)]) @ live ?m"
      using consumer_step_live [OF q(1)] .
    have idle: "consumer ?m = C_idle \<or> popped ?m = popped m" using consumer_step_popped by blast
    have live: "queue_live s' = live ?m" by (simp add: s' queue_live_def)
    have "in_hand (turn_popper r) @ queue_live s' = queue_live s"
      "length (queue_live s') + not_counted (turn_popper r) = length (queue_live s)"
      "consumer ?m \<noteq> C_idle \<longrightarrow> turn_popper r = Popping"
      using l idle by (auto simp: s'(2) live q(2))
    moreover from this(1) have "mset (in_hand (turn_popper r)) + mset (queue_live s') = mset (queue_live s)"
      by (metis mset_append)
    ultimately show ?thesis
      using assms(1) Popping m reachable_consumer_step [OF q(1)]
      by (simp add: store_ok_def queue_ok_def memory_ok_def size_ok_def s'(1) consumer_step_keeps add.assoc)
  next
    case (Got n)
    then show ?thesis
      using assms(1,2) by (auto simp: store_ok_def queue_ok_def memory_ok_def size_ok_def queue_live_def algebra_simps)
  next
    case (Have n)
    have "mset_set (heap s) = add_mset n (over held s + mset (queue_live s))" "finite (heap s)"
      using assms(1) Have by (simp_all add: store_ok_def memory_ok_def)
    then have "mset_set (heap s - {n}) = over held s + mset (queue_live s)"
      by (intro mset_set_remove)
    then show ?thesis
      using assms(1,2) Have by (auto simp: store_ok_def queue_ok_def memory_ok_def size_ok_def queue_live_def)
  qed
  then show "store_ok (turn_popper r) s'"
    "control s' = control s" "processor s' = processor s" "sys_flag s' = sys_flag s"
    "pointer s' = pointer s" "queues_made s' = queues_made s" "workers s' = workers s"
    "queue_mem s' = None \<longleftrightarrow> queue_mem s = None" by simp_all
qed

lemma processor_inv:
  assumes "sys_inv s" "processor_step s = Some s'"
  shows "sys_inv s'"
proof -
  have parts: "phase_ok s" "pointer_ok s" "store_ok (popper_of s) s"
    using assms(1) by (simp_all add: sys_inv_def)
  have "processor s \<noteq> R_none" using assms(2) by (auto simp: processor_step_def)
  then have ph: "(control s = K_on \<or> control s = K_join) \<and> queue_mem s \<noteq> None"
    using parts(1) by (auto simp: phase_ok_def split: control_pc.splits)
  have nxt_popper: "popper_of (t\<lparr>processor := processor_next r\<rparr>) = turn_popper r"
    if "control t = control s" for t r
    using ph that by (cases r) (auto simp: popper_of_def)
  show ?thesis
  proof (cases "processor s")
    case R_test
    then have "same_store s s'" "popper_of s' = popper_of s" "control s' = control s"
      "sys_flag s' = sys_flag s" "processor s' = (if sys_flag s then R_work Look else R_ended)"
      using assms(2) ph by (auto simp: processor_step_def same_store_def popper_of_def)
    moreover from this have "phase_ok s'"
      using parts(1) ph by (auto simp: phase_ok_def same_store_def)
    ultimately show ?thesis
      using parts same_store_pointer store_ok_same ph by (auto simp: sys_inv_def)
  next
    case (R_work w)
    then have w: "popper_of s = w" using ph by (auto simp: popper_of_def)
    obtain t r where t: "popper_step w s = (t, r)" by force
    have s': "s' = t\<lparr>processor := processor_next r\<rparr>" using assms(2) R_work t by (simp add: processor_step_def)
    have "pointer s = Some (queues_made s)" using parts(2) ph by (auto simp: pointer_ok_def)
    then have "w = Look \<or> pointer s = Some (queues_made s) \<and> queue_mem s \<noteq> None" using ph by simp
    note pop = popper_store [OF parts(3) [unfolded w] t this]
    have p: "store_ok (turn_popper r) t" "control t = control s" "sys_flag t = sys_flag s"
      "pointer t = pointer s" "queues_made t = queues_made s" "workers t = workers s"
      "queue_mem t = None \<longleftrightarrow> queue_mem s = None"
      using pop by simp_all
    have "store_ok (popper_of s') s'"
      using store_ok_same [of t s'] p(1) nxt_popper [OF p(2)] by (simp add: s' same_store_def)
    moreover have "phase_ok s'" using parts(1) ph p by (cases r) (auto simp: phase_ok_def s')
    moreover have "pointer_ok s'" using parts(2) ph p by (auto simp: pointer_ok_def s')
    ultimately show ?thesis by (simp add: sys_inv_def)
  qed (use assms(2) in \<open>simp_all add: processor_step_def\<close>)
qed

subsection \<open>Starting and stopping keep the invariant\<close>

lemma over_out:
  assumes "all_out s" "f P_out = 0"
  shows "over f s = 0"
proof -
  have "map f (workers s) = map (\<lambda>p. 0) (workers s)" using assms by (auto simp: all_out_def)
  then show ?thesis by (simp only: sum_list_0)
qed

lemma out_sums:
  assumes "all_out s"
  shows "over held s = {#}" "over link_of s = {#}" "over uncounted s = 0"
  using over_out [OF assms, of held] over_out [OF assms, of link_of] over_out [OF assms, of uncounted]
  by (simp_all only: held.simps link_of.simps uncounted.simps)

lemma store_ok_out:
  assumes "all_out s"
  shows "store_ok w s \<longleftrightarrow> \<not> faulted s
     \<and> (\<forall>m. queue_mem s = Some m \<longrightarrow> reachable m \<and> pushing m = {} \<and> (consumer m \<noteq> C_idle \<longrightarrow> w = Popping))
     \<and> finite (heap s) \<and> Stub \<notin> heap s \<and> mset_set (heap s) = mset (in_hand w) + mset (queue_live s)
     \<and> sent s = freed_nodes s @ in_hand w @ queue_live s
     \<and> sys_size s = of_nat (length (queue_live s) + not_counted w)"
proof -
  have "({#} = mset_set A \<and> finite A) = (A = {})" for A :: "(node_id \<times> node_id) set"
    using mset_set_empty_iff [of A] by auto
  then have "queue_ok w s \<longleftrightarrow>
      (\<forall>m. queue_mem s = Some m \<longrightarrow> reachable m \<and> pushing m = {} \<and> (consumer m \<noteq> C_idle \<longrightarrow> w = Popping))"
    unfolding queue_ok_def out_sums [OF assms] by blast
  then show ?thesis
    unfolding store_ok_def memory_ok_def size_ok_def out_sums [OF assms] by simp
qed

lemma pointer_ok_out:
  "all_out s \<Longrightarrow> pointer_ok s \<longleftrightarrow> (control s \<noteq> K_null \<longrightarrow>
     pointer s = (if queue_mem s = None then None else Some (queues_made s)))"
  by (auto simp: pointer_ok_def all_out_def)

lemma queue_live_new: "live mpsc_new = []" "consumer mpsc_new = C_idle" "pushing mpsc_new = {}"
  by (simp_all add: live_def mpsc_new_def)

lemma all_out_cong: "workers t = workers s \<Longrightarrow> all_out t = all_out s"
  by (simp add: all_out_def)

lemma initialize_inv:
  assumes "sys_inv s" "initialize_call b s = Some s'"
  shows "sys_inv s'"
proof -
  note inv = sys_invD [OF assms(1)]
  have off: "control s = K_off" using assms(2) by (auto simp: initialize_call_def split: if_splits)
  then have ph: "all_out s" "processor s = R_none" "\<not> sys_flag s" "popper_of s = Look"
    using inv(1) by (simp_all add: phase_ok_def popper_of_def)
  show ?thesis
  proof (cases "queue_mem s")
    case None
    then have "pointer s = None" using inv(2) off by (simp add: pointer_ok_def)
    then have s': "s' = s\<lparr>queue_mem := Some mpsc_new, queues_made := queues_made s + 1,
        pointer := Some (queues_made s + 1), control := K_size b\<rparr>"
      using assms(2) off by (simp add: initialize_call_def)
    have live: "popper_of s' = Look" "queue_live s' = []" "queue_live s = []"
      using ph None by (simp_all add: s' popper_of_def queue_live_def queue_live_new)
    have out: "all_out s'" using ph(1) by (simp add: s' all_out_def)
    have "store_ok Look s'"
      using inv(7) start live ph(4)
      unfolding store_ok_out [OF out] store_ok_out [OF ph(1)] by (simp add: s' queue_live_new)
    moreover have "phase_ok s'" using ph out live(2) by (simp add: phase_ok_def) (simp add: s')
    moreover have "pointer_ok s'" unfolding pointer_ok_out [OF out] by (simp add: s')
    ultimately show ?thesis by (simp add: sys_inv_def live)
  next
    case (Some m)
    then have "pointer s = Some (queues_made s)" using inv(2) off by (simp add: pointer_ok_def)
    then have s': "s' = s\<lparr>control := K_enable b\<rparr>" using assms(2) off by (simp add: initialize_call_def)
    then have st: "same_store s s'" "popper_of s' = popper_of s"
      using ph by (simp_all add: same_store_def popper_of_def)
    then have "phase_ok s'" using ph Some same_store_live [OF st(1)] by (simp add: phase_ok_def s')
    then show ?thesis
      using inv(2,7) st same_store_pointer [OF st(1)] store_ok_same [OF st(1)] off by (simp add: sys_inv_def)
  qed
qed

lemma finalize_inv:
  assumes "sys_inv s" "finalize_call s = Some s'"
  shows "sys_inv s'"
proof -
  note inv = sys_invD [OF assms(1)]
  have on: "control s = K_off \<or> control s = K_on" and s': "s' = s\<lparr>sys_flag := False, control := K_join\<rparr>"
    using assms(2) by (auto simp: finalize_call_def split: if_splits)
  then have st: "same_store s s'" "popper_of s' = popper_of s"
    by (auto simp: same_store_def popper_of_def)
  have "phase_ok s'"
    using inv(1) on same_store_live [OF st(1)] by (auto simp: phase_ok_def s')
  then show ?thesis
    using inv(2,7) st same_store_pointer [OF st(1)] store_ok_same [OF st(1)] on by (auto simp: sys_inv_def)
qed

text \<open>With nobody else about, a size of zero means an empty queue.\<close>

lemma size_zero:
  assumes "size_ok w s" "all_out s" "length (queue_live s) < 2 ^ 64" "sys_size s = 0" "not_counted w = 0"
  shows "queue_live s = []"
proof -
  have "(of_nat (length (queue_live s)) :: uint64) = 0"
    using assms out_sums(3) by (simp add: size_ok_def)
  then have "length (queue_live s) = 0"
    using of_nat_inverse [of "length (queue_live s)" "0 :: uint64"] assms(3) by simp
  then show ?thesis by simp
qed

lemma control_inv:
  assumes "sys_inv s" "calm s" "control_step s = Some s'" "calm s'"
  shows "sys_inv s'"
proof -
  note inv = sys_invD [OF assms(1)]
  have frame: "sys_inv s'" if "same_store s s'" "popper_of s' = popper_of s" "phase_ok s'" "control s \<noteq> K_null"
    using that inv same_store_pointer store_ok_same by (simp add: sys_inv_def)
  have quiet_frame: "sys_inv s'" if "all_out s" "workers s' = workers s" "store_ok (popper_of s') s'"
    "phase_ok s'" "control s' \<noteq> K_null \<longrightarrow>
      pointer s' = (if queue_mem s' = None then None else Some (queues_made s'))"
    using that all_out_cong [OF that(2)] pointer_ok_out [of s'] by (simp add: sys_inv_def)
  show ?thesis
  proof (cases "control s")
    case (K_size b)
    then have ph: "all_out s" "processor s = R_none" "\<not> sys_flag s" "queue_mem s \<noteq> None" "popper_of s = Look"
      "queue_live s = []"
      using inv(1) by (simp_all add: phase_ok_def popper_of_def)
    have s': "s' = s\<lparr>sys_size := 0, control := K_enable b\<rparr>" using assms(3) K_size by (simp add: control_step_def)
    have w: "workers s' = workers s" and out: "all_out s'" using ph(1) by (simp_all add: s' all_out_def)
    have l: "queue_live s' = []" "popper_of s' = Look"
      using ph by (simp_all add: s' queue_live_def popper_of_def)
    have "store_ok Look s'"
      using inv(7) l ph unfolding store_ok_out [OF out] store_ok_out [OF ph(1)] by (simp add: s')
    moreover have "phase_ok s'" using ph out l by (simp add: phase_ok_def) (simp add: s')
    moreover have "control s' \<noteq> K_null \<longrightarrow>
        pointer s' = (if queue_mem s' = None then None else Some (queues_made s'))"
      using inv(2) ph K_size by (simp add: s' pointer_ok_def)
    ultimately show ?thesis by (intro quiet_frame [OF ph(1) w]) (simp_all only: l(2))
  next
    case (K_enable b)
    then show ?thesis
      using assms(3) inv(1)
      by (intro frame; cases b)
        (auto simp: control_step_def same_store_def popper_of_def phase_ok_def all_out_def)
  next
    case K_start
    then show ?thesis
      using assms(3) inv(1)
      by (intro frame) (auto simp: control_step_def same_store_def popper_of_def phase_ok_def)
  next
    case K_join
    then show ?thesis
      using assms(3,4) inv(1)
      by (intro frame)
        (auto simp: control_step_def same_store_def popper_of_def phase_ok_def calm_def split: if_splits)
  next
    case (K_drain w)
    then have ph: "all_out s" "processor s = R_none" "\<not> sys_flag s" "queue_mem s = None \<longrightarrow> w = Look"
      "popper_of s = w" using inv(1) by (simp_all add: phase_ok_def popper_of_def)
    obtain t r where t: "popper_step w s = (t, r)" by force
    have s': "s' = t\<lparr>control := drain_next r\<rparr>" using assms(3) K_drain t by (simp add: control_step_def)
    have ptr: "pointer s = (if queue_mem s = None then None else Some (queues_made s))"
      using inv(2) K_drain by (simp add: pointer_ok_def)
    then have "w = Look \<or> pointer s = Some (queues_made s) \<and> queue_mem s \<noteq> None" using ph(4) by auto
    note pop = popper_store [OF inv(7) [unfolded ph(5)] t this]
    have "popper_of s' = turn_popper r"
      using pop(3) ph(2) by (cases r) (simp_all add: s' popper_of_def)
    then have "store_ok (popper_of s') s'"
      using store_ok_same [of t s'] pop(1) by (simp add: s' same_store_def)
    moreover have "phase_ok s'"
    proof (cases r)
      case Empty
      then have "w = Look" "sys_size s = 0" "t = s"
        using t by (cases w; auto split: option.splits if_splits prod.splits)+
      moreover have "length (queue_live s) < 2 ^ 64"
        using assms(2) memory_card [OF inv(5)] by (simp add: calm_def)
      ultimately have "queue_live s = []"
        using size_zero [of w s] inv(6) ph by simp
      then show ?thesis using ph Empty \<open>t = s\<close>
        by (simp add: phase_ok_def s' all_out_def queue_live_def)
    next
      case Again
      then show ?thesis using ph pop by (simp add: phase_ok_def s' all_out_def)
    next
      case (Next w')
      have "queue_mem s \<noteq> None"
      proof
        assume none: "queue_mem s = None"
        then have "w = Look" "queue_live s = []" using ph(4) by (simp_all add: queue_live_def)
        then have "sys_size s = 0" using inv(6) ph(5) out_sums(3) [OF ph(1)] by (simp add: size_ok_def)
        then show False using t Next \<open>w = Look\<close> by simp
      qed
      then show ?thesis using ph pop Next by (auto simp: phase_ok_def s' all_out_def)
    qed
    moreover have "control s' \<noteq> K_null" by (cases r) (simp_all add: s')
    ultimately show ?thesis using ph ptr pop by (intro quiet_frame) (simp_all add: s')
  next
    case K_zero
    then have ph: "all_out s" "processor s = R_none" "\<not> sys_flag s" "popper_of s = Look" "queue_live s = []"
      using inv(1) by (simp_all add: phase_ok_def popper_of_def queue_live_def)
    have s': "s' = s\<lparr>sys_size := 0, control := K_delete\<rparr>" using assms(3) K_zero by (simp add: control_step_def)
    have w: "workers s' = workers s" and out: "all_out s'" using ph(1) by (simp_all add: s' all_out_def)
    have l: "queue_live s' = []" "popper_of s' = Look"
      using ph by (simp_all add: s' queue_live_def popper_of_def)
    have "store_ok Look s'"
      using inv(7) l ph unfolding store_ok_out [OF out] store_ok_out [OF ph(1)] by (simp add: s')
    moreover have "phase_ok s'" using ph out l by (simp add: phase_ok_def) (simp add: s')
    moreover have "control s' \<noteq> K_null \<longrightarrow>
        pointer s' = (if queue_mem s' = None then None else Some (queues_made s'))"
      using inv(2) ph K_zero by (simp add: s' pointer_ok_def)
    ultimately show ?thesis by (intro quiet_frame [OF ph(1) w]) (simp_all only: l(2))
  next
    case K_delete
    then have ph: "all_out s" "processor s = R_none" "\<not> sys_flag s" "popper_of s = Look" "queue_live s = []"
      using inv(1) by (simp_all add: phase_ok_def popper_of_def queue_live_def)
    have s': "s' = s\<lparr>queue_mem := None, control := K_null\<rparr>" using assms(3) K_delete by (simp add: control_step_def)
    have w: "workers s' = workers s" and out: "all_out s'" using ph(1) by (simp_all add: s' all_out_def)
    have l: "queue_live s' = []" "popper_of s' = Look"
      using ph by (simp_all add: s' queue_live_def popper_of_def)
    have "store_ok Look s'"
      using inv(7) l ph unfolding store_ok_out [OF out] store_ok_out [OF ph(1)] by (simp add: s')
    moreover have "phase_ok s'" using ph out l by (simp add: phase_ok_def) (simp add: s')
    moreover have "control s' \<noteq> K_null \<longrightarrow>
        pointer s' = (if queue_mem s' = None then None else Some (queues_made s'))"
      using inv(2) ph K_delete by (simp add: s' pointer_ok_def)
    ultimately show ?thesis by (intro quiet_frame [OF ph(1) w]) (simp_all only: l(2))
  next
    case K_null
    then have ph: "all_out s" "processor s = R_none" "\<not> sys_flag s" "popper_of s = Look" "queue_live s = []" "queue_mem s = None"
      using inv(1) by (simp_all add: phase_ok_def popper_of_def queue_live_def)
    have s': "s' = s\<lparr>pointer := None, control := K_off\<rparr>" using assms(3) K_null by (simp add: control_step_def)
    have w: "workers s' = workers s" and out: "all_out s'" using ph(1) by (simp_all add: s' all_out_def)
    have l: "queue_live s' = []" "popper_of s' = Look"
      using ph by (simp_all add: s' queue_live_def popper_of_def)
    have "store_ok Look s'"
      using inv(7) l ph unfolding store_ok_out [OF out] store_ok_out [OF ph(1)] by (simp add: s')
    moreover have "phase_ok s'" using ph out l by (simp add: phase_ok_def) (simp add: s')
    moreover have "control s' \<noteq> K_null \<longrightarrow>
        pointer s' = (if queue_mem s' = None then None else Some (queues_made s'))"
      using inv(2) ph K_null by (simp add: s' pointer_ok_def)
    ultimately show ?thesis by (intro quiet_frame [OF ph(1) w]) (simp_all only: l(2))
  qed (use assms(3) in \<open>simp_all add: control_step_def\<close>)
qed

lemma sys_step_inv:
  assumes "sys_inv s" "calm s" "sys_step a s = Some s'" "calm s'"
  shows "sys_inv s'"
proof (cases a)
  case (Measure i n)
  with assms(3) show ?thesis by (intro measure_inv [OF assms(1), of i n]) simp
next
  case (Worker i)
  with assms(3) show ?thesis by (intro worker_inv [OF assms(1), of i]) simp
next
  case Processor
  with assms(3) show ?thesis by (intro processor_inv [OF assms(1)]) simp
next
  case (Initialize b)
  with assms(3) show ?thesis by (intro initialize_inv [OF assms(1), of b]) simp
next
  case Finalize
  with assms(3) show ?thesis by (intro finalize_inv [OF assms(1)]) simp
next
  case Control
  with assms(3) show ?thesis by (intro control_inv [OF assms(1,2) _ assms(4)]) simp
qed

lemma start_inv: "sys_inv (sys_start k)" "calm (sys_start k)"
proof -
  have out: "all_out (sys_start k)" by (simp add: all_out_def sys_start_def)
  have s: "queue_live (sys_start k) = []" "popper_of (sys_start k) = Look"
    by (simp_all add: queue_live_def popper_of_def sys_start_def)
  have "store_ok Look (sys_start k)"
    unfolding store_ok_out [OF out] by (simp add: s) (simp add: sys_start_def)
  moreover have "phase_ok (sys_start k)" using out by (simp add: phase_ok_def) (simp add: sys_start_def)
  moreover have "pointer_ok (sys_start k)" unfolding pointer_ok_out [OF out] by (simp add: sys_start_def)
  ultimately show "sys_inv (sys_start k)" by (simp add: sys_inv_def s)
  show "calm (sys_start k)" by (simp add: calm_def sys_start_def)
qed

lemma calm_reach_inv: "sys_reach calm k s \<Longrightarrow> sys_inv s \<and> calm s"
proof (induction rule: sys_reach.induct)
  case at_start
  then show ?case using start_inv by simp
next
  case (by_step s a s')
  then show ?case using sys_step_inv by blast
qed

subsection \<open>Stopping comes to an end\<close>

text \<open>While the queue is emptied no other thread has a step.\<close>

lemma emptying_control:
  assumes "sys_inv s" "emptying (control s)" "sys_step a s = Some s'"
  shows "a = Control"
proof -
  have "phase_ok s" using assms(1) by (simp add: sys_inv_def)
  then have "all_out s \<and> processor s = R_none \<and> \<not> sys_flag s"
    using assms(2) by (cases "control s") (simp_all add: phase_ok_def)
  then show ?thesis
    using assms(2,3)
    by (cases a; cases "control s")
      (simp_all add: measure_call_def out_worker_step processor_step_def initialize_call_def
        finalize_call_def split: if_splits)
qed

text \<open>What a pop of the loop of \<open>finalize\<close> has learnt about the queue, which no one else changes.\<close>

fun pop_sure :: "queue \<Rightarrow> consumer_pc \<Rightarrow> bool" where
  "pop_sure q C_idle \<longleftrightarrow> True"
| "pop_sure q (C_next t) \<longleftrightarrow> True"
| "pop_sure q (C_test t n) \<longleftrightarrow> nxt q t = n"
| "pop_sure q (C_stub t) \<longleftrightarrow> m_head_node q = t"
| "pop_sure q (C_link t prev) \<longleftrightarrow> prev = t"
| "pop_sure q (C_last t) \<longleftrightarrow> nxt q t \<noteq> None"

lemma lone_path:
  assumes "path m p" "pending m = {}" "nxt (m_queue m) (m_tail_node (m_queue m)) = None"
  shows "p = [m_tail_node (m_queue m)]"
proof -
  obtain r where r: "p = m_tail_node (m_queue m) # r" using path_cons [OF assms(1)] by blast
  then show ?thesis using assms by (cases r) (auto simp: path_def)
qed

lemma quiet_pop_succeeds:
  assumes "reachable m" "pushing m = {}" "live m \<noteq> []" "pop_sure (m_queue m) (consumer m)"
  shows "consumer (consumer_step m) \<noteq> C_idle
      \<and> pop_sure (m_queue (consumer_step m)) (consumer (consumer_step m))
      \<and> popped (consumer_step m) = popped m
    \<or> popped (consumer_step m) \<noteq> popped m"
proof -
  obtain p where p: "path m p" using reachable_path [OF assms(1)] by blast
  have alone: "p = [m_tail_node (m_queue m)]"
    if "nxt (m_queue m) (m_tail_node (m_queue m)) = None" "pending m = {}"
    using lone_path [OF p that(2,1)] .
  show ?thesis
  proof (cases "consumer m")
    case C_idle
    then have "pending m = {}" using assms(2) by (simp add: pending_def)
    then have "m_tail_node (m_queue m) = Stub \<Longrightarrow> nxt (m_queue m) Stub \<noteq> None"
      using alone path_live [OF p] assms(3) by (fastforce simp: messages_def)
    then show ?thesis using C_idle by (auto simp: consumer_step_def Let_def)
  next
    case (C_test t n)
    then have "pending m = {}" "t = m_tail_node (m_queue m)" "nxt (m_queue m) t = n"
      using assms(2,4) path_ok [OF p] by (simp_all add: pending_def)
    then have "n = None \<Longrightarrow> m_head_node (m_queue m) = t"
      using alone p by (fastforce simp: path_def)
    then show ?thesis using C_test by (cases n) (simp_all add: consumer_step_def Let_def)
  qed (use assms(4) in \<open>auto simp: consumer_step_def Let_def exchange_def store_def\<close>)
qed

definition draining_ok :: "sys \<Rightarrow> bool" where
  "draining_ok s \<longleftrightarrow> (control s = K_drain Popping \<longrightarrow>
     (\<forall>m. queue_mem s = Some m \<longrightarrow> live m \<noteq> [] \<and> pop_sure (m_queue m) (consumer m)))"

text \<open>A bound on the steps of all threads until \<open>finalize\<close> returns.\<close>

fun unsent :: "worker_pc \<Rightarrow> nat" where
  "unsent (P_in n) = 1"
| "unsent (P_push g n) = 1"
| "unsent p = 0"

fun worker_left :: "worker_pc \<Rightarrow> nat" where
  "worker_left P_out = 0"
| "worker_left (P_in n) = 4"
| "worker_left (P_push g n) = 3"
| "worker_left (P_link g prev n) = 2"
| "worker_left P_count = 1"

fun pop_left :: "consumer_pc \<Rightarrow> nat" where
  "pop_left C_idle = 11"
| "pop_left c = 5 + steps_left c"

fun popper_left :: "popper \<Rightarrow> sys \<Rightarrow> nat" where
  "popper_left Look s = 12"
| "popper_left Popping s = (case queue_mem s of None \<Rightarrow> 11 | Some m \<Rightarrow> pop_left (consumer m))"
| "popper_left (Got n) s = 14"
| "popper_left (Have n) s = 13"

fun processor_left :: "processor_pc \<Rightarrow> sys \<Rightarrow> nat" where
  "processor_left R_none s = 0"
| "processor_left R_test s = 1"
| "processor_left (R_work w) s = popper_left w s"
| "processor_left R_ended s = 0"

fun control_left :: "control_pc \<Rightarrow> sys \<Rightarrow> nat" where
  "control_left K_join s = 13 + processor_left (processor s) s"
| "control_left (K_drain w) s = popper_left w s"
| "control_left K_zero s = 3"
| "control_left K_delete s = 2"
| "control_left K_null s = 1"
| "control_left k s = 0"

definition finalize_left :: "sys \<Rightarrow> nat" where
  "finalize_left s = 20 * (length (queue_live s) + over unsent s) + over worker_left s
     + control_left (control s) s"

fun stopping :: "control_pc \<Rightarrow> bool" where
  "stopping K_join \<longleftrightarrow> True"
| "stopping k \<longleftrightarrow> emptying k"

lemma popper_left_cong:
  "map_option consumer (queue_mem t) = map_option consumer (queue_mem s) \<Longrightarrow>
     popper_left w t = popper_left w s"
  by (cases w; cases "queue_mem s"; cases "queue_mem t") simp_all

lemma processor_left_cong:
  "map_option consumer (queue_mem t) = map_option consumer (queue_mem s) \<Longrightarrow>
     processor_left r t = processor_left r s"
  using popper_left_cong [of t s] by (cases r) (simp_all only: processor_left.simps)

lemma worker_left_step:
  assumes "sys_inv s" "worker_step i s = Some s'" "control s = K_join"
  shows "finalize_left s' < finalize_left s" "control s' = K_join" "heap s' = heap s"
proof -
  have i: "i < length (workers s)" using assms(2) by (auto simp: worker_step_def split: if_splits)
  have frame: "finalize_left s' < finalize_left s \<and> control s' = K_join \<and> heap s' = heap s"
    if "workers s' = (workers s)[i := p]" "worker_left p < worker_left (workers s ! i)"
      "length (queue_live s') + unsent p = length (queue_live s) + unsent (workers s ! i)"
      "map_option consumer (queue_mem s') = map_option consumer (queue_mem s)"
      "processor s' = processor s" "control s' = control s" "heap s' = heap s" for p
  proof -
    have "control_left (control s') s' = control_left (control s) s"
      using processor_left_cong [OF that(4)] that(5,6) assms(3) by simp
    moreover have "over unsent s' + unsent (workers s ! i) = over unsent s + unsent p"
      "over worker_left s' + worker_left (workers s ! i) = over worker_left s + worker_left p"
      by (rule over_worker [OF i that(1)])+
    then have "length (queue_live s') + over unsent s' = length (queue_live s) + over unsent s"
      "over worker_left s' < over worker_left s" using that(2,3) by linarith+
    ultimately have "finalize_left s' < finalize_left s" by (simp add: finalize_left_def)
    then show ?thesis using that(6,7) assms(3) by simp
  qed
  have live: "queue_live t = live m" if "queue_mem t = Some m" for t m
    using that by (simp add: queue_live_def)
  have "finalize_left s' < finalize_left s \<and> control s' = K_join \<and> heap s' = heap s"
    using assms(2,1)
  proof (cases rule: worker_cases)
    case (test n)
    then show ?thesis by (intro frame [of "P_push (queues_made s) n"]) (simp_all add: queue_live_def)
  next
    case (half n m)
    have "n \<in># over held s" using held_by(1) [OF i] half(1) by (auto dest: mset_subset_eqD)
    note n = memory_held [OF sys_invD(5) [OF assms(1)] this]
    have "reachable m" using sys_invD(4) [OF assms(1)] half(2) by (simp add: queue_ok_def)
    note h = pushed_half [OF this n(2)]
    show ?thesis
      using half h n(3) live [of s'] live [of s]
      by (intro frame [of "P_link (queues_made s) (m_head_node (m_queue m)) n"]) simp_all
  next
    case (whole prev n m)
    have "reachable m" using sys_invD(4) [OF assms(1)] whole(2) by (simp add: queue_ok_def)
    note h = pushed_whole [OF this whole(3)]
    show ?thesis
      using whole h live [of s'] live [of s] by (intro frame [of P_count]) simp_all
  next
    case count
    then show ?thesis by (intro frame [of P_out]) (simp_all add: queue_live_def)
  qed
  then show "finalize_left s' < finalize_left s" "control s' = K_join" "heap s' = heap s" by simp_all
qed

lemma consumer_step_left:
  "consumer m \<noteq> C_idle \<Longrightarrow> steps_left (consumer (consumer_step m)) < steps_left (consumer m)"
  by (cases "consumer m") (auto simp: consumer_step_def Let_def split: option.splits)

lemma pop_left_step:
  "consumer (consumer_step m) \<noteq> C_idle \<Longrightarrow> pop_left (consumer (consumer_step m)) < pop_left (consumer m)"
  using consumer_step_left [of m] steps_left_bound [of "consumer (consumer_step m)"]
  by (cases "consumer m"; cases "consumer (consumer_step m)") simp_all

lemma pop_left_bounds: "5 < pop_left c" "pop_left c < 12"
  using steps_left_bound [of c] by (cases c; simp)+

text \<open>A turn brings its taker nearer to the end, unless a pop comes back with nothing.\<close>

lemma popper_left_step:
  assumes "store_ok w s" "popper_step w s = (s', r)"
    "w = Look \<or> pointer s = Some (queues_made s) \<and> queue_mem s \<noteq> None"
  shows "\<And>w'. r = Next w' \<Longrightarrow> 20 * length (queue_live s') + popper_left w' s'
      < 20 * length (queue_live s) + popper_left w s"
    "length (queue_live s') \<le> length (queue_live s)" "heap s' \<subseteq> heap s"
    "r = Again \<Longrightarrow> w \<noteq> Popping \<Longrightarrow> 12 < popper_left w s" "5 < popper_left w s"
proof -
  have "(\<forall>w'. r = Next w' \<longrightarrow> 20 * length (queue_live s') + popper_left w' s'
      < 20 * length (queue_live s) + popper_left w s)
    \<and> length (queue_live s') \<le> length (queue_live s) \<and> heap s' \<subseteq> heap s
    \<and> (r = Again \<longrightarrow> w \<noteq> Popping \<longrightarrow> 12 < popper_left w s) \<and> 5 < popper_left w s"
  proof (cases w)
    case Look
    then show ?thesis
      using assms(2) by (auto simp: pop_left_bounds split: option.splits if_splits)
  next
    case Popping
    then obtain m where m: "pointer s = Some (queues_made s)" "queue_mem s = Some m" using assms(3) by auto
    have q: "reachable m" "queue_live s = live m"
      using assms(1) m by (simp_all add: store_ok_def queue_ok_def queue_live_def)
    show ?thesis
      using assms(2) m Popping q(2) consumer_step_live [OF q(1)] pop_left_step [of m]
        pop_left_bounds [of "consumer m"] consumer_step_popped [of m]
      by (auto simp: queue_of_def queue_live_def split: if_splits)
  qed (use assms(2) in \<open>auto simp: queue_live_def split: option.splits\<close>)
  then show "\<And>w'. r = Next w' \<Longrightarrow> 20 * length (queue_live s') + popper_left w' s'
      < 20 * length (queue_live s) + popper_left w s"
    "length (queue_live s') \<le> length (queue_live s)" "heap s' \<subseteq> heap s"
    "r = Again \<Longrightarrow> w \<noteq> Popping \<Longrightarrow> 12 < popper_left w s" "5 < popper_left w s" by blast+
qed

lemma processor_left_step:
  assumes "sys_inv s" "processor_step s = Some s'" "control s = K_join"
  shows "finalize_left s' < finalize_left s" "control s' = K_join" "heap s' \<subseteq> heap s"
proof -
  note inv = sys_invD [OF assms(1)]
  have flag: "\<not> sys_flag s" using inv(1) assms(3) by (simp add: phase_ok_def)
  have "processor s \<noteq> R_none" using assms(2) by (auto simp: processor_step_def)
  then have q: "queue_mem s \<noteq> None" using inv(1) assms(3) by (auto simp: phase_ok_def)
  have "finalize_left s' < finalize_left s \<and> control s' = K_join \<and> heap s' \<subseteq> heap s"
  proof (cases "processor s")
    case R_test
    then show ?thesis
      using assms(2,3) flag by (auto simp: processor_step_def finalize_left_def queue_live_def)
  next
    case (R_work w)
    then have w: "popper_of s = w" using assms(3) by (simp add: popper_of_def)
    obtain t r where t: "popper_step w s = (t, r)" by force
    have s': "s' = t\<lparr>processor := processor_next r\<rparr>" using assms(2) R_work t by (simp add: processor_step_def)
    have ptr: "w = Look \<or> pointer s = Some (queues_made s) \<and> queue_mem s \<noteq> None"
      using inv(2) q assms(3) by (simp add: pointer_ok_def)
    note pop = popper_store [OF inv(7) [unfolded w] t ptr]
    note left = popper_left_step [OF inv(7) [unfolded w] t ptr]
    have "queue_live s' = queue_live t" by (simp add: s' queue_live_def)
    moreover have "popper_left w' s' = popper_left w' t" for w' by (rule popper_left_cong) (simp add: s')
    ultimately show ?thesis
      using left pop assms(3) R_work by (cases r) (auto simp: s' finalize_left_def)
  qed (use assms(2) in \<open>simp_all add: processor_step_def\<close>)
  then show "finalize_left s' < finalize_left s" "control s' = K_join" "heap s' \<subseteq> heap s" by simp_all
qed

lemma drain_turn:
  assumes "sys_inv s" "draining_ok s" "control s = K_drain w" "popper_step w s = (t, r)"
  shows "w = Popping \<Longrightarrow> r \<noteq> Again"
    "r = Next Popping \<Longrightarrow> queue_mem t = Some m \<Longrightarrow> live m \<noteq> [] \<and> pop_sure (m_queue m) (consumer m)"
proof -
  note inv = sys_invD [OF assms(1)]
  have ph: "all_out s" "queue_mem s = None \<longrightarrow> w = Look" "popper_of s = w"
    using inv(1) assms(3) by (simp_all add: phase_ok_def popper_of_def)
  have ptr: "pointer s = (if queue_mem s = None then None else Some (queues_made s))"
    using inv(2) assms(3) by (simp add: pointer_ok_def)
  note store = inv(7) [unfolded ph(3) store_ok_out [OF ph(1)]]
  have popping: "popped (consumer_step m) \<noteq> popped m \<or> consumer (consumer_step m) \<noteq> C_idle
      \<and> live (consumer_step m) \<noteq> [] \<and> pop_sure (m_queue (consumer_step m)) (consumer (consumer_step m))"
    if "w = Popping" "queue_mem s = Some m" for m
  proof -
    have m: "reachable m" "pushing m = {}" "live m \<noteq> []" "pop_sure (m_queue m) (consumer m)"
      using store that assms(2,3) by (simp_all add: draining_ok_def)
    then show ?thesis
      using quiet_pop_succeeds [OF m] consumer_step_live [OF m(1)] by auto
  qed
  show "w = Popping \<Longrightarrow> r \<noteq> Again"
  proof -
    assume w: "w = Popping"
    then obtain m where m: "queue_mem s = Some m" using ph(2) by auto
    from popping [OF w m] show "r \<noteq> Again"
      using assms(4) w m ptr by (auto simp: queue_of_def split: if_splits)
  qed
  assume r: "r = Next Popping" "queue_mem t = Some m"
  show "live m \<noteq> [] \<and> pop_sure (m_queue m) (consumer m)"
  proof (cases w)
    case Look
    then have "sys_size s \<noteq> 0" "t = s" using assms(4) r by (auto split: if_splits)
    then show ?thesis using store r(2) Look by (auto simp: queue_live_def)
  next
    case Popping
    then obtain m' where m': "queue_mem s = Some m'" using ph(2) by auto
    have "m = consumer_step m'" "consumer m \<noteq> C_idle"
      using assms(4) r m' Popping ptr by (auto simp: queue_of_def split: if_splits)
    moreover from this have "popped (consumer_step m') = popped m'" using consumer_step_popped by blast
    ultimately show ?thesis using popping [OF Popping m'] by simp
  qed (use assms(4) r in simp_all)
qed

lemma control_left_step:
  assumes "sys_inv s" "draining_ok s" "control_step s = Some s'" "stopping (control s)" "all_out s"
  shows "finalize_left s' < finalize_left s" "stopping (control s') \<or> control s' = K_off"
    "heap s' \<subseteq> heap s" "draining_ok s'" "all_out s'"
proof -
  note inv = sys_invD [OF assms(1)]
  have sums: "over unsent s = 0" "over worker_left s = 0"
    using over_out [OF assms(5), of unsent] over_out [OF assms(5), of worker_left] by simp_all
  have "finalize_left s' < finalize_left s \<and> (stopping (control s') \<or> control s' = K_off)
    \<and> heap s' \<subseteq> heap s \<and> draining_ok s' \<and> all_out s'"
  proof (cases "control s")
    case K_join
    then show ?thesis
      using assms(3,5) by (auto simp: control_step_def finalize_left_def draining_ok_def all_out_def
          queue_live_def split: if_splits)
  next
    case (K_drain w)
    then have ph: "queue_mem s = None \<longrightarrow> w = Look" "popper_of s = w"
      using inv(1) by (simp_all add: phase_ok_def popper_of_def)
    obtain t r where t: "popper_step w s = (t, r)" by force
    have s': "s' = t\<lparr>control := drain_next r\<rparr>" using assms(3) K_drain t by (simp add: control_step_def)
    have "w = Look \<or> pointer s = Some (queues_made s) \<and> queue_mem s \<noteq> None"
      using inv(2) ph(1) K_drain by (auto simp: pointer_ok_def)
    note pop = popper_store [OF inv(7) [unfolded ph(2)] t this]
      and left = popper_left_step [OF inv(7) [unfolded ph(2)] t this]
    note turn = drain_turn [OF assms(1,2) K_drain t]
    have live: "queue_live s' = queue_live t" "\<And>w'. popper_left w' s' = popper_left w' t"
      by (simp add: s' queue_live_def) (rule popper_left_cong, simp add: s')
    have out: "all_out s'" using pop(7) assms(5) by (simp add: s' all_out_def)
    have sums': "over unsent s' = 0" "over worker_left s' = 0"
      using over_out [OF out, of unsent] over_out [OF out, of worker_left] by simp_all
    have "20 * length (queue_live s') + control_left (control s') s'
        < 20 * length (queue_live s) + popper_left w s"
    proof (cases r)
      case Empty
      then show ?thesis using left(2,5) live by (simp add: s')
    next
      case Again
      then have "12 < popper_left w s" using left(4) turn(1) by blast
      then show ?thesis using left(2) live Again by (simp add: s')
    next
      case (Next w')
      then show ?thesis using left(1) live by (simp add: s')
    qed
    then have "finalize_left s' < finalize_left s"
      unfolding finalize_left_def sums sums' K_drain by simp
    moreover have "draining_ok s'" using turn(2) by (cases r) (auto simp: draining_ok_def s')
    moreover have "stopping (control s')" by (cases r) (simp_all add: s')
    moreover have "heap s' \<subseteq> heap s" using left(3) by (simp add: s')
    ultimately show ?thesis using out by simp
  qed (use assms(3-5) inv(1) sums in \<open>auto simp: control_step_def finalize_left_def draining_ok_def
      all_out_def queue_live_def phase_ok_def\<close>)
  then show "finalize_left s' < finalize_left s" "stopping (control s') \<or> control s' = K_off"
    "heap s' \<subseteq> heap s" "draining_ok s'" "all_out s'" by simp_all
qed

lemma step_to_drain:
  assumes "sys_step a s = Some s'" "control s' = K_drain Popping" "a \<noteq> Control"
  shows "control s = K_drain Popping"
  using assms
  by (cases a)
    (auto simp: measure_call_def worker_step_def processor_step_def initialize_call_def finalize_call_def
      fault_def popper_control split: if_splits option.splits worker_pc.splits processor_pc.splits prod.splits)

lemma calm_reach_draining: "sys_reach calm k s \<Longrightarrow> draining_ok s"
proof (induction rule: sys_reach.induct)
  case at_start
  then show ?case by (simp add: draining_ok_def sys_start_def)
next
  case (by_step s a s')
  have s: "sys_inv s" "calm s" "draining_ok s" using calm_reach_inv by_step by simp_all
  show ?case
  proof (cases "a = Control \<and> stopping (control s)")
    case True
    show ?thesis
    proof (cases "control s = K_join")
      case True
      then show ?thesis
        using by_step(3) \<open>a = Control \<and> stopping (control s)\<close>
        by (auto simp: control_step_def draining_ok_def split: if_splits)
    next
      case False
      then have "emptying (control s)" using True by (cases "control s") simp_all
      then have "all_out s" using s(2) by (simp add: calm_def)
      then show ?thesis using control_left_step(4) [OF s(1,3)] True by_step(3) by simp
    qed
  next
    case False
    have "control s' \<noteq> K_drain Popping"
    proof
      assume d: "control s' = K_drain Popping"
      show False
      proof (cases "a = Control")
        case True
        then show ?thesis
          using False by_step(3) d by (cases "control s") (auto simp: control_step_def split: if_splits)
      next
        case other: False
        then have "control s = K_drain Popping" using step_to_drain by_step(3) d by blast
        then show ?thesis using emptying_control [OF s(1) _ by_step(3)] other by simp
      qed
    qed
    then show ?thesis by (simp add: draining_ok_def)
  qed
qed

subsection \<open>Properties\<close>

lemma busy_worker_step: "i < length (workers s) \<Longrightarrow> workers s ! i \<noteq> P_out \<Longrightarrow> worker_step i s \<noteq> None"
  by (cases "workers s ! i") (auto simp: worker_step_def split: option.splits)

lemma processor_step_some: "processor s \<noteq> R_none \<Longrightarrow> processor s \<noteq> R_ended \<Longrightarrow> processor_step s \<noteq> None"
  by (cases "processor s") (auto simp: processor_step_def split: prod.splits)

lemma control_step_some:
  "stopping (control s) \<Longrightarrow> (control s = K_join \<Longrightarrow> processor s = R_none \<or> processor s = R_ended) \<Longrightarrow>
     control_step s \<noteq> None"
  by (cases "control s") (auto simp: control_step_def split: prod.splits)

lemma calm_less: "calm s \<Longrightarrow> memory_ok w s \<Longrightarrow> heap s' \<subseteq> heap s \<Longrightarrow> (emptying (control s') \<Longrightarrow> all_out s') \<Longrightarrow> calm s'"
  using card_mono [of "heap s" "heap s'"] by (auto simp: calm_def memory_ok_def)

lemma stopping_step:
  assumes "sys_inv s" "calm s" "draining_ok s" "stopping (control s)" "sys_step a s = Some s'" "calm s'"
  shows "finalize_left s' < finalize_left s \<and> (stopping (control s') \<or> control s' = K_off)"
proof (cases "emptying (control s)")
  case True
  have "all_out s" using assms(2) True by (simp add: calm_def)
  moreover have "a = Control" using emptying_control [OF assms(1) True assms(5)] .
  ultimately show ?thesis using control_left_step(1,2) [OF assms(1,3)] assms(4,5) by simp
next
  case False
  then have join: "control s = K_join" using assms(4) by (cases "control s") simp_all
  have flag: "\<not> sys_flag s" using sys_invD(1) [OF assms(1)] join by (simp add: phase_ok_def)
  show ?thesis
  proof (cases a)
    case (Worker i)
    then show ?thesis using worker_left_step(1,2) [OF assms(1) _ join] assms(5) by simp
  next
    case Processor
    then show ?thesis using processor_left_step(1,2) [OF assms(1) _ join] assms(5) by simp
  next
    case Control
    then have step: "control_step s = Some s'" using assms(5) by simp
    then have "control s' = K_drain Look" "workers s' = workers s"
      using join by (auto simp: control_step_def split: if_splits)
    then have "all_out s" using assms(6) by (simp add: calm_def all_out_def)
    then show ?thesis using control_left_step(1,2) [OF assms(1,3) step assms(4)] by simp
  qed (use assms(5) join flag in \<open>simp_all add: measure_call_def initialize_call_def finalize_call_def\<close>)
qed

lemma stopping_progress:
  assumes "sys_inv s" "calm s" "draining_ok s" "stopping (control s)"
  shows "\<exists>a s'. sys_step a s = Some s' \<and> calm s'"
proof -
  note mem = sys_invD(5) [OF assms(1)]
  have drain: "\<exists>a s'. sys_step a s = Some s' \<and> calm s'" if out: "all_out s" and ended: "control s = K_join \<longrightarrow> (processor s = R_none \<or> processor s = R_ended)"
  proof -
    obtain s' where s': "control_step s = Some s'" using control_step_some [OF assms(4)] ended by auto
    note left = control_left_step [OF assms(1,3) s' assms(4) out]
    have "calm s'" using calm_less [OF assms(2) mem left(3)] left(5) by simp
    then show ?thesis using s' by (intro exI [of _ Control]) simp
  qed
  show ?thesis
  proof (cases "emptying (control s)")
    case True
    then have "all_out s" "control s \<noteq> K_join" using assms(2) by (auto simp: calm_def)
    then show ?thesis by (intro drain) simp_all
  next
    case False
    then have join: "control s = K_join" using assms(4) by (cases "control s") simp_all
    show ?thesis
    proof (cases "all_out s")
      case False
      then obtain i where "i < length (workers s)" "workers s ! i \<noteq> P_out"
        by (auto simp: all_out_def in_set_conv_nth)
      then obtain s' where s': "worker_step i s = Some s'" using busy_worker_step by blast
      note left = worker_left_step(2,3) [OF assms(1) s' join]
      have "calm s'" using calm_less [OF assms(2) mem, of s'] left by simp
      then show ?thesis using s' by (intro exI [of _ "Worker i"]) simp
    next
      case out: True
      show ?thesis
      proof (cases "processor s = R_none \<or> processor s = R_ended")
        case True
        then show ?thesis using drain out by blast
      next
        case False
        then obtain s' where s': "processor_step s = Some s'" using processor_step_some by blast
        note left = processor_left_step(2,3) [OF assms(1) s' join]
        have "calm s'" using calm_less [OF assms(2) mem left(2)] left(1) by simp
        then show ?thesis using s' by (intro exI [of _ Processor]) simp
      qed
    qed
  qed
qed

text \<open>An example: a message is sent, taken by the processor thread in the middle of the push, and
  the library is stopped.\<close>

definition calm_actions :: "action list" where
  "calm_actions = [Initialize True, Control, Control, Control, Measure 0 (Msg 1), Worker 0, Worker 0,
     Worker 0, Worker 0, Finalize, Processor, Control, Control]"

definition calm_end :: "action list" where
  "calm_end = [Control, Control, Control, Control, Control, Control, Control, Control, Control,
     Control, Control, Control]"

lemmas sys_eval = sys_start_def measure_call_def worker_step_def processor_step_def initialize_call_def
  finalize_call_def control_step_def set_worker_def queue_of_def accessible_def fault_def
  consumer_step_def mpsc_new_def queue_new_def exchange_def store_def Let_def

lemma calm_runs:
  obtains s t where "sys_reach calm 1 s" "control s = K_drain Popping" "finalize_left s = 31"
    "sys_reach calm 1 t" "control t = K_off" "queue_mem t = None" "sent t = [Msg 1]"
proof -
  have "\<exists>s t. sys_run calm calm_actions (sys_start 1) = Some s \<and> control s = K_drain Popping
      \<and> finalize_left s = 31 \<and> sys_run calm calm_end s = Some t \<and> control t = K_off
      \<and> queue_mem t = None \<and> sent t = [Msg 1]"
    by (simp add: calm_actions_def calm_end_def sys_eval calm_def all_out_def finalize_left_def
        queue_live_def live_def)
  then obtain s t where run: "sys_run calm calm_actions (sys_start 1) = Some s"
      "sys_run calm calm_end s = Some t"
    and s: "control s = K_drain Popping" "finalize_left s = 31"
    and t: "control t = K_off" "queue_mem t = None" "sent t = [Msg 1]" by blast
  have r: "sys_reach calm 1 s" using sys_run_reach [OF at_start run(1)] .
  show thesis using that [OF r s sys_run_reach [OF r run(2)] t] .
qed

text \<open>C6: However the threads are scheduled, if no thread is inside a measuring point when the queue
  begins to be emptied, no memory is used after it was freed, over any number of sessions: what was
  sent is what was freed, what is being handled and what waits, in this order; the allocated messages
  are exactly those held by a thread, handled or waiting, each once; the size is that of the queue
  but for the messages about to be counted; and after \<open>finalize\<close> every message has been freed.\<close>

theorem calm_runs_are_safe:
  assumes "sys_reach calm k s"
  shows "\<not> faulted s \<and> sent s = freed_nodes s @ in_hand (popper_of s) @ queue_live s
    \<and> mset_set (heap s) = over held s + mset (in_hand (popper_of s)) + mset (queue_live s)
    \<and> sys_size s + of_nat (over uncounted s)
        = of_nat (length (queue_live s) + not_counted (popper_of s))
    \<and> (control s = K_off \<and> queue_mem s = None \<longrightarrow> heap s = {} \<and> freed_nodes s = sent s)"
proof -
  have inv: "sys_inv s" using calm_reach_inv [OF assms] by simp
  note parts = sys_invD [OF inv]
  have mem: "mset_set (heap s) = over held s + mset (in_hand (popper_of s)) + mset (queue_live s)"
    "sent s = freed_nodes s @ in_hand (popper_of s) @ queue_live s" "finite (heap s)"
    using parts(5) by (simp_all add: memory_ok_def)
  have "heap s = {} \<and> freed_nodes s = sent s" if "control s = K_off" "queue_mem s = None"
  proof -
    have out: "all_out s" "popper_of s = Look" "queue_live s = []"
      using parts(1) that by (simp_all add: phase_ok_def popper_of_def queue_live_def)
    then have "mset_set (heap s) = {#}" using mem(1) out_sums(1) [OF out(1)] by simp
    then show ?thesis using mem(2,3) out by (simp add: mset_set_empty_iff)
  qed
  then show ?thesis using mem(1,2) parts(3,6) by (simp add: size_ok_def)
qed

theorem calm_runs_are_safe_witness:
  "\<exists>t :: sys. control t = K_off \<and> sent t = [Msg 1] \<and> heap t = {} \<and> freed_nodes t = [Msg 1] \<and> \<not> faulted t"
proof (rule calm_runs)
  fix t assume t: "sys_reach calm 1 t" "control t = K_off" "queue_mem t = None" "sent t = [Msg 1]"
  from calm_runs_are_safe [OF t(1)] t(2,3) have "\<not> faulted t" "heap t = {}" "freed_nodes t = sent t"
    by blast+
  then show ?thesis using t(2,4) by (intro exI [of _ t]) simp
qed

text \<open>C7: Under the same discipline \<open>finalize\<close> returns: from the moment the flag is cleared some
  thread can always go on, and every step of any thread (those still sending, the processor thread,
  the caller waiting or emptying the queue) lowers a bound, until the caller is back; no fairness of
  the scheduler is needed.\<close>

theorem finalize_always_returns:
  assumes "sys_reach calm k s" "stopping (control s)"
  shows "(\<exists>a s'. sys_step a s = Some s' \<and> calm s')
    \<and> (\<forall>a s'. sys_step a s = Some s' \<longrightarrow> calm s' \<longrightarrow>
        finalize_left s' < finalize_left s \<and> (stopping (control s') \<or> control s' = K_off))"
proof (intro conjI allI impI)
  have s: "sys_inv s" "calm s" "draining_ok s"
    using calm_reach_inv [OF assms(1)] calm_reach_draining [OF assms(1)] by simp_all
  show "\<exists>a s'. sys_step a s = Some s' \<and> calm s'" using stopping_progress [OF s assms(2)] .
  fix a s' assume "sys_step a s = Some s'" "calm s'"
  from stopping_step [OF s assms(2) this]
  show "finalize_left s' < finalize_left s" "stopping (control s') \<or> control s' = K_off" by simp_all
qed

theorem finalize_always_returns_witness:
  "\<exists>s a s'. sys_reach calm 1 s \<and> sys_step a s = Some s' \<and> finalize_left s' < 31"
proof (rule calm_runs)
  fix s assume s: "sys_reach calm 1 s" "control s = K_drain Popping" "finalize_left s = 31"
  then obtain a s' where "sys_step a s = Some s'" "calm s'" "finalize_left s' < finalize_left s"
    using finalize_always_returns [of 1 s] by fastforce
  then show ?thesis using s by auto
qed

subsection \<open>Stopping while a thread is sending\<close>

text \<open>The library does not wait for the threads inside a measuring point. Three of the schedules.\<close>

definition session_start :: "action list" where
  "session_start = [Initialize True, Control, Control, Control]"

definition session_end :: "action list" where
  "session_end = [Finalize, Processor, Control, Control, Control, Control, Control]"

definition late_store :: "action list" where
  "late_store = session_start @ [Measure 0 (Msg 1), Worker 0, Worker 0]
     @ [Finalize, Processor, Control, Control, Control, Control] @ [Worker 0]"

definition late_test :: "action list" where
  "late_test = session_start @ [Measure 0 (Msg 1)] @ session_end @ [Worker 0]"

definition late_count :: "action list" where
  "late_count = session_start @ [Measure 0 (Msg 1), Worker 0, Worker 0, Worker 0] @ session_end
     @ session_start @ [Worker 0] @ [Finalize, Processor, Control]"

abbreviation anything :: "sys \<Rightarrow> bool" where
  "anything s \<equiv> True"

definition states_after :: "sys \<Rightarrow> sys set" where
  "states_after s = {t. \<exists>as. sys_run anything as s = Some t}"

text \<open>The state that \<open>late_count\<close> ends in: an empty queue with a size of one.\<close>

definition stuck :: "sys \<Rightarrow> bool" where
  "stuck s \<longleftrightarrow> (control s = K_drain Look \<or> control s = K_drain Popping) \<and> all_out s
     \<and> processor s = R_none \<and> \<not> sys_flag s \<and> sys_size s = 1
     \<and> queue_mem s = Some mpsc_new \<and> pointer s = Some (queues_made s)"

lemma new_pop: "consumer_step mpsc_new = mpsc_new"
  by (simp add: consumer_step_def mpsc_new_def queue_new_def)

lemma stuck_step:
  assumes "stuck s" "sys_step a s = Some s'"
  shows "stuck s'"
  using assms
  by (cases a)
    (auto simp: stuck_def measure_call_def out_worker_step processor_step_def initialize_call_def
      finalize_call_def control_step_def queue_of_def new_pop queue_live_new all_out_def)

lemma stuck_run: "stuck s \<Longrightarrow> sys_run P as s = Some s' \<Longrightarrow> stuck s'"
  by (induction as arbitrary: s) (auto split: if_splits option.splits dest: stuck_step)

text \<open>C15: A measuring point that is still under way when \<open>finalize\<close> runs breaks it. Its link may be
  stored into the queue that was deleted; its message may find no queue and never be freed; and its
  count may come after the size was reset, in the next session, whose \<open>finalize\<close> then waits for a
  message that is not there, whatever the threads do.\<close>

theorem finalize_races_with_push:
  "(\<exists>s. sys_reach anything 1 s \<and> faulted s)
   \<and> (\<exists>s. sys_reach anything 1 s \<and> \<not> faulted s \<and> control s = K_off \<and> queue_mem s = None
        \<and> all_out s \<and> heap s = {Msg 1} \<and> freed_nodes s = [])
   \<and> (\<exists>s. sys_reach anything 1 s \<and> \<not> faulted s \<and> queue_live s = []
        \<and> states_after s \<subseteq> {t. \<exists>w. control t = K_drain w})"
proof (intro conjI)
  have reach: "\<exists>s. sys_reach anything 1 s \<and> Q s"
    if "\<exists>s. sys_run anything as (sys_start 1) = Some s \<and> Q s" for as Q
    using that at_start sys_run_reach by blast
  show "\<exists>s. sys_reach anything 1 s \<and> faulted s"
    by (rule reach [of late_store]) (simp add: late_store_def session_start_def sys_eval)
  show "\<exists>s. sys_reach anything 1 s \<and> \<not> faulted s \<and> control s = K_off \<and> queue_mem s = None
      \<and> all_out s \<and> heap s = {Msg 1} \<and> freed_nodes s = []"
    using reach [of late_test "\<lambda>s. \<not> faulted s \<and> control s = K_off \<and> queue_mem s = None
      \<and> all_out s \<and> heap s = {Msg 1} \<and> freed_nodes s = []"]
    by (simp add: late_test_def session_start_def session_end_def sys_eval all_out_def)
  have "\<exists>s. sys_reach anything 1 s \<and> \<not> faulted s \<and> queue_live s = [] \<and> stuck s"
    using reach [of late_count "\<lambda>s. \<not> faulted s \<and> queue_live s = [] \<and> stuck s"]
    by (simp add: late_count_def session_start_def session_end_def sys_eval queue_live_def live_def
        stuck_def all_out_def)
  moreover have "states_after s \<subseteq> {t. \<exists>w. control t = K_drain w}" if "stuck s" for s
  proof
    fix t assume "t \<in> states_after s"
    then have "stuck t" using stuck_run [OF that] by (auto simp: states_after_def)
    then show "t \<in> {t. \<exists>w. control t = K_drain w}" by (auto simp: stuck_def)
  qed
  ultimately show "\<exists>s. sys_reach anything 1 s \<and> \<not> faulted s \<and> queue_live s = []
      \<and> states_after s \<subseteq> {t. \<exists>w. control t = K_drain w}" by blast
qed

end
