(* ===== verification/Sessions.thy ===== *)
theory Sessions
  imports Core_Laws
begin

section \<open>The life of the library\<close>

text \<open>
  All a program can do with the library, in any order and any number of times: read a configuration,
  \<open>initialize\<close>, measure, \<open>finalize\<close>, while the processor thread makes its rounds. First which
  documents are usable, then the calls and their invariant.
\<close>

subsection \<open>Usable documents\<close>

text \<open>Options with no unknown tag and, if there is one, a moving interval the statistics can use. In a
  usable document all options are, and a member \<open>metrics\<close>, if there is one, is an object.\<close>

definition usable_options :: "chrono_env \<Rightarrow> 'v rapidjson \<Rightarrow> 'v \<Rightarrow> bool" where
  "usable_options e J v \<longleftrightarrow> \<not> has_unknown_tag J v
     \<and> (jIsObject J v \<and> jHasMember J v ''moving-interval''
          \<and> jIsUint64 J (jMember J v ''moving-interval'') \<and> 0 < jGetUint64 J (jMember J v ''moving-interval'')
        \<longrightarrow> good_interval e (stat_config_default\<lparr>moving_interval :=
              dur (jGetUint64 J (jMember J v ''moving-interval'')) MSEC\<rparr>))"

definition usable_member :: "chrono_env \<Rightarrow> 'v rapidjson \<Rightarrow> 'v \<Rightarrow> string \<Rightarrow> bool" where
  "usable_member e J cfg s \<longleftrightarrow> (jHasMember J cfg s \<longrightarrow> usable_options e J (jMember J cfg s))"

definition usable_kinds :: "chrono_env \<Rightarrow> 'v rapidjson \<Rightarrow> 'v \<Rightarrow> bool" where
  "usable_kinds e J cfg \<longleftrightarrow>
     usable_member e J cfg ''gauge'' \<and> usable_member e J cfg ''counter'' \<and> usable_member e J cfg ''timer''"

definition usable_document :: "chrono_env \<Rightarrow> 'v rapidjson \<Rightarrow> 'v \<Rightarrow> bool" where
  "usable_document e J cfg \<longleftrightarrow> usable_member e J cfg ''statistics'' \<and> usable_member e J cfg ''defaults''
     \<and> usable_kinds e J cfg \<and> (jHasMember J cfg ''metrics'' \<longrightarrow>
          jIsObject J (jMember J cfg ''metrics'') \<and> usable_kinds e J (jMember J cfg ''metrics''))
     \<and> (\<forall>(n, v)\<in>set (jMembers J cfg). n \<notin> set reserved_sections \<longrightarrow> usable_options e J v)"

text \<open>Options in order: those of the kinds, and those of the patterns.\<close>

definition options_ok :: "chrono_env \<Rightarrow> 'v rapidjson \<Rightarrow> 'v config_state \<Rightarrow> bool" where
  "options_ok e J st \<longleftrightarrow> globals_ok e st \<and> (\<forall>(ns, v)\<in>set (pattern_opts st). usable_options e J v)"

lemma good_interval_fields [simp]:
  "good_interval e (cfg\<lparr>histogram_bins := n\<rparr>) = good_interval e cfg"
  "good_interval e (cfg\<lparr>tags := ts\<rparr>) = good_interval e cfg"
  "good_interval e (cfg\<lparr>rate_unit := u\<rparr>) = good_interval e cfg"
  by (simp_all add: good_interval_def)

lemma good_interval_moving:
  "good_interval e (stat_config_default\<lparr>moving_interval := d\<rparr>) \<Longrightarrow> good_interval e (cfg\<lparr>moving_interval := d\<rparr>)"
  by (simp add: good_interval_def)

lemma configure_statistics_good:
  assumes "usable_options e J v" "good_interval e obj"
  shows "returns (configure_statistics J obj v) (good_interval e) never"
proof -
  let ?R = "good_interval e"
  have "returns (configure_statistics J obj v) ?R (\<lambda>x. x = Invalid_tag_error)"
    unfolding configure_statistics_def
  proof (intro returns_if returns_let [where R = ?R] returns_bind [where R = ?R])
    fix o2 tg assume "?R o2"
    then show "returns (let t = jMember J v ''tags'' in
        if jIsArray J t
        then bind_result (configure_tags J (map (jElem J t) [0..<jSize J t]) (tag_type Tag_empty))
               (\<lambda>ts. Inr (o2\<lparr>tags := ts\<rparr>))
        else Inr o2) ?R (\<lambda>x. x = Invalid_tag_error)"
      unfolding Let_def
      by (intro returns_if returns_bind [OF configure_tags_returns] returns_Inr) simp_all
  qed (use assms good_interval_moving in \<open>auto simp: Let_def usable_options_def returns_Inr\<close>)
  then show ?thesis
    using assms(1) configure_statistics_Inl [of J obj v]
    by (cases "configure_statistics J obj v") (auto simp: returns_def usable_options_def)
qed

lemma configure_kind_good:
  assumes "usable_options e J v"
  shows "good_interval e (go_values g) \<Longrightarrow> returns (configure_gauge J g v) (\<lambda>g. good_interval e (go_values g)) never"
    "good_interval e (co_values c) \<Longrightarrow> returns (configure_counter J c v) (\<lambda>c. good_interval e (co_values c)) never"
    "good_interval e (to_values t) \<Longrightarrow> returns (configure_timer J t v) (\<lambda>t. good_interval e (to_values t)) never"
  unfolding configure_gauge_def configure_counter_def configure_timer_def Let_def
  by (intro returns_if returns_bind [OF configure_statistics_good [OF assms]] returns_Inr; simp)+

lemma options_ok_patterns: "options_ok e J st \<Longrightarrow> globals_ok e st \<and> patterns_ok e J st"
  using configure_kind_good by (fastforce simp: options_ok_def patterns_ok_def globals_ok_def)

text \<open>Every section keeps options in order and the patterns.\<close>

abbreviation adjusted :: "chrono_env \<Rightarrow> 'v config_state \<Rightarrow> 'v config_state \<Rightarrow> bool" where
  "adjusted e st st' \<equiv> globals_ok e st' \<and> pattern_opts st' = pattern_opts st"

lemma configure_kinds_good:
  assumes "globals_ok e st" "usable_kinds e J cfg" "jIsObject J cfg"
  shows "returns (configure_kinds J st cfg) (adjusted e st) never"
proof -
  have g: "returns (if jHasMember J cfg ''gauge''
      then bind_result (configure_gauge J (cfg_gauge st) (jMember J cfg ''gauge'')) (\<lambda>g. Inr (st\<lparr>cfg_gauge := g\<rparr>))
      else Inr st) (adjusted e st) never" if "globals_ok e st" for st
    using that assms(2)
    by (intro returns_if returns_bind [OF configure_kind_good(1) [of e]] returns_Inr)
      (auto simp: usable_kinds_def usable_member_def globals_ok_def)
  have c: "returns (if jHasMember J cfg ''counter''
      then bind_result (configure_counter J (cfg_counter st) (jMember J cfg ''counter''))
        (\<lambda>c. Inr (st\<lparr>cfg_counter := c\<rparr>))
      else Inr st) (adjusted e st) never" if "globals_ok e st" for st
    using that assms(2)
    by (intro returns_if returns_bind [OF configure_kind_good(2) [of e]] returns_Inr)
      (auto simp: usable_kinds_def usable_member_def globals_ok_def)
  have t: "returns (if jHasMember J cfg ''timer''
      then bind_result (configure_timer J (cfg_timer st) (jMember J cfg ''timer'')) (\<lambda>t. Inr (st\<lparr>cfg_timer := t\<rparr>))
      else Inr st) (adjusted e st) never" if "globals_ok e st" for st
    using that assms(2)
    by (intro returns_if returns_bind [OF configure_kind_good(3) [of e]] returns_Inr)
      (auto simp: usable_kinds_def usable_member_def globals_ok_def)
  show ?thesis
    unfolding configure_kinds_def if_not_P [OF assms(3) [THEN not_not [THEN iffD2]]]
  proof (rule returns_bind [OF g [OF assms(1)]])
    fix st1 assume 1: "adjusted e st st1"
    show "returns (bind_result
        (if jHasMember J cfg ''counter''
         then bind_result (configure_counter J (cfg_counter st1) (jMember J cfg ''counter''))
           (\<lambda>c. Inr (st1\<lparr>cfg_counter := c\<rparr>)) else Inr st1)
        (\<lambda>st. if jHasMember J cfg ''timer''
          then bind_result (configure_timer J (cfg_timer st) (jMember J cfg ''timer''))
            (\<lambda>t. Inr (st\<lparr>cfg_timer := t\<rparr>)) else Inr st)) (adjusted e st) never"
    proof (rule returns_bind [OF c])
      fix st2 assume "adjusted e st1 st2"
      then show "returns (if jHasMember J cfg ''timer''
          then bind_result (configure_timer J (cfg_timer st2) (jMember J cfg ''timer''))
            (\<lambda>t. Inr (st2\<lparr>cfg_timer := t\<rparr>)) else Inr st2) (adjusted e st) never"
        using t [of st2] 1 by simp
    qed (use 1 in simp)
  qed
qed

lemma configure_defaults_good:
  assumes "globals_ok e st" "usable_options e J v"
  shows "returns (configure_defaults J st v) (adjusted e st) never"
proof -
  have any: "returns (configure_statistics J obj v) (\<lambda>s. True) never" for obj
    using assms(2) configure_statistics_Inl [of J obj v]
    by (cases "configure_statistics J obj v") (auto simp: returns_def usable_options_def)
  note good = configure_statistics_good [OF assms(2)]
  show ?thesis
    unfolding configure_defaults_def
    by (intro returns_bind [OF any] returns_bind [OF good] returns_Inr)
      (use assms(1) in \<open>simp_all add: globals_ok_def\<close>)
qed

lemma configure_old_format_good:
  assumes "globals_ok e st" "usable_document e J cfg"
  shows "returns (configure_old_format J st cfg) (adjusted e st) never"
  unfolding configure_old_format_def
proof (rule returns_bind)
  show "returns (if jHasMember J cfg ''statistics''
      then configure_defaults J st (jMember J cfg ''statistics'') else Inr st) (adjusted e st) never"
    using assms configure_defaults_good
    by (intro returns_if returns_Inr) (auto simp: usable_document_def usable_member_def)
next
  fix st1 assume 1: "adjusted e st st1"
  show "returns (bind_result
      (if jHasMember J cfg ''metrics'' then configure_kinds J st1 (jMember J cfg ''metrics'') else Inr st1)
      (\<lambda>st. let st = (if jHasMember J cfg ''metrics-dump''
                 then st\<lparr>cfg_dump_interval := configure_metrics_dump J (cfg_dump_interval st)
                          (jMember J cfg ''metrics-dump'')\<rparr> else st);
               st = (if jHasMember J cfg ''core''
                 then st\<lparr>cfg_core_enable := configure_core J (cfg_core_enable st)
                          (jMember J cfg ''core'')\<rparr> else st)
           in Inr st)) (adjusted e st) never"
  proof (rule returns_bind)
    show "returns (if jHasMember J cfg ''metrics'' then configure_kinds J st1 (jMember J cfg ''metrics'')
        else Inr st1) (adjusted e st1) never"
      using assms(2) 1 configure_kinds_good [of e st1 J "jMember J cfg ''metrics''"]
      by (intro returns_if returns_Inr) (simp_all add: usable_document_def)
  qed (use 1 in \<open>simp add: Let_def returns_def globals_ok_def\<close>)
qed

lemma configure_new_format_good:
  assumes "globals_ok e st" "usable_document e J cfg" "jIsObject J cfg"
  shows "returns (configure_new_format J st cfg) (adjusted e st) never"
  unfolding configure_new_format_def
proof (rule returns_bind)
  show "returns (if jHasMember J cfg ''defaults''
      then configure_defaults J st (jMember J cfg ''defaults'') else Inr st) (adjusted e st) never"
    using assms configure_defaults_good
    by (intro returns_if returns_Inr) (auto simp: usable_document_def usable_member_def)
next
  fix st1 assume 1: "adjusted e st st1"
  have kinds: "returns (configure_kinds J st1 cfg) (adjusted e st1) never"
    using assms(2,3) 1 configure_kinds_good [of e st1 J cfg] by (simp add: usable_document_def)
  show "returns (bind_result (configure_kinds J st1 cfg)
      (\<lambda>st. let st = (if jHasMember J cfg ''dump-interval'' then
                   let v = jMember J cfg ''dump-interval'' in
                   if jIsUint64 J v then st\<lparr>cfg_dump_interval := dur (jGetUint64 J v) MSEC\<rparr> else st
                 else st);
               st = (if jHasMember J cfg ''enable'' then
                   let v = jMember J cfg ''enable'' in
                   if jIsBool J v then st\<lparr>cfg_core_enable := jGetBool J v\<rparr> else st
                 else st)
           in Inr st)) (adjusted e st) never"
    by (rule returns_bind [OF kinds]) (use 1 in \<open>simp add: Let_def returns_def globals_ok_def\<close>)
qed

text \<open>Reading a text that is no document changes nothing; a usable one leaves options in order.\<close>

definition usable_text :: "chrono_env \<Rightarrow> 'v rapidjson \<Rightarrow> (string \<Rightarrow> 'v option) \<Rightarrow> string \<Rightarrow> bool" where
  "usable_text e J parse s \<longleftrightarrow> (\<forall>cfg. parse s = Some cfg \<longrightarrow> jIsObject J cfg \<longrightarrow> usable_document e J cfg)"

lemma config_json_good:
  assumes "options_ok e J st" "usable_text e J parse s"
  shows "returns (config_json J parse False st s) (\<lambda>(st', ok). options_ok e J st') never"
proof (cases "\<exists>cfg. parse s = Some cfg \<and> jIsObject J cfg")
  case False
  then show ?thesis
    using assms(1) by (auto simp: config_json_def returns_def split: option.split)
next
  case True
  then obtain cfg where cfg: "parse s = Some cfg" "jIsObject J cfg" by blast
  then have doc: "usable_document e J cfg" using assms(2) by (simp add: usable_text_def)
  have g: "globals_ok e st" using assms(1) by (simp add: options_ok_def)
  have groups: "\<forall>(ns, v)\<in>set (pattern_groups (takeWhile P (pattern_members (jMembers J cfg)))). usable_options e J v" for P
  proof -
    have "usable_options e J v" if "(n, v) \<in> set (takeWhile P (pattern_members (jMembers J cfg)))" for n v
      using set_takeWhileD [OF that] doc by (auto simp: usable_document_def pattern_members_def)
    then show ?thesis by (auto simp: pattern_groups_def)
  qed
  have "returns (bind_result (configure_old_format J st cfg) (\<lambda>st.
      bind_result (configure_new_format J st cfg) (\<lambda>st. configure_patterns st (jMembers J cfg))))
      (\<lambda>(st', ok). options_ok e J st') never"
  proof (rule returns_bind [OF configure_old_format_good [OF g doc]])
    fix st1 assume 1: "adjusted e st st1"
    show "returns (bind_result (configure_new_format J st1 cfg) (\<lambda>st. configure_patterns st (jMembers J cfg)))
        (\<lambda>(st', ok). options_ok e J st') never"
    proof (rule returns_bind [OF configure_new_format_good [OF _ doc cfg(2)]])
      fix st2 assume "adjusted e st1 st2"
      then show "returns (configure_patterns st2 (jMembers J cfg)) (\<lambda>(st', ok). options_ok e J st') never"
        using 1 assms(1) groups
        by (simp add: configure_patterns_result returns_def options_ok_def globals_ok_def ball_Un)
    qed (use 1 in simp)
  qed
  then show ?thesis using cfg by (simp add: config_json_def)
qed

subsection \<open>Calls\<close>

datatype client_call =
    Config_json string
  | Config_file "string option"
  | Initialize_call time_point time_point
  | Step_call step
  | Finalize_call "nat \<Rightarrow> time_point" time_point time_point

fun make_call ::
  "nat \<Rightarrow> chrono_env \<Rightarrow> 'v rapidjson \<Rightarrow> (string \<Rightarrow> 'v option) \<Rightarrow> (string \<Rightarrow> string \<Rightarrow> bool)
     \<Rightarrow> client_call \<Rightarrow> 'v program \<Rightarrow> 'v program result option" where
  "make_call fuel e J parse fnm (Config_json s) st =
     Some (bind_result (config_json J parse (is_enabled st) (p_config st) s)
       (\<lambda>(cfg, ok). Inr (st\<lparr>p_config := cfg\<rparr>)))"
| "make_call fuel e J parse fnm (Config_file f) st =
     Some (bind_result (config_file J parse (is_enabled st) (p_config st) f)
       (\<lambda>(cfg, ok). Inr (st\<lparr>p_config := cfg\<rparr>)))"
| "make_call fuel e J parse fnm (Initialize_call now mq_now) st = Some (core_initialize e now mq_now st)"
| "make_call fuel e J parse fnm (Step_call s) st = Some (exec e J fnm [s] st)"
| "make_call fuel e J parse fnm (Finalize_call clock now mq_now) st =
     core_finalize fuel e clock now mq_now st"

text \<open>The message a call sends, if the library is enabled when it is made, and all of a sequence.\<close>

fun accepted :: "chrono_env \<Rightarrow> client_call \<Rightarrow> 'v program \<Rightarrow> (node_id \<times> event_message) list" where
  "accepted e (Step_call (Point n p)) st = (if is_enabled st then [(n, point_message e p)] else [])"
| "accepted e c st = []"

fun run_calls ::
  "nat \<Rightarrow> chrono_env \<Rightarrow> 'v rapidjson \<Rightarrow> (string \<Rightarrow> 'v option) \<Rightarrow> (string \<Rightarrow> string \<Rightarrow> bool)
     \<Rightarrow> client_call list \<Rightarrow> 'v program \<Rightarrow> ('v program \<times> (node_id \<times> event_message) list) result option" where
  "run_calls fuel e J parse fnm [] st = Some (Inr (st, []))"
| "run_calls fuel e J parse fnm (c # cs) st =
     (case make_call fuel e J parse fnm c st of
        None \<Rightarrow> None
      | Some (Inl x) \<Rightarrow> Some (Inl x)
      | Some (Inr st') \<Rightarrow>
          (case run_calls fuel e J parse fnm cs st' of
             Some (Inr (st'', sent)) \<Rightarrow> Some (Inr (st'', accepted e c st @ sent))
           | r \<Rightarrow> r))"

fun call_points :: "client_call list \<Rightarrow> node_id list" where
  "call_points [] = []"
| "call_points (Step_call (Point n p) # cs) = n # call_points cs"
| "call_points (c # cs) = call_points cs"

text \<open>Calls with readings on the clock, usable texts, and one kind of metric for each name.\<close>

fun call_ok ::
  "chrono_env \<Rightarrow> 'v rapidjson \<Rightarrow> (string \<Rightarrow> 'v option) \<Rightarrow> (string \<Rightarrow> char_code) \<Rightarrow> client_call \<Rightarrow> bool" where
  "call_ok e J parse kinds (Config_json s) \<longleftrightarrow> usable_text e J parse s"
| "call_ok e J parse kinds (Config_file f) \<longleftrightarrow>
     (\<forall>s. f = Some s \<longrightarrow> usable_text e J parse (takeWhile (\<lambda>c. c \<noteq> CHR 0x00) s))"
| "call_ok e J parse kinds (Initialize_call now mq_now) \<longleftrightarrow> on_clock now \<and> on_clock mq_now"
| "call_ok e J parse kinds (Step_call s) \<longleftrightarrow> step_ok e kinds s"
| "call_ok e J parse kinds (Finalize_call clock now mq_now) \<longleftrightarrow>
     (\<forall>i. on_clock (clock i)) \<and> on_clock now \<and> on_clock mq_now"

subsection \<open>The invariant of the life of the library\<close>

definition asleep :: "chrono_env \<Rightarrow> 'v rapidjson \<Rightarrow> (node_id \<times> event_message) list \<Rightarrow> 'v program \<Rightarrow> bool" where
  "asleep e J sent st \<longleftrightarrow> ready e J st \<and> options_ok e J (p_config st) \<and> mq_size (p_queue st) = 0
     \<and> p_freed st = map deletion sent"

definition awake ::
  "chrono_env \<Rightarrow> 'v rapidjson \<Rightarrow> (string \<Rightarrow> string \<Rightarrow> bool) \<Rightarrow> (string \<Rightarrow> char_code)
     \<Rightarrow> (node_id \<times> event_message) list \<Rightarrow> 'v program \<Rightarrow> bool" where
  "awake e J fnm kinds sent st \<longleftrightarrow> program_inv e J kinds st
     \<and> (\<exists>before now_sent k. sent = before @ now_sent
          \<and> tracked e J fnm (p_config st) (map deletion before) now_sent k st)"

lemma asleep_disabled: "asleep e J sent st \<Longrightarrow> \<not> is_enabled st"
  by (simp add: asleep_def ready_def is_enabled_def)

lemma awake_enabled: "awake e J fnm kinds sent st \<Longrightarrow> is_enabled st"
  by (simp add: awake_def program_inv_def)

lemma asleep_configured:
  assumes "asleep e J sent st" "options_ok e J cfg"
  shows "asleep e J sent (st\<lparr>p_config := cfg\<rparr>)"
  using assms options_ok_patterns [OF assms(2)] by (simp add: asleep_def ready_def)

lemma config_json_enabled: "config_json J parse True st s = Inr (st, True)"
  by (simp add: config_json_def)

lemma config_file_json:
  "config_file J parse en st f = (case f of None \<Rightarrow> Inr (st, False)
     | Some s \<Rightarrow> config_json J parse en st (takeWhile (\<lambda>c. c \<noteq> CHR 0x00) s))"
  by (simp add: config_file_def)

lemma reset_options_ok: "env_ok e \<Longrightarrow> options_ok e J config_reset"
  by (simp add: options_ok_def globals_ok_def config_reset_def env_ok_def gauge_opts_default_def
      counter_opts_default_def timer_opts_default_def)

lemma stopped_asleep:
  assumes "env_ok e" "stopped st" "p_freed st = map deletion sent"
  shows "asleep e J sent st"
  using assms options_ok_patterns [OF reset_options_ok [OF assms(1)], of J] reset_options_ok [OF assms(1), of J]
  by (auto simp: asleep_def ready_def stopped_def is_enabled_def reset_enabled)

lemma asleep_finalize:
  assumes "env_ok e" "asleep e J sent st" "on_clock now" "on_clock mq_now"
  shows "\<exists>st'. core_finalize fuel e clock now mq_now st = Some (Inr st') \<and> asleep e J sent st'"
proof -
  have env: "good_interval e stat_config_default" "one_second_ok e"
    using assms(1) by (simp_all add: env_ok_def)
  obtain ist where ist: "internal_finalize e now (p_internal st) = Inr ist" "metrics ist = []"
    using returns_ex [OF internal_stats_reset_returns [OF env(1) assms(3), of "(p_internal st)\<lparr>metrics := []\<rparr>"]]
    by (auto simp: internal_finalize_def)
  have "mq_empty (p_queue st)" using assms(2) by (simp add: asleep_def mq_empty_def)
  then have "mq_drain fuel e (p_messages st) clock (p_queue st) = Some (Inr (p_queue st, []))"
    by (simp add: mq_drain.simps)
  then obtain q where q: "mq_finalize fuel e (p_messages st) clock mq_now (p_queue st) = Some (Inr (q, []))"
    "event_message_queue q = None" "mq_size q = 0"
    using returns_ex [OF mq_stats_reset_returns [OF env(2) assms(4),
        of "(p_queue st)\<lparr>mq_size := 0, event_message_queue := None\<rparr>"]]
    by (auto simp: mq_finalize_def)
  define st' where "st' = (st\<lparr>enabled_flag := False, p_internal := ist, p_queue := q,
      p_dump := dump_finalize (p_dump st), p_config := config_finalize (p_config st)\<rparr>)"
  have "core_finalize fuel e clock now mq_now st = Some (Inr st')"
    using ist q by (simp add: core_finalize_def st'_def)
  moreover have "stopped st'" "p_freed st' = map deletion sent"
    using ist q assms(2)
    by (simp_all add: st'_def stopped_def is_enabled_def dump_finalize_def get_dump_def config_finalize_def
        asleep_def)
  ultimately show ?thesis using stopped_asleep [OF assms(1)] by blast
qed

lemma asleep_call:
  assumes "env_ok e" "asleep e J sent st" "call_ok e J parse kinds c"
  shows "\<exists>st'. make_call fuel e J parse fnm c st = Some (Inr st') \<and> accepted e c st = []
    \<and> (asleep e J sent st' \<or> awake e J fnm kinds sent st')"
proof -
  have off: "\<not> is_enabled st" "ready e J st" "options_ok e J (p_config st)" "\<not> enabled_flag st"
    using asleep_disabled [OF assms(2)] assms(2) by (simp_all add: asleep_def ready_def)
  have config: "\<exists>cfg ok. config_json J parse (is_enabled st) (p_config st) s = Inr (cfg, ok)
      \<and> asleep e J sent (st\<lparr>p_config := cfg\<rparr>)" if "usable_text e J parse s" for s
    using returns_ex [OF config_json_good [OF off(3) that]] asleep_configured [OF assms(2)] off(1) by auto
  show ?thesis
  proof (cases c)
    case (Config_json s)
    then show ?thesis using config [of s] assms(3) by auto
  next
    case (Config_file f)
    show ?thesis
    proof (cases f)
      case None
      then show ?thesis
        using asleep_configured [OF assms(2) off(3)] by (simp add: Config_file config_file_json)
    next
      case (Some s)
      then show ?thesis
        using config [of "takeWhile (\<lambda>c. c \<noteq> CHR 0x00) s"] assms(3)
        by (auto simp: Config_file config_file_json)
    qed
  next
    case (Initialize_call now mq_now)
    then have t: "on_clock now" "on_clock mq_now" using assms(3) by simp_all
    obtain st' where st': "core_initialize e now mq_now st = Inr st'"
      "if cfg_core_enable (p_config st)
       then program_inv e J kinds st' \<and> tracked e J fnm (p_config st) (p_freed st) [] 0 st'
       else ready e J st' \<and> event_message_queue (p_queue st') \<noteq> None \<and> p_config st' = p_config st
         \<and> p_freed st' = p_freed st"
      using returns_ex [OF core_initialize_returns [OF assms(1) off(2) t]] by blast
    show ?thesis
    proof (cases "cfg_core_enable (p_config st)")
      case True
      then have "program_inv e J kinds st'" "tracked e J fnm (p_config st') (map deletion sent) [] 0 st'"
        using st'(2) assms(2) by (auto simp: asleep_def tracked_def)
      then have "awake e J fnm kinds sent st'" by (auto simp: awake_def)
      then show ?thesis using st'(1) Initialize_call by simp
    next
      case False
      then have "asleep e J sent st'"
        using st'(2) assms(2) off(3)
        by (auto simp: asleep_def ready_def mq_inv_def unat_eq_zero)
      then show ?thesis using st'(1) Initialize_call by simp
    qed
  next
    case (Step_call s)
    then show ?thesis
      using off(1) assms(2) by (cases s) (auto simp: perform_sends)
  next
    case (Finalize_call clock now mq_now)
    then obtain st' where "core_finalize fuel e clock now mq_now st = Some (Inr st')" "asleep e J sent st'"
      using asleep_finalize [OF assms(1,2), of now mq_now fuel clock] assms(3) by auto
    then show ?thesis by (simp add: Finalize_call)
  qed
qed

lemma awake_call:
  assumes "env_ok e" "awake e J fnm kinds sent st" "call_ok e J parse kinds c"
    and "\<forall>n\<in>set (call_points [c]). n \<notin> fst ` set sent" "length sent + 1 < 2 ^ 64" "length sent \<le> fuel"
  shows "\<exists>st'. make_call fuel e J parse fnm c st = Some (Inr st')
    \<and> (asleep e J (sent @ accepted e c st) st' \<or> awake e J fnm kinds (sent @ accepted e c st) st')"
proof -
  obtain old cur k where inv: "program_inv e J kinds st" "sent = old @ cur"
    "tracked e J fnm (p_config st) (map deletion old) cur k st"
    using assms(2) by (auto simp: awake_def)
  have on: "is_enabled st" "enabled_flag st"
    using awake_enabled [OF assms(2)] by (simp_all add: is_enabled_def)
  show ?thesis
  proof (cases c)
    case (Config_json s)
    then show ?thesis using on assms(2) by (simp add: config_json_enabled)
  next
    case (Config_file f)
    then show ?thesis using on assms(2) by (cases f) (simp_all add: config_file_json config_json_enabled)
  next
    case (Initialize_call now mq_now)
    then show ?thesis using on assms(2) by (simp add: core_initialize_def)
  next
    case (Step_call s)
    show ?thesis
    proof (cases s)
      case (Point n p)
      have n: "n \<noteq> Stub" "message_ok kinds (point_message e p)" "n \<notin> fst ` set cur" "length cur + 1 < 2 ^ 64"
        using assms(3-5) inv(2) by (auto simp: Step_call Point)
      note send = tracked_send [OF inv(3,1) n(1,3,2,4)]
      have "p_config (send n (point_message e p) st) = p_config st"
        using send(2) by (simp add: tracked_def)
      then have "awake e J fnm kinds (sent @ [(n, point_message e p)]) (send n (point_message e p) st)"
        using send inv(2) unfolding awake_def
        by (intro conjI exI [of _ old] exI [of _ "cur @ [(n, point_message e p)]"] exI [of _ k]) simp_all
      then show ?thesis using on by (simp add: Step_call Point perform_sends)
    next
      case (Round clk)
      have "round_ok clk" using assms(3) by (simp add: Step_call Round)
      from returns_ex [OF run_one_round_returns [OF inv(1) this, of fnm]] obtain st' where
        st': "run_processor e J fnm [clk] st = Inr st'" "round_post e J fnm kinds st st'" by blast
      note t = tracked_round [OF inv(3) st'(2)]
      have "program_inv e J kinds st'" "p_config st' = p_config st"
        using st'(2) t by (simp_all add: round_post_def tracked_def)
      then have "awake e J fnm kinds sent st'"
        using t inv(2) unfolding awake_def
        by (intro conjI exI [of _ old] exI [of _ cur] exI) simp_all
      then show ?thesis using st'(1) by (simp add: Step_call Round)
    qed
  next
    case (Finalize_call clock now mq_now)
    have "length cur \<le> fuel" using assms(6) inv(2) by simp
    from core_finalize_returns [OF assms(1) inv(1,3) this, of clock now mq_now] obtain st' where
      st': "core_finalize fuel e clock now mq_now st = Some (Inr st')" "stopped st'"
      "p_freed st' = map deletion sent"
      using assms(3) inv(2) by (auto simp: Finalize_call)
    then show ?thesis using stopped_asleep [OF assms(1) st'(2,3), of J] by (simp add: Finalize_call)
  qed
qed

lemma call_points_Cons: "call_points (c # cs) = call_points [c] @ call_points cs"
proof (cases c)
  case (Step_call s)
  then show ?thesis by (cases s) simp_all
qed simp_all

lemma accepted_points: "set (map fst (accepted e c st)) \<subseteq> set (call_points [c])"
  "length (accepted e c st) \<le> 1" "distinct (map fst (accepted e c st))"
proof -
  have "accepted e c st = [] \<or> (\<exists>n m. accepted e c st = [(n, m)] \<and> call_points [c] = [n])"
  proof (cases c)
    case (Step_call s)
    then show ?thesis by (cases s) auto
  qed simp_all
  then show "set (map fst (accepted e c st)) \<subseteq> set (call_points [c])"
    "length (accepted e c st) \<le> 1" "distinct (map fst (accepted e c st))" by auto
qed

lemma calls_return:
  assumes "env_ok e" "asleep e J sent st \<or> awake e J fnm kinds sent st"
    and "\<forall>c\<in>set cs. call_ok e J parse kinds c" "distinct (map fst sent @ call_points cs)"
    and "length sent + length cs < 2 ^ 64" "length sent + length cs \<le> fuel"
  shows "\<exists>st' new. run_calls fuel e J parse fnm cs st = Some (Inr (st', new))
    \<and> (asleep e J (sent @ new) st' \<or> awake e J fnm kinds (sent @ new) st')"
  using assms(2-6)
proof (induction cs arbitrary: sent st)
  case (Cons c cs)
  have c: "call_ok e J parse kinds c" "\<forall>n\<in>set (call_points [c]). n \<notin> fst ` set sent"
    "length sent + 1 < 2 ^ 64" "length sent \<le> fuel"
    using Cons.prems(2-5) unfolding call_points_Cons [of c cs] by auto
  have "\<exists>st1. make_call fuel e J parse fnm c st = Some (Inr st1)
      \<and> (asleep e J (sent @ accepted e c st) st1 \<or> awake e J fnm kinds (sent @ accepted e c st) st1)"
    using asleep_call [OF assms(1) _ c(1), of sent st fuel fnm] awake_call [OF assms(1) _ c, of fnm st]
      Cons.prems(1) by fastforce
  then obtain st1 where st1: "make_call fuel e J parse fnm c st = Some (Inr st1)"
    "asleep e J (sent @ accepted e c st) st1 \<or> awake e J fnm kinds (sent @ accepted e c st) st1" by blast
  have "distinct (map fst (sent @ accepted e c st) @ call_points cs)"
    using Cons.prems(3) accepted_points(1,3) [of e c st] unfolding call_points_Cons [of c cs] by auto
  moreover have "length (sent @ accepted e c st) + length cs < 2 ^ 64"
    "length (sent @ accepted e c st) + length cs \<le> fuel"
    using Cons.prems(4,5) accepted_points(2) [of e c st] by simp_all
  ultimately obtain st2 new where "run_calls fuel e J parse fnm cs st1 = Some (Inr (st2, new))"
    "asleep e J ((sent @ accepted e c st) @ new) st2 \<or> awake e J fnm kinds ((sent @ accepted e c st) @ new) st2"
    using Cons.IH [OF st1(2)] Cons.prems(2) by auto
  then show ?case using st1(1) by (intro exI [of _ st2] exI [of _ "accepted e c st @ new"]) simp
qed simp

subsection \<open>Properties\<close>

text \<open>The program before its first call.\<close>

definition unborn :: "'v program \<Rightarrow> bool" where
  "unborn st \<longleftrightarrow> \<not> enabled_flag st \<and> p_config st = config_reset \<and> event_message_queue (p_queue st) = None
     \<and> mq_size (p_queue st) = 0 \<and> metrics (p_internal st) = [] \<and> p_freed st = []"

lemma unborn_asleep: "env_ok e \<Longrightarrow> unborn st \<Longrightarrow> asleep e J [] st"
  using reset_options_ok [of e J] options_ok_patterns [of e J config_reset]
  by (simp add: unborn_def asleep_def ready_def)

text \<open>C2: Whatever a program does with the library from its beginning on, in any order and any number
  of times (reading documents or files, missing or not, \<open>initialize\<close>, measuring points, rounds of the
  processor thread, \<open>finalize\<close>), no call fails or runs for ever, provided that every document that
  parses is usable (no unknown tag, moving intervals the statistics can use, and a member \<open>metrics\<close>
  that is an object: the theorems on \<open>config_json\<close> and on patterns show what happens otherwise), each
  metric name is measured with one kind of metric only, the clock readings are on the tick clock, whose
  frequency suits the default options (\<open>env_ok\<close>), and the calls are fewer than \<open>2 ^ 64\<close>. The
  messages of the points that found the library enabled are, in order, those that were deleted, each
  once, followed by those waiting in the queue; while the library is disabled none waits and there is
  no metric, and while it is enabled every metric has its kind and its invariant.\<close>

theorem no_call_fails_or_loses_a_message:
  assumes "env_ok e" "unborn st" "\<forall>c\<in>set cs. call_ok e J parse kinds c"
    and "distinct (call_points cs)" "length cs < 2 ^ 64" "length cs \<le> fuel"
  shows "\<exists>st' sent processed left. run_calls fuel e J parse fnm cs st = Some (Inr (st', sent))
    \<and> sent = processed @ left
    \<and> p_freed st' = map (\<lambda>(n, m). (n, delete_event_message (Some m))) processed
    \<and> mq_contents (p_queue st') = map fst left
    \<and> (\<not> is_enabled st' \<longrightarrow> left = [] \<and> metrics (p_internal st') = [])
    \<and> (is_enabled st' \<longrightarrow> internal_inv e kinds (p_internal st'))"
proof -
  obtain st' new where st': "run_calls fuel e J parse fnm cs st = Some (Inr (st', new))"
    "asleep e J new st' \<or> awake e J fnm kinds new st'"
    using calls_return [OF assms(1) disjI1 [OF unborn_asleep [OF assms(1,2)]] assms(3), of fuel fnm] assms(4-6)
    by auto
  from st'(2) show ?thesis
  proof
    assume a: "asleep e J new st'"
    then have "waiting st' = []" by (auto simp: asleep_def ready_def mq_contents_def)
    then show ?thesis
      using st'(1) a asleep_disabled [OF a]
      by (intro exI [of _ st'] exI [of _ new] exI [of _ "[]"])
        (simp add: asleep_def ready_def case_prod_beta comp_def)
  next
    assume a: "awake e J fnm kinds new st'"
    then obtain old cur k where t: "program_inv e J kinds st'" "new = old @ cur"
      "tracked e J fnm (p_config st') (map deletion old) cur k st'" by (auto simp: awake_def)
    then show ?thesis
      using st'(1) awake_enabled [OF a]
      by (intro exI [of _ st'] exI [of _ new] exI [of _ "old @ take k cur"] exI [of _ "drop k cur"])
        (simp add: tracked_def program_inv_def case_prod_beta comp_def)
  qed
qed

definition example_calls :: "client_call list" where
  "example_calls =
     [Step_call (Point (Msg 1) (Counter_increment ''c'' 2 (tick_time 5))), Config_json [],
      Initialize_call (tick_time 5) (tick_time 5),
      Step_call (Point (Msg 2) (Counter_increment ''c'' 2 (tick_time 5))), Step_call (Round example_round),
      Finalize_call (\<lambda>i. tick_time 5) (tick_time 5) (tick_time 5),
      Config_file None, Initialize_call (tick_time 5) (tick_time 5),
      Step_call (Point (Msg 3) (Timer_start ''t'' 7 (tick_time 5)))]"

abbreviation example_parse :: "string \<Rightarrow> example_value option" where
  "example_parse \<equiv> \<lambda>s. Some example_document"

lemma example_calls_ok: "\<forall>c\<in>set example_calls. call_ok example_env example_json example_parse example_kinds c"
proof -
  have "usable_text example_env example_json example_parse []"
    by (simp add: usable_text_def usable_document_def usable_kinds_def usable_member_def usable_options_def
        has_unknown_tag_def example_document_def example_defs reserved_sections_def Let_def)
      (rule exI [of _ Tag_max], simp)
  then show ?thesis
    using example_round_ok example_clock created.intros
    by (simp add: example_calls_def message_ok_def create_defs)
qed

theorem no_call_fails_or_loses_a_message_witness:
  "\<exists>st' sent. run_calls 9 example_env example_json example_parse (=) example_calls program_unset
      = Some (Inr (st', sent))"
proof -
  have "unborn program_unset" by (simp add: unborn_def program_unset_def mq_unset_def internal_unset_def)
  from no_call_fails_or_loses_a_message [OF program_unset_ok(1) this example_calls_ok, of 9 "(=)"]
  show ?thesis by (auto simp: example_calls_def simp del: run_calls.simps)
qed

text \<open>The default options plus those of a text: nothing in \<open>initialize\<close> depends on them.\<close>

lemma core_initialize_enables:
  assumes "env_ok e" "\<not> enabled_flag st" "cfg_core_enable (p_config st)"
    and "event_message_queue (p_queue st) = None" "metrics (p_internal st) = []"
    and "on_clock now" "on_clock mq_now"
  shows "\<exists>st'. core_initialize e now mq_now st = Inr st' \<and> is_enabled st' \<and> p_config st' = p_config st
    \<and> mq_inv e (p_queue st') \<and> waiting st' = [] \<and> event_message_queue (p_queue st') \<noteq> None
    \<and> metrics (p_internal st') = []"
proof -
  have env: "good_interval e stat_config_default" "one_second_ok e"
    using assms(1) by (simp_all add: env_ok_def)
  obtain ist where "internal_initialize e now (p_internal st) = Inr ist" "metrics ist = []"
    using returns_ex [OF internal_stats_reset_returns [OF env(1) assms(6), of "p_internal st"]] assms(5)
    by (auto simp: internal_initialize_def)
  moreover obtain q where "mq_initialize e mq_now (p_queue st) = Inr q" "mq_inv e q" "mq_contents q = []"
    "event_message_queue q \<noteq> None"
    using mq_initialize_inv [OF env(2) assms(7,4)] by blast
  ultimately show ?thesis
    using assms(2,3) by (simp add: core_initialize_def Let_def is_enabled_def)
qed

lemma unknown_tag_makes_no_metric:
  assumes "has_unknown_tag J v" "dest \<in> {DEST_COUNTER, DEST_GAUGE, DEST_TIMER}"
  shows "make_metric J cfg (Some v) dest = Inl Invalid_tag_error"
proof -
  have "configure_statistics J obj v = Inl Invalid_tag_error" for obj
    using assms(1) by (simp add: configure_statistics_Inl)
  moreover have "jIsObject J v" using assms(1) by (simp add: has_unknown_tag_def)
  ultimately show ?thesis
    using assms(2)
    by (auto simp: make_metric_def configure_counter_def configure_gauge_def configure_timer_def Let_def codes)
qed

text \<open>C16: An unknown tag in the options of a pattern is not reported when the text is read: \<open>config_json\<close>
  returns true. The first counter, gauge or timer whose name the pattern matches then throws
  \<open>invalid_tag_error\<close> in the processor thread, which is \<open>noexcept\<close>: the process ends.\<close>

theorem unknown_tag_in_a_pattern_ends_the_process:
  assumes "env_ok e" "unborn st" "on_clock now" "on_clock mq_now" "on_clock (pop_time clk)"
    and "config_json J parse False config_reset s = Inr (cfg, True)" "cfg_core_enable cfg"
    and "select_pattern fnm (pattern_opts cfg) (destination_name (point_message e p)) = Some v"
    and "has_unknown_tag J v" "destination_type (point_message e p) \<noteq> DEST_ATTRIBUTE" "n \<noteq> Stub"
  shows "run_calls fuel e J parse fnm [Config_json s, Initialize_call now mq_now,
      Step_call (Point n p), Step_call (Round clk)] st = Some (Inl Invalid_tag_error)"
proof -
  have off: "\<not> is_enabled st" "\<not> enabled_flag st" "p_config st = config_reset"
    using assms(2) by (simp_all add: unborn_def is_enabled_def)
  define st1 where "st1 = st\<lparr>p_config := cfg\<rparr>"
  have conf: "make_call fuel e J parse fnm (Config_json s) st = Some (Inr st1)"
    using off assms(6) by (simp add: st1_def)
  obtain st2 where st2: "core_initialize e now mq_now st1 = Inr st2" "is_enabled st2" "p_config st2 = cfg"
    "mq_inv e (p_queue st2)" "waiting st2 = []" "event_message_queue (p_queue st2) \<noteq> None"
    "metrics (p_internal st2) = []"
    using core_initialize_enables [OF assms(1), of st1 now mq_now] assms(2-4,7)
    by (auto simp: st1_def unborn_def)
  let ?m = "point_message e p"
  define st3 where "st3 = send n ?m st2"
  have st3: "perform e n p st2 = st3" "p_messages st3 n = ?m" "p_config st3 = cfg" "is_enabled st3"
    "p_queue st3 = mq_push (p_queue st2) n" "p_internal st3 = p_internal st2"
    using st2(2,3) by (simp_all add: perform_sends st3_def send_def is_enabled_def)
  have "mq_inv e (p_queue st3)" "waiting st3 = [n]"
    using mq_push_inv [OF st2(4,6) assms(11)] st2(5) unfolding st3(5) by simp_all
  note q = this
  obtain q' where q': "mq_pop e (p_messages st3) (pop_time clk) (p_queue st3) = Inr (q', Some n)"
    using mq_pop_inv [OF q(1) assms(5), of "p_messages st3"] q(2) by auto
  have "\<not> mq_empty (p_queue st3)" using empty_iff [OF q(1)] q(2) by simp
  moreover have "destination_type ?m \<in> {DEST_COUNTER, DEST_GAUGE, DEST_TIMER}"
    using point_message_created [of e p] assms(10) by (cases rule: created.cases) (simp_all add: create_defs)
  from unknown_tag_makes_no_metric [OF assms(9) this]
  have "process_event_message e J fnm cfg t1 t2 ?m (p_internal st3) = Inl Invalid_tag_error" for t1 t2
    using assms(8) st2(7) unfolding st3(6) by (simp add: process_event_message_def Let_def)
  ultimately have "exec e J fnm [Round clk] st3 = Inl Invalid_tag_error"
    using q' st3(2-4) by (simp add: processor_round_def process_message_queue_def Let_def)
  then show ?thesis using conf st2(1) st3(1) by (simp del: make_call.simps(1) exec.simps(3))
qed

definition bad_options :: example_value where
  "bad_options = E_object [(''tags'', E_array [E_string ''maximum''])]"

theorem unknown_tag_in_a_pattern_ends_the_process_witness:
  "run_calls 4 example_env example_json (\<lambda>s. Some (E_object [(''ab'', bad_options)])) (=)
     [Config_json [], Initialize_call (tick_time 5) (tick_time 5),
      Step_call (Point (Msg 1) (Gauge_set ''ab'' 4 (tick_time 5))), Step_call (Round example_round)] program_unset
   = Some (Inl Invalid_tag_error)"
proof (rule unknown_tag_in_a_pattern_ends_the_process
    [where v = bad_options and cfg = "config_reset\<lparr>pattern_opts := [([''ab''], bad_options)]\<rparr>"])
  show "env_ok example_env" "unborn program_unset" "on_clock (tick_time 5)" "on_clock (tick_time 5)"
    "on_clock (pop_time example_round)"
    using program_unset_ok(1) example_clock example_round_ok
    by (simp_all add: unborn_def program_unset_def mq_unset_def internal_unset_def round_ok_def)
  show "config_json example_json (\<lambda>s. Some (E_object [(''ab'', bad_options)])) False config_reset [] =
      Inr (config_reset\<lparr>pattern_opts := [([''ab''], bad_options)]\<rparr>, True)"
    by (simp add: config_json_def configure_old_format_def configure_new_format_def configure_kinds_def
        example_defs Let_def reserved_sections_def show_plain_pattern config_reset_def)
  show "cfg_core_enable (config_reset\<lparr>pattern_opts := [([''ab''], bad_options)]\<rparr>)"
    by (simp add: reset_enabled)
  have "t = Tag_empty \<or> ''maximum'' \<noteq> tag_name t" for t by (cases t) simp_all
  then show "has_unknown_tag example_json bad_options"
    by (simp add: has_unknown_tag_def bad_options_def example_defs)
  show "destination_type (point_message example_env (Gauge_set ''ab'' 4 (tick_time 5))) \<noteq> DEST_ATTRIBUTE"
    by (simp add: create_defs codes)
qed (simp_all add: create_defs)

end
