(* ===== verification/Spec2Isabelle.thy ===== *)
theory Spec2Isabelle
  imports Reports Quantiles Preprocessor Client_Laws Event_Macros Tsc_Clock Lifecycle_Laws Sessions
begin

text \<open>
  A model of handystats, a C++ library that collects statistics about a running program, and the
  theorems about it. Paths are those of the repository: \<open>src/\<close> and \<open>include/handystats/\<close>.

  \<^bold>\<open>How the program works.\<close> A program calls measuring points (\<open>src/measuring_points/\<close>): each
  creates a message (\<open>src/events/\<close>) and pushes it on a lock-free queue (\<open>src/message_queue.cpp\<close>).
  One processor thread (\<open>src/core.cpp\<close>) pops messages and applies each to the metric of its name
  (\<open>src/internal.cpp\<close>), creating it with the options of the first matching pattern of the
  configuration (\<open>src/config.cpp\<close>). A metric (\<open>src/metrics/\<close>) feeds its values to a statistics object
  (\<open>src/statistics.cpp\<close>), whose moving part decays as time goes by (\<open>src/chrono.cpp\<close>,
  \<open>src/chrono/\<close>). Now and then the thread publishes a copy of all metrics (\<open>src/metrics_dump.cpp\<close>),
  which readers can have as JSON (\<open>src/json_dump.cpp\<close>, \<open>src/json/\<close>).

  \<^bold>\<open>Theories.\<close> Each operation is a definition with the name of its function where the name is
  free, and each part has its definitions in one theory and its lemmas in another when it has many.

  \<^item> \<open>Prelude\<close>: 64-bit words, the errors \<open>exn\<close>, results with \<open>bind_result\<close>, and the contract
    \<open>returns r Q E\<close> (on success \<open>Q\<close>, on an error \<open>E\<close>) with its rules.
  \<^item> \<open>Chrono\<close>: units, durations, time points and every operator on them
    (\<open>include/handystats/chrono.hpp\<close>), conversions and the calibration of the offset to the system
    clock (\<open>src/chrono.cpp\<close>). \<open>Tsc_Clock\<close>: the clocks and the measurement of the frequency.
    \<open>Timeline\<close>: the locale \<open>timeline\<close>, what the statistics rely on when they compare and subtract
    time points, interpreted on the tick clock.
  \<^item> \<open>Math_Utils\<close>, \<open>Histogram\<close>, \<open>Histogram_Laws\<close>: \<open>math_utils.hpp\<close> and the histogram of
    \<open>src/statistics.cpp\<close> (insertion, merging, quantiles, entropy); order, bounds, weight, and when a
    quantile fails. \<open>Quantiles\<close>: the extractor against the weight a histogram spreads over the line.
  \<^item> \<open>Json_Api\<close>, \<open>Stat_Config\<close>: the operations of the JSON library that configuration reads with, as a
    parameter; tags and options of statistics.
  \<^item> \<open>Statistics\<close>, \<open>Statistics_Laws\<close>, \<open>Stat_Streams\<close>: the class \<open>statistics\<close>; decay over the locale
    \<open>timeline\<close>; the class invariant and what a whole stream of values amounts to.
  \<^item> \<open>Metrics\<close>, \<open>Metrics_Laws\<close>: gauges, counters, timers and attributes; the locale \<open>aging\<close> (what a
    metric promises when it is told the time, interpreted on the three kinds with statistics) and
    the locale \<open>expiring\<close> (maps whose entries expire, interpreted on the instances of a timer), which
    gives the refinement of a timer to a specification that never sweeps.
  \<^item> \<open>Events\<close>: messages, with the payload word as the sum of what the code stores in it.
  \<^item> \<open>Pattern\<close>: the expansion of \<open>a{b,c}d\<close>, the grammar it decides and the smaller one of the comment in
    the source. \<open>Config\<close>, \<open>Config_Laws\<close>: the
    options, both document formats, the selection of options by name.
  \<^item> \<open>Mpsc_Queue\<close>, \<open>Mpsc_Concurrent\<close>: the queue run alone, under the locale \<open>fifo\<close>, and as a step
    relation of any number of producers and one consumer, each step of which is one of an atomic
    queue or changes nothing. \<open>Message_Queue\<close>, \<open>Message_Queue_Laws\<close>:
    the queue with its count and the statistics about it.
  \<^item> \<open>Internal\<close>, \<open>Internal_Laws\<close>: the metrics by name and the processing of a message.
  \<^item> \<open>Metrics_Dump\<close>, \<open>Dump_Laws\<close>, \<open>Json_Dump\<close>, \<open>Json_Laws\<close>: building and publishing dumps; the
    values their JSON consists of, member by member what the accessors give.
  \<^item> \<open>Measuring_Points\<close>, \<open>Client_Api\<close>, \<open>Macros\<close>, \<open>Event_Macros\<close>, \<open>Client_Laws\<close>: what a program calls,
    directly, through proxy objects, from C or by macros with arguments left out; the scopes. Every
    event macro of either language is one measuring point (\<open>run_macro_is_point\<close>), so what is proved
    of points holds of programs written with macros. \<open>Preprocessor\<close>: the token macros of \<open>macros.h\<close> that
    tell a format from a name, over the macros of Boost.Preprocessor as a parameter.
  \<^item> \<open>Core\<close>, \<open>Core_Laws\<close>: the state of the process (the record \<open>program\<close>), the processor thread, the
    beginning and the end; executions as sequences of measuring points and rounds. \<open>Sessions\<close>: all
    the calls a program can make, in any order and over any number of sessions, and the invariant
    of the library awake and asleep.
  \<^item> \<open>Histories\<close>, \<open>Timer_Histories\<close>, \<open>Delivery\<close>: every operation on the metrics extends the history
    of each, and what counters, gauges and timers report after an execution in terms of the calls
    of the program. \<open>Reports\<close>: the rest of the way, from the metrics to the members of the JSON a
    reader of a dump gets (\<open>json_after\<close>, from \<open>initialize\<close> to the text), with the options of the
    library's own statistics kept through every operation.
  \<^item> \<open>Lifecycle\<close>, \<open>Lifecycle_Laws\<close>: starting and stopping with other threads at work. One record
    \<open>sys\<close> with a program counter for each thread (threads inside a measuring point, the processor
    thread, the caller of \<open>initialize\<close> and \<open>finalize\<close>), one step for each access to shared memory,
    and \<open>sys_reach\<close> for the states some schedule reaches. The discipline \<open>calm\<close> (nobody inside a
    measuring point when the queue begins to be emptied) gives memory safety and the end of
    \<open>finalize\<close>; without it three schedules that break the library. Contents of messages, statistics
    and the option behind \<open>is_enabled\<close> are left out there, and \<open>push\<close> reads the pointer to the queue once
    for its test and its use.

  \<^bold>\<open>Modelling decisions.\<close> \<open>double\<close> and \<open>long double\<close> are \<open>real\<close>, so rounding, infinities and NaN are
  not modelled; a division that would give one of the latter is the error \<open>Not_finite\<close>. The maximum
  of statistics starts, as in the code, at \<open>double_min\<close>, the smallest positive normal double, so what
  theorems call the greatest is the greatest of the values and of it
  (\<open>max_of_negative_values_is_positive\<close>). Integers have
  their width and wrap around. Time stamps in the theorems about statistics are those of the tick
  clock with counts below \<open>2 ^ 62\<close> (\<open>on_clock\<close>), and moving intervals have at least \<open>2 ^ 13\<close> ticks
  (\<open>good_interval\<close>); the definitions have no such bounds. Readings of clocks, \<open>fnmatch\<close>, the JSON
  library, Boost.Preprocessor, the processor and the system are arguments. An exception is the end of the computation
  with an error, as \<open>run_processor\<close> is \<open>noexcept\<close>. A JSON value that is asked for its members and is not
  an object, which RapidJSON asserts, is the error \<open>Not_an_object\<close>; in the code only a member \<open>metrics\<close> of
  the old format is asked without a test (\<open>config_json_keeps_options_sane\<close>). The atomic steps of the queue interleave in one
  order; weaker memory orders are not modelled. The mutexes around short copies and around
  \<open>initialize\<close> and \<open>finalize\<close> serialise calls, which are single steps but in \<open>Lifecycle\<close>. Outside it a
  measuring point or a round of the processor is one step. The values that the patterns of a document
  refer to stay what they are when another document is read.

  \<^bold>\<open>Fuel.\<close> The pattern parser has \<open>pattern_fuel\<close>, proved to be enough for every string. The loop that
  drains the queue takes its fuel from the caller, and as many rounds as messages are proved to be
  enough when no thread is sending; \<open>finalize_left\<close> bounds its steps when threads still are.
  The search for a simultaneous pair of readings may run for ever and is a partial function.

  \<^bold>\<open>Not modelled.\<close> The printing of JSON text and what \<open>snprintf\<close> makes of a format (arguments of the
  definitions), freeing of memory other than messages, names and scheduling of threads.
\<close>

section \<open>Properties of the whole library\<close>

text \<open>From \<open>initialize\<close> on, in any interleaving of measuring points and rounds of the processor
  thread, nothing fails, and the messages that were sent are, in order, those that have been
  processed and deleted, each once, followed by those waiting in the queue; the metrics are those
  named in the processed messages, each of its kind and with its invariant.\<close>

lemma executions_lose_no_message:
  assumes "env_ok e" "at_start e J st" "on_clock now" "on_clock mq_now"
    and "\<forall>s\<in>set ss. step_ok e kinds s" "distinct (map fst (sends e ss))" "length ss < 2 ^ 64"
  shows "\<exists>st' processed left. bind_result (core_initialize e now mq_now st) (exec e J fnm ss) = Inr st'
    \<and> sends e ss = processed @ left
    \<and> p_freed st' = map (\<lambda>(n, m). (n, delete_event_message (Some m))) processed
    \<and> mq_contents (p_queue st') = map fst left
    \<and> dom (map_of (metrics (p_internal st'))) = (\<lambda>(n, m). destination_name m) ` set processed
    \<and> internal_inv e kinds (p_internal st')"
proof -
  from returns_ex [OF whole_run_returns [OF assms(1-7)]] obtain st' k where
    "bind_result (core_initialize e now mq_now st) (exec e J fnm ss) = Inr st'"
    "program_inv e J kinds st'" and k: "tracked e J fnm (p_config st) [] (sends e ss) k st'" by blast
  then show ?thesis
    using tracked_names [OF k]
    by (intro exI [of _ st'] exI [of _ "take k (sends e ss)"] exI [of _ "drop k (sends e ss)"])
      (simp add: tracked_def program_inv_def case_prod_beta comp_def)
qed

text \<open>C14: \<open>finalize\<close> ends, whatever happened since \<open>initialize\<close>: with it every message ever sent has
  been deleted exactly once, in the order of sending, whether it was processed or not, and no queue,
  no metric, no dump and no option is left.\<close>

theorem finalize_deletes_every_message:
  assumes "env_ok e" "at_start e J st" "on_clock now" "on_clock mq_now"
    and "\<forall>s\<in>set ss. step_ok e kinds s" "distinct (map fst (sends e ss))" "length ss < 2 ^ 64"
    and "\<forall>i. on_clock (clock i)" "length (sends e ss) \<le> fuel"
  shows "\<exists>st1 st2. bind_result (core_initialize e now mq_now st) (exec e J fnm ss) = Inr st1
    \<and> core_finalize fuel e clock now mq_now st1 = Some (Inr st2)
    \<and> p_freed st2 = map (\<lambda>(n, m). (n, delete_event_message (Some m))) (sends e ss)
    \<and> \<not> is_enabled st2 \<and> event_message_queue (p_queue st2) = None \<and> metrics (p_internal st2) = []
    \<and> get_dump (p_dump st2) = Map.empty \<and> p_config st2 = config_reset"
proof -
  from returns_ex [OF whole_run_returns [OF assms(1-7)]] obtain st1 k where st1:
    "bind_result (core_initialize e now mq_now st) (exec e J fnm ss) = Inr st1"
    "program_inv e J kinds st1" "tracked e J fnm (p_config st) [] (sends e ss) k st1" by blast
  from core_finalize_returns [OF assms(1) st1(2,3) assms(9,8,3,4)] st1(1)
  show ?thesis by (auto simp: stopped_def case_prod_beta)
qed

theorem finalize_deletes_every_message_witness:
  "\<exists>st1 st2. bind_result (core_initialize example_env (tick_time 5) (tick_time 5) program_unset)
      (exec example_env example_json (=) example_steps) = Inr st1
    \<and> core_finalize 2 example_env (\<lambda>i. tick_time 1000) (tick_time 5) (tick_time 5) st1 = Some (Inr st2)
    \<and> p_freed st2 = [(Msg 1, [Freed_message]), (Msg 2, [Freed_message])]"
  using finalize_deletes_every_message [OF program_unset_ok example_clock(2,2) example_steps_ok,
      of "\<lambda>i. tick_time 1000" 2 "(=)"] example_clock(3)
  by (fastforce simp: example_steps_def create_defs delete_defs codes)

end
